theory Spec2Isabelle
  imports Main "HOL-Library.AList"
begin

section \<open>Python values\<close>

text \<open>
  A Python \<open>str\<close> is a sequence of Unicode code points and \<open>len\<close> counts code points,
  so a \<open>str\<close> is modelled as a list of code points. Program identifiers (dictionary
  keys, tag, attribute and class names) are HOL strings; \<open>ustr\<close> turns a literal of the
  program into a \<open>str\<close>.
\<close>

type_synonym str = "nat list"

definition ustr :: "string \<Rightarrow> str" where
  "ustr s = map of_char s"

text \<open>
  The exceptions the program can meet. \<open>Timeout\<close>, \<open>ConnectionError\<close> and \<open>HTTPError\<close>
  are the \<open>requests.RequestException\<close> family; an \<open>HTTPError\<close> carries the status code
  and the message \<open>raise_for_status\<close> composed. \<open>UnicodeEncodeError\<close> is what writing a
  text that UTF-8 cannot encode raises, \<open>MarkupError\<close> what the terminal library raises on
  a text whose markup it refuses. Everything but \<open>KeyboardInterrupt\<close> derives from
  \<open>Exception\<close>.
\<close>

datatype exn =
    Timeout
  | ConnectionError
  | HTTPError nat str
  | OSError nat
  | KeyError string
  | TypeError
  | ValueError
  | UnicodeEncodeError
  | MarkupError
  | KeyboardInterrupt

fun is_RequestException :: "exn \<Rightarrow> bool" where
  "is_RequestException Timeout = True"
| "is_RequestException ConnectionError = True"
| "is_RequestException (HTTPError c m) = True"
| "is_RequestException e = False"

fun is_Exception :: "exn \<Rightarrow> bool" where
  "is_Exception KeyboardInterrupt = False"
| "is_Exception e = True"

text \<open>Sequencing of two computations that may raise: the first exception wins.\<close>

definition and_then :: "exn + 'a \<Rightarrow> ('a \<Rightarrow> exn + 'b) \<Rightarrow> exn + 'b" where
  "and_then m f = (case m of Inl e \<Rightarrow> Inl e | Inr x \<Rightarrow> f x)"

text \<open>
  \<open>str.isspace\<close> for one code point, and \<open>str.strip()\<close>: the code points Python counts
  as whitespace are removed from both edges, nothing inside is touched.
\<close>

definition isspace :: "nat \<Rightarrow> bool" where
  "isspace c \<longleftrightarrow>
     c \<in> set [9, 10, 11, 12, 13, 28, 29, 30, 31, 32, 133, 160, 5760, 8192, 8193, 8194,
       8195, 8196, 8197, 8198, 8199, 8200, 8201, 8202, 8232, 8233, 8239, 8287, 12288]"

definition lstrip :: "str \<Rightarrow> str" where
  "lstrip s = dropWhile isspace s"

definition rstrip :: "str \<Rightarrow> str" where
  "rstrip s = rev (dropWhile isspace (rev s))"

definition strip :: "str \<Rightarrow> str" where
  "strip s = rstrip (lstrip s)"

text \<open>\<open>str(n)\<close> for an integer: its decimal digits, with a sign when negative.\<close>

fun digits :: "nat \<Rightarrow> str" where
  "digits n = (if n < 10 then [48 + n] else digits (n div 10) @ [48 + n mod 10])"

declare digits.simps [simp del]

definition str_of_int :: "int \<Rightarrow> str" where
  "str_of_int i = (if i < 0 then 45 # digits (nat (- i)) else digits (nat i))"

text \<open>
  The values a developer dictionary holds, and the dictionary itself: an association
  list in insertion order, written with \<open>AList.update\<close> (an existing key keeps its place,
  a new key goes last), read with \<open>getitem\<close>, which raises \<open>KeyError\<close> on a missing key.
\<close>

datatype pyval = PInt int | PStr str

type_synonym developer = "(string \<times> pyval) list"

definition getitem :: "developer \<Rightarrow> string \<Rightarrow> exn + pyval" where
  "getitem d k = (case map_of d k of None \<Rightarrow> Inl (KeyError k) | Some v \<Rightarrow> Inr v)"

fun truthy :: "pyval \<Rightarrow> bool" where
  "truthy (PInt i) = (i \<noteq> 0)"
| "truthy (PStr s) = (s \<noteq> [])"

fun str_of :: "pyval \<Rightarrow> str" where
  "str_of (PInt i) = str_of_int i"
| "str_of (PStr s) = s"

text \<open>\<open>len(v)\<close> and \<open>v[:n]\<close> are defined on a \<open>str\<close> and raise \<open>TypeError\<close> on an integer.\<close>

fun as_str :: "pyval \<Rightarrow> exn + str" where
  "as_str (PStr s) = Inr s"
| "as_str (PInt i) = Inl TypeError"

section \<open>The clock\<close>

record datetime =
  year :: nat
  month :: nat
  day :: nat
  hour :: nat
  minute :: nat
  second :: nat
  microsecond :: nat

definition zfill :: "nat \<Rightarrow> str \<Rightarrow> str" where
  "zfill k s = replicate (k - length s) 48 @ s"

definition isoformat :: "datetime \<Rightarrow> str" where
  "isoformat t =
     zfill 4 (digits (year t)) @ ustr ''-'' @ zfill 2 (digits (month t)) @ ustr ''-'' @
     zfill 2 (digits (day t)) @ ustr ''T'' @ zfill 2 (digits (hour t)) @ ustr '':'' @
     zfill 2 (digits (minute t)) @ ustr '':'' @ zfill 2 (digits (second t)) @
     (if microsecond t = 0 then [] else ustr ''.'' @ zfill 6 (digits (microsecond t)))"

definition strftime :: "datetime \<Rightarrow> str" where
  "strftime t =
     zfill 4 (digits (year t)) @ zfill 2 (digits (month t)) @ zfill 2 (digits (day t)) @
     ustr ''_'' @ zfill 2 (digits (hour t)) @ zfill 2 (digits (minute t)) @
     zfill 2 (digits (second t))"

section \<open>The markup library\<close>

text \<open>
  The program reaches the page only through five operations of the parsing library:
  the parser itself, \<open>find_all\<close>, \<open>find\<close>, \<open>get_text\<close> and \<open>get\<close>. They are taken as a
  parameter, each free to raise, so that every result below holds for whatever the
  library does; \<open>'n\<close> is the library's type of nodes. \<open>find\<close> and \<open>find_all\<close> take the
  tag name and the optional \<open>class_\<close> argument.
\<close>

record 'n bs4 =
  bs_parse :: "str \<Rightarrow> exn + 'n"
  bs_find_all :: "'n \<Rightarrow> string \<Rightarrow> string option \<Rightarrow> exn + 'n list"
  bs_find :: "'n \<Rightarrow> string \<Rightarrow> string option \<Rightarrow> exn + 'n option"
  bs_get_text :: "'n \<Rightarrow> exn + str"
  bs_get :: "'n \<Rightarrow> string \<Rightarrow> exn + str option"

text \<open>
  A reference instance: the parsed tree as the library holds it, a tag with its name,
  its class tokens, its other attributes and its children, or a piece of text. A search
  visits the descendants in document order; a \<open>class_\<close> argument matches one class token
  or the whole class value; \<open>get_text\<close> concatenates the pieces of text below a node.
\<close>

datatype node =
    Tag string "string list" "(string \<times> str) list" "node list"
  | NavigableString str

fun descendants :: "node \<Rightarrow> node list" where
  "descendants (Tag n cs as ks) = concat (map (\<lambda>k. k # descendants k) ks)"
| "descendants (NavigableString s) = []"

fun join_classes :: "string list \<Rightarrow> string" where
  "join_classes [] = []"
| "join_classes [c] = c"
| "join_classes (c # cs) = c @ '' '' @ join_classes cs"

fun matches :: "string \<Rightarrow> string option \<Rightarrow> node \<Rightarrow> bool" where
  "matches name cls (Tag n cs as ks) =
     (n = name \<and> (case cls of None \<Rightarrow> True | Some c \<Rightarrow> c \<in> set cs \<or> c = join_classes cs))"
| "matches name cls (NavigableString s) = False"

fun node_text :: "node \<Rightarrow> str" where
  "node_text (Tag n cs as ks) = concat (map node_text ks)"
| "node_text (NavigableString s) = s"

fun node_attr :: "node \<Rightarrow> string \<Rightarrow> str option" where
  "node_attr (Tag n cs as ks) k = map_of as k"
| "node_attr (NavigableString s) k = None"

definition tree_library :: "node \<Rightarrow> node bs4" where
  "tree_library page =
     \<lparr> bs_parse = (\<lambda>markup. Inr page),
       bs_find_all = (\<lambda>n name cls. Inr (filter (matches name cls) (descendants n))),
       bs_find = (\<lambda>n name cls. Inr (List.find (matches name cls) (descendants n))),
       bs_get_text = (\<lambda>n. Inr (node_text n)),
       bs_get = (\<lambda>n k. Inr (node_attr n k)) \<rparr>"

section \<open>The JSON library\<close>

text \<open>
  The values the program hands to \<open>json.dump\<close>: objects with text keys in insertion
  order, arrays, texts and integers.
\<close>

datatype json =
    JObject "(str \<times> json) list"
  | JArray "json list"
  | JString str
  | JNumber int

text \<open>
  \<open>json.dump(data, f, indent=2, ensure_ascii=False)\<close> as the text it writes. A text goes
  between double quotes with the quote, the backslash and the control characters below
  U+0020 escaped and every other code point as it is; an integer is its decimal form; the
  items of a non-empty array or object stand one per line, two more spaces deep than their
  parent, separated by a comma, a key and its value by a colon and a space.
\<close>

definition hexchar :: "nat \<Rightarrow> nat" where
  "hexchar d = (if d < 10 then 48 + d else 87 + d)"

definition escape :: "nat \<Rightarrow> str" where
  "escape c =
     (if c = 34 then [92, 34]
      else if c = 92 then [92, 92]
      else if c = 10 then [92, 110]
      else if c = 13 then [92, 114]
      else if c = 9 then [92, 116]
      else if c = 12 then [92, 102]
      else if c = 8 then [92, 98]
      else if c < 32 then [92, 117, 48, 48, hexchar (c div 16), hexchar (c mod 16)]
      else [c])"

definition dump_string :: "str \<Rightarrow> str" where
  "dump_string s = 34 # concat (map escape s) @ [34]"

definition newline_indent :: "nat \<Rightarrow> str" where
  "newline_indent level = 10 # replicate (2 * level) 32"

fun join :: "str \<Rightarrow> str list \<Rightarrow> str" where
  "join sep [] = []"
| "join sep [x] = x"
| "join sep (x # y # ys) = x @ sep @ join sep (y # ys)"

fun dump :: "nat \<Rightarrow> json \<Rightarrow> str" where
  "dump level (JString s) = dump_string s"
| "dump level (JNumber i) = str_of_int i"
| "dump level (JArray xs) =
     (if xs = [] then [91, 93]
      else [91] @ newline_indent (Suc level) @
           join (44 # newline_indent (Suc level)) (map (dump (Suc level)) xs) @
           newline_indent level @ [93])"
| "dump level (JObject kvs) =
     (if kvs = [] then [123, 125]
      else [123] @ newline_indent (Suc level) @
           join (44 # newline_indent (Suc level))
             (map (\<lambda>kv. dump_string (fst kv) @ [58, 32] @ dump (Suc level) (snd kv)) kvs) @
           newline_indent level @ [125])"

text \<open>
  \<open>json.load\<close> as a reader of that text: the scanner of the decoder for texts (strict:
  a raw control character ends the reading, escapes of four hexadecimal digits are decoded, a high
  surrogate followed by a low one is joined), for integers, arrays and objects, with the
  white space it skips. \<open>None\<close> stands for \<open>JSONDecodeError\<close>; floats and the literals
  \<open>null\<close>, \<open>true\<close>, \<open>false\<close>, \<open>NaN\<close> and \<open>Infinity\<close>, which the program never writes,
  are not values of \<open>json\<close> and are not read. The first argument of \<open>parse_value\<close> bounds
  the nesting; \<open>loads\<close> gives it the length of the text, which no nesting exceeds.
\<close>

definition whitespace :: "nat \<Rightarrow> bool" where
  "whitespace c \<longleftrightarrow> c = 32 \<or> c = 9 \<or> c = 10 \<or> c = 13"

definition skip_ws :: "str \<Rightarrow> str" where
  "skip_ws s = dropWhile whitespace s"

definition hexval :: "nat \<Rightarrow> nat option" where
  "hexval c =
     (if 48 \<le> c \<and> c \<le> 57 then Some (c - 48)
      else if 97 \<le> c \<and> c \<le> 102 then Some (c - 87)
      else if 65 \<le> c \<and> c \<le> 70 then Some (c - 55)
      else None)"

definition hex4 :: "str \<Rightarrow> nat option" where
  "hex4 s =
     (if length s = 4 \<and> list_all (\<lambda>c. hexval c \<noteq> None) s
      then Some (foldl (\<lambda>n c. n * 16 + the (hexval c)) 0 s)
      else None)"

definition unescape :: "nat \<Rightarrow> nat option" where
  "unescape e =
     (if e = 34 then Some 34
      else if e = 92 then Some 92
      else if e = 47 then Some 47
      else if e = 98 then Some 8
      else if e = 102 then Some 12
      else if e = 110 then Some 10
      else if e = 114 then Some 13
      else if e = 116 then Some 9
      else None)"

definition cons_result :: "nat \<Rightarrow> (str \<times> str) option \<Rightarrow> (str \<times> str) option" where
  "cons_result c r = (case r of None \<Rightarrow> None | Some (s, rest) \<Rightarrow> Some (c # s, rest))"

definition scan_escape :: "str \<Rightarrow> (nat \<times> str) option" where
  "scan_escape cs =
     (if cs = [] then None
      else if hd cs = 117 then
        (case hex4 (take 4 (tl cs)) of
           None \<Rightarrow> None
         | Some u \<Rightarrow>
             (if 55296 \<le> u \<and> u \<le> 56319 \<and> take 2 (drop 5 cs) = [92, 117] then
                (case hex4 (take 4 (drop 7 cs)) of
                   None \<Rightarrow> None
                 | Some l \<Rightarrow>
                     if 56320 \<le> l \<and> l \<le> 57343
                     then Some (65536 + (u - 55296) * 1024 + (l - 56320), drop 11 cs)
                     else Some (u, drop 5 cs))
              else Some (u, drop 5 cs)))
      else
        (case unescape (hd cs) of
           None \<Rightarrow> None
         | Some d \<Rightarrow> Some (d, tl cs)))"

fun scanstring :: "str \<Rightarrow> (str \<times> str) option" where
  "scanstring [] = None"
| "scanstring (c # cs) =
     (if c = 34 then Some ([], cs)
      else if c = 92 then
        (case scan_escape cs of
           None \<Rightarrow> None
         | Some (d, rest) \<Rightarrow>
             if length rest \<le> length cs then cons_result d (scanstring rest) else None)
      else if c < 32 then None
      else cons_result c (scanstring cs))"

definition isdigit :: "nat \<Rightarrow> bool" where
  "isdigit c \<longleftrightarrow> 48 \<le> c \<and> c \<le> 57"

definition nat_of_digits :: "str \<Rightarrow> nat" where
  "nat_of_digits ds = foldl (\<lambda>n c. 10 * n + (c - 48)) 0 ds"

definition int_part :: "str \<Rightarrow> str" where
  "int_part t = (if take 1 t = [48] then [48] else takeWhile isdigit t)"

definition float_follows :: "str \<Rightarrow> bool" where
  "float_follows r \<longleftrightarrow>
     (take 1 r = [46] \<and> list_ex isdigit (take 1 (drop 1 r))) \<or>
     ((take 1 r = [101] \<or> take 1 r = [69]) \<and>
      (list_ex isdigit (take 1 (drop 1 r)) \<or>
       ((take 1 (drop 1 r) = [43] \<or> take 1 (drop 1 r) = [45]) \<and>
        list_ex isdigit (take 1 (drop 2 r)))))"

definition scan_number :: "str \<Rightarrow> (json \<times> str) option" where
  "scan_number s =
     (let negative = (take 1 s = [45]);
          t = (if negative then drop 1 s else s);
          ds = int_part t;
          r = drop (length ds) t
      in if ds = [] \<or> float_follows r then None
         else Some (JNumber (if negative then - int (nat_of_digits ds)
                             else int (nat_of_digits ds)), r))"

fun parse_value :: "nat \<Rightarrow> str \<Rightarrow> (json \<times> str) option"
  and parse_items :: "nat \<Rightarrow> str \<Rightarrow> (json list \<times> str) option"
  and parse_pairs :: "nat \<Rightarrow> str \<Rightarrow> ((str \<times> json) list \<times> str) option"
where
  "parse_value 0 s = None"
| "parse_value (Suc f) s =
     (if take 1 s = [34] then
        (case scanstring (drop 1 s) of
           None \<Rightarrow> None
         | Some (t, r) \<Rightarrow> Some (JString t, r))
      else if take 1 s = [123] then
        (let r = skip_ws (drop 1 s) in
         if take 1 r = [125] then Some (JObject [], drop 1 r)
         else if take 1 r = [34] then
           (case parse_pairs f (drop 1 r) of
              None \<Rightarrow> None
            | Some (kvs, r') \<Rightarrow> Some (JObject kvs, r'))
         else None)
      else if take 1 s = [91] then
        (let r = skip_ws (drop 1 s) in
         if take 1 r = [93] then Some (JArray [], drop 1 r)
         else
           (case parse_items f r of
              None \<Rightarrow> None
            | Some (xs, r') \<Rightarrow> Some (JArray xs, r')))
      else scan_number s)"
| "parse_items 0 s = None"
| "parse_items (Suc f) s =
     (case parse_value f s of
        None \<Rightarrow> None
      | Some (x, r) \<Rightarrow>
          (let r1 = skip_ws r in
           if take 1 r1 = [93] then Some ([x], drop 1 r1)
           else if take 1 r1 = [44] then
             (case parse_items f (skip_ws (drop 1 r1)) of
                None \<Rightarrow> None
              | Some (xs, r2) \<Rightarrow> Some (x # xs, r2))
           else None))"
| "parse_pairs 0 s = None"
| "parse_pairs (Suc f) s =
     (case scanstring s of
        None \<Rightarrow> None
      | Some (k, r) \<Rightarrow>
          (let r1 = skip_ws r in
           if take 1 r1 = [58] then
             (case parse_value f (skip_ws (drop 1 r1)) of
                None \<Rightarrow> None
              | Some (v, r2) \<Rightarrow>
                  (let r3 = skip_ws r2 in
                   if take 1 r3 = [125] then Some ([(k, v)], drop 1 r3)
                   else if take 1 r3 = [44] then
                     (let r4 = skip_ws (drop 1 r3) in
                      if take 1 r4 = [34] then
                        (case parse_pairs f (drop 1 r4) of
                           None \<Rightarrow> None
                         | Some (kvs, r5) \<Rightarrow> Some ((k, v) # kvs, r5))
                      else None)
                   else None))
           else None))"

definition loads :: "str \<Rightarrow> json option" where
  "loads s =
     (case parse_value (length s) (skip_ws s) of
        None \<Rightarrow> None
      | Some (j, r) \<Rightarrow> if skip_ws r = [] then Some j else None)"

section \<open>The world: network, clock, file system, console\<close>

text \<open>
  A response as the program reads it: the status code and the text of the page, and the
  reason phrase and final address, which \<open>raise_for_status\<close> puts into its message.
\<close>

record response =
  status_code :: nat
  reason :: str
  url :: str
  page_text :: str

text \<open>
  The files are opened with \<open>encoding='utf-8'\<close>: a text is written when UTF-8 can encode
  it, that is when it holds no surrogate code point (U+D800 to U+DFFF); writing any other
  text raises \<open>UnicodeEncodeError\<close>.
\<close>

definition surrogate :: "nat \<Rightarrow> bool" where
  "surrogate c \<longleftrightarrow> 55296 \<le> c \<and> c \<le> 57343"

definition encodable :: "str \<Rightarrow> bool" where
  "encodable s = list_all (\<lambda>c. \<not> surrogate c) s"

text \<open>
  A file is empty once opened for writing, then holds the rows of a CSV table, kept as
  lists of cell texts (the quoting and the line ends of the \<open>csv\<close> module are not
  modelled), or the text of a JSON document. \<open>Partial\<close> is what a write of a document
  that failed leaves behind: some beginning of its text.
\<close>

datatype contents = Empty | Partial | Csv "str list list" | Text str

datatype io_op = MakeDirs str | Open str | Write str

text \<open>
  What the program prints, one constructor for each \<open>print\<close> and \<open>console.print\<close> call
  with the values put into its text. \<open>PrintTable\<close> is the call \<open>console.print(table)\<close>
  with the columns of the table, each a header and a width, and the rows given to
  \<open>add_row\<close>. The log records the calls, not the characters the terminal library draws
  for them: it reads markup in a text as style, and it fits a cell into the width of its
  column, so that a cell longer than that width is not shown as the text handed over.
\<close>

datatype message =
    Banner
  | Fetching
  | Found nat
  | ErrorParsing nat exn
  | ErrorFetching exn
  | UnexpectedError exn
  | ErrorSavingCSV exn
  | ErrorSavingJSON exn
  | NoDevelopersFound
  | PrintTable "(string \<times> nat) list" "str list list"
  | MoreDevelopers nat
  | NoDataScraped
  | SavingData
  | Separator
  | Scraped nat
  | CSVSaved str
  | JSONSaved str
  | SomeFilesFailed
  | Interrupted
  | ErrorMessage exn

text \<open>
  \<open>requests_get\<close> is what the GET of a URL yields; \<open>clock\<close> gives the instants that
  successive calls of \<open>datetime.now()\<close> read, \<open>ticks\<close> counts the calls made;
  \<open>io_fault\<close> says which file-system operations fail, path by path, and with which
  errno (a path that cannot be opened is an \<open>OSError\<close> here, whatever makes it so);
  \<open>exn_text\<close>
  is the text \<open>str(e)\<close> of an exception, composed by the library that raised it;
  \<open>markup_error\<close> is the verdict of the terminal library's markup parser: the texts in
  which it finds a closing tag that matches no open tag.
\<close>

record world =
  requests_get :: "str \<Rightarrow> exn + response"
  clock :: "nat \<Rightarrow> datetime"
  ticks :: nat
  io_fault :: "io_op \<Rightarrow> nat option"
  exn_text :: "exn \<Rightarrow> str"
  markup_error :: "str \<Rightarrow> bool"
  dirs :: "str set"
  files :: "str \<Rightarrow> contents option"
  console :: "message list"

text \<open>
  \<open>console.print\<close> of the terminal library reads its text as markup and raises
  \<open>MarkupError\<close> on a closing tag that matches no open tag; a text without an opening
  bracket is printed as it is. The fixed parts of the program's messages hold no bracket,
  so whether a message is refused depends on the foreign text in it: the text of an
  exception, a path, the cells of the table. The message of a \<open>MarkupError\<close> quotes the
  tag that was refused, so printing it is refused again.
\<close>

definition refused :: "world \<Rightarrow> str \<Rightarrow> bool" where
  "refused w s \<longleftrightarrow> 91 \<in> set s \<and> markup_error w s"

definition text_of :: "world \<Rightarrow> exn \<Rightarrow> str" where
  "text_of w e = (case e of HTTPError c m \<Rightarrow> m | _ \<Rightarrow> exn_text w e)"

definition unprintable :: "world \<Rightarrow> exn \<Rightarrow> bool" where
  "unprintable w e \<longleftrightarrow> e = MarkupError \<or> refused w (text_of w e)"

fun refuses :: "world \<Rightarrow> message \<Rightarrow> bool" where
  "refuses w (ErrorParsing i e) = unprintable w e"
| "refuses w (ErrorFetching e) = unprintable w e"
| "refuses w (UnexpectedError e) = unprintable w e"
| "refuses w (ErrorMessage e) = unprintable w e"
| "refuses w (PrintTable cols rows) = list_ex (list_ex (refused w)) rows"
| "refuses w (CSVSaved path) = refused w path"
| "refuses w (JSONSaved path) = refused w path"
| "refuses w m = False"

definition console_print :: "message \<Rightarrow> world \<Rightarrow> (exn + unit) \<times> world" where
  "console_print m w =
     (if refuses w m then (Inl MarkupError, w)
      else (Inr (), w\<lparr>console := console w @ [m]\<rparr>))"

text \<open>
  The built-in \<open>print\<close>, which the two writers use for their error: the text goes out as
  it is, no markup is read.
\<close>

definition builtin_print :: "message \<Rightarrow> world \<Rightarrow> world" where
  "builtin_print m w = w\<lparr>console := console w @ [m]\<rparr>"

text \<open>Running a step and going on with what follows it, unless the step raised.\<close>

definition and_next :: "(exn + 'a) \<times> world \<Rightarrow> ('a \<Rightarrow> world \<Rightarrow> (exn + 'b) \<times> world) \<Rightarrow> (exn + 'b) \<times> world" where
  "and_next r f = (case r of (Inl e, w) \<Rightarrow> (Inl e, w) | (Inr x, w) \<Rightarrow> f x w)"

definition datetime_now :: "world \<Rightarrow> datetime \<times> world" where
  "datetime_now w = (clock w (ticks w), w\<lparr>ticks := Suc (ticks w)\<rparr>)"

definition makedirs :: "str \<Rightarrow> world \<Rightarrow> (exn + unit) \<times> world" where
  "makedirs path w =
     (case io_fault w (MakeDirs path) of
        Some errno \<Rightarrow> (Inl (OSError errno), w)
      | None \<Rightarrow> (Inr (), w\<lparr>dirs := insert path (dirs w)\<rparr>))"

definition open_w :: "str \<Rightarrow> world \<Rightarrow> (exn + unit) \<times> world" where
  "open_w path w =
     (case io_fault w (Open path) of
        Some errno \<Rightarrow> (Inl (OSError errno), w)
      | None \<Rightarrow> (Inr (), w\<lparr>files := (files w)(path \<mapsto> Empty)\<rparr>))"

text \<open>The rows a file holds so far.\<close>

definition rows_of :: "world \<Rightarrow> str \<Rightarrow> str list list" where
  "rows_of w path = (case files w path of Some (Csv rows) \<Rightarrow> rows | _ \<Rightarrow> [])"

text \<open>
  Writing the text of a document to an open file: the text is encoded first, then handed
  to the file system. Either step can fail, and the file then holds a part of the text.
\<close>

definition write_file :: "str \<Rightarrow> str \<Rightarrow> world \<Rightarrow> (exn + unit) \<times> world" where
  "write_file path t w =
     (if \<not> encodable t
      then (Inl UnicodeEncodeError, w\<lparr>files := (files w)(path \<mapsto> Partial)\<rparr>)
      else
        (case io_fault w (Write path) of
           Some errno \<Rightarrow> (Inl (OSError errno), w\<lparr>files := (files w)(path \<mapsto> Partial)\<rparr>)
         | None \<Rightarrow> (Inr (), w\<lparr>files := (files w)(path \<mapsto> Text t)\<rparr>)))"

section \<open>The program\<close>

text \<open>
  The functions of \<^verbatim>\<open>src/main.py\<close>, with explicit state and exceptions as values. The
  long body of \<^verbatim>\<open>scrape_trending_developers\<close> is cut where the source has its blank lines:
  \<^item> \<open>name_fields\<close>: lines 52-63; \<open>username_field\<close>: lines 65-70; \<open>avatar_field\<close>:
    lines 72-73; \<open>repo_fields\<close>: lines 75-91; \<open>extract_fields\<close>: lines 50-91;
  \<^item> \<open>name_or_username\<close>: the test of line 93; \<open>parse_row\<close>: the \<open>try\<close> body, lines 50-95;
    \<open>parse_rows\<close>: the loop with its handler, lines 48-99;
  \<^item> \<open>fetch_and_parse\<close>: the outer \<open>try\<close> body, lines 38-101;
    \<open>scrape_trending_developers\<close>: the whole function with its two handlers.

  The request's headers and timeout do not appear: what the request yields is a
  parameter of the world. \<^verbatim>\<open>track\<close> only draws a progress bar and is the identity on the
  list of rows.
\<close>

definition GITHUB_URL :: str where
  "GITHUB_URL = ustr ''https://github.com/trending/developers''"

definition OUTPUT_DIR :: str where
  "OUTPUT_DIR = ustr ''data''"

definition setup_directories :: "world \<Rightarrow> (exn + unit) \<times> world" where
  "setup_directories w = makedirs OUTPUT_DIR w"

definition get_timestamp :: "world \<Rightarrow> str \<times> world" where
  "get_timestamp w = (case datetime_now w of (t, w') \<Rightarrow> (strftime t, w'))"

subsection \<open>Extraction of one row\<close>

text \<open>An f-string renders a missing attribute (\<open>None\<close>) as the text \<open>None\<close>.\<close>

definition format_value :: "str option \<Rightarrow> str" where
  "format_value v = (case v of None \<Rightarrow> ustr ''None'' | Some s \<Rightarrow> s)"

definition name_fields :: "'n bs4 \<Rightarrow> 'n \<Rightarrow> developer \<Rightarrow> exn + developer" where
  "name_fields lib element developer =
     and_then (bs_find lib element ''h1'' (Some ''h3'')) (\<lambda>name_link.
       case name_link of
         Some heading \<Rightarrow>
           and_then (bs_find lib heading ''a'' None) (\<lambda>link.
             case link of
               Some a \<Rightarrow>
                 and_then (bs_get_text lib a) (\<lambda>t.
                 and_then (bs_get lib a ''href'') (\<lambda>href.
                   Inr (AList.update ''profile_url''
                          (PStr (ustr ''https://github.com'' @ format_value href))
                          (AList.update ''name'' (PStr (strip t)) developer))))
             | None \<Rightarrow>
                 and_then (bs_get_text lib heading) (\<lambda>t.
                   Inr (AList.update ''profile_url'' (PStr [])
                          (AList.update ''name'' (PStr (strip t)) developer))))
       | None \<Rightarrow>
           Inr (AList.update ''profile_url'' (PStr [])
                  (AList.update ''name'' (PStr []) developer)))"

definition username_field :: "'n bs4 \<Rightarrow> 'n \<Rightarrow> developer \<Rightarrow> exn + developer" where
  "username_field lib element developer =
     and_then (bs_find lib element ''p'' (Some ''f4'')) (\<lambda>username_element.
       case username_element of
         Some p \<Rightarrow>
           and_then (bs_find lib p ''a'' None) (\<lambda>username_link.
             case username_link of
               Some a \<Rightarrow>
                 and_then (bs_get_text lib a) (\<lambda>t.
                   Inr (AList.update ''username'' (PStr (strip t)) developer))
             | None \<Rightarrow> Inr (AList.update ''username'' (PStr []) developer))
       | None \<Rightarrow> Inr (AList.update ''username'' (PStr []) developer))"

definition avatar_field :: "'n bs4 \<Rightarrow> 'n \<Rightarrow> developer \<Rightarrow> exn + developer" where
  "avatar_field lib element developer =
     and_then (bs_find lib element ''img'' (Some ''avatar-user'')) (\<lambda>avatar_img.
       case avatar_img of
         Some img \<Rightarrow>
           and_then (bs_get lib img ''src'') (\<lambda>src.
             Inr (AList.update ''avatar_url''
                    (PStr (case src of None \<Rightarrow> [] | Some s \<Rightarrow> s)) developer))
       | None \<Rightarrow> Inr (AList.update ''avatar_url'' (PStr []) developer))"

definition repo_fields :: "'n bs4 \<Rightarrow> 'n \<Rightarrow> developer \<Rightarrow> exn + developer" where
  "repo_fields lib element developer =
     and_then (bs_find lib element ''article'' None) (\<lambda>repo_article.
       case repo_article of
         Some article \<Rightarrow>
           and_then (bs_find lib article ''h1'' (Some ''h4'')) (\<lambda>repo_name_elem.
           and_then
             (case repo_name_elem of
                Some heading \<Rightarrow>
                  and_then (bs_find lib heading ''a'' None) (\<lambda>repo_link.
                    case repo_link of
                      Some a \<Rightarrow>
                        and_then (bs_get_text lib a) (\<lambda>t.
                          Inr (AList.update ''popular_repo'' (PStr (strip t)) developer))
                    | None \<Rightarrow>
                        and_then (bs_get_text lib heading) (\<lambda>t.
                          Inr (AList.update ''popular_repo'' (PStr (strip t)) developer)))
              | None \<Rightarrow> Inr (AList.update ''popular_repo'' (PStr []) developer))
             (\<lambda>developer.
           and_then (bs_find lib article ''div'' (Some ''f6 color-fg-muted mt-1''))
             (\<lambda>repo_desc_elem.
               case repo_desc_elem of
                 Some d \<Rightarrow>
                   and_then (bs_get_text lib d) (\<lambda>t.
                     Inr (AList.update ''repo_description'' (PStr (strip t)) developer))
               | None \<Rightarrow> Inr (AList.update ''repo_description'' (PStr []) developer))))
       | None \<Rightarrow>
           Inr (AList.update ''repo_description'' (PStr [])
                  (AList.update ''popular_repo'' (PStr []) developer)))"

text \<open>
  The fields of row \<open>i\<close> (counted from 0, as \<open>enumerate\<close> does), up to the test that
  decides whether the row is kept.
\<close>

definition extract_fields :: "'n bs4 \<Rightarrow> nat \<Rightarrow> 'n \<Rightarrow> exn + developer" where
  "extract_fields lib i element =
     and_then (name_fields lib element [(''rank'', PInt (int i + 1))]) (\<lambda>developer.
     and_then (username_field lib element developer) (\<lambda>developer.
     and_then (avatar_field lib element developer) (\<lambda>developer.
       repo_fields lib element developer)))"

text \<open>
  The test \<open>developer['name'] or developer['username']\<close>: the second look-up is made
  only when the name is empty.
\<close>

definition name_or_username :: "developer \<Rightarrow> exn + bool" where
  "name_or_username developer =
     and_then (getitem developer ''name'') (\<lambda>name.
       if truthy name then Inr True
       else and_then (getitem developer ''username'') (\<lambda>username. Inr (truthy username)))"

text \<open>
  The body of the per-row \<open>try\<close>: the fields, then the test; a kept row reads the
  clock, takes its \<open>scraped_at\<close> and is appended.
\<close>

definition parse_row :: "'n bs4 \<Rightarrow> nat \<Rightarrow> 'n \<Rightarrow> developer list \<Rightarrow> world \<Rightarrow> (exn + developer list) \<times> world" where
  "parse_row lib i element developers w =
     (case extract_fields lib i element of
        Inl e \<Rightarrow> (Inl e, w)
      | Inr developer \<Rightarrow>
          (case name_or_username developer of
             Inl e \<Rightarrow> (Inl e, w)
           | Inr keep \<Rightarrow>
               if keep
               then
                 (case datetime_now w of
                    (t, w') \<Rightarrow>
                      (Inr (developers @
                            [AList.update ''scraped_at'' (PStr (isoformat t)) developer]), w'))
               else (Inr developers, w)))"

text \<open>
  The loop over the enumerated rows. An \<open>Exception\<close> raised by a row is reported and
  the loop goes on with the next row; anything else leaves the loop, and so does an
  exception raised by the report itself.
\<close>

fun parse_rows :: "'n bs4 \<Rightarrow> (nat \<times> 'n) list \<Rightarrow> developer list \<Rightarrow> world \<Rightarrow> (exn + developer list) \<times> world" where
  "parse_rows lib [] developers w = (Inr developers, w)"
| "parse_rows lib ((i, element) # rest) developers w =
     (case parse_row lib i element developers w of
        (Inr developers', w') \<Rightarrow> parse_rows lib rest developers' w'
      | (Inl e, w') \<Rightarrow>
          if is_Exception e
          then
            (case console_print (ErrorParsing (i + 1) e) w' of
               (Inl e', w'') \<Rightarrow> (Inl e', w'')
             | (Inr u, w'') \<Rightarrow> parse_rows lib rest developers w'')
          else (Inl e, w'))"

subsection \<open>Fetching and scraping\<close>

text \<open>
  \<open>Response.raise_for_status\<close>: a 4xx or 5xx status raises \<open>HTTPError\<close> with a message
  made of the status code, the reason phrase and the address of the response.
\<close>

definition raise_for_status :: "response \<Rightarrow> exn + unit" where
  "raise_for_status r =
     (if 400 \<le> status_code r \<and> status_code r < 500
      then Inl (HTTPError (status_code r)
                  (digits (status_code r) @ ustr '' Client Error: '' @ reason r @
                   ustr '' for url: '' @ url r))
      else if 500 \<le> status_code r \<and> status_code r < 600
      then Inl (HTTPError (status_code r)
                  (digits (status_code r) @ ustr '' Server Error: '' @ reason r @
                   ustr '' for url: '' @ url r))
      else Inr ())"

definition fetch_and_parse :: "'n bs4 \<Rightarrow> world \<Rightarrow> (exn + developer list) \<times> world" where
  "fetch_and_parse lib w =
     and_next (console_print Fetching w) (\<lambda>u w1.
       case requests_get w1 GITHUB_URL of
         Inl e \<Rightarrow> (Inl e, w1)
       | Inr response \<Rightarrow>
           (case raise_for_status response of
              Inl e \<Rightarrow> (Inl e, w1)
            | Inr u \<Rightarrow>
                (case bs_parse lib (page_text response) of
                   Inl e \<Rightarrow> (Inl e, w1)
                 | Inr soup \<Rightarrow>
                     (case bs_find_all lib soup ''article'' (Some ''Box-row'') of
                        Inl e \<Rightarrow> (Inl e, w1)
                      | Inr developer_elements \<Rightarrow>
                          and_next (console_print (Found (length developer_elements)) w1)
                            (\<lambda>u w2.
                               parse_rows lib (enumerate 0 developer_elements) [] w2)))))"

text \<open>
  The two handlers print the exception through \<open>console.print\<close> and return the empty
  list; an exception raised by that print, inside the handler, leaves the function.
\<close>

definition scrape_trending_developers :: "'n bs4 \<Rightarrow> world \<Rightarrow> (exn + developer list) \<times> world" where
  "scrape_trending_developers lib w =
     and_next (console_print Banner w) (\<lambda>u w0.
       case fetch_and_parse lib w0 of
         (Inr developers, w') \<Rightarrow> (Inr developers, w')
       | (Inl e, w') \<Rightarrow>
           if is_RequestException e
           then and_next (console_print (ErrorFetching e) w') (\<lambda>u w''. (Inr [], w''))
           else if is_Exception e
           then and_next (console_print (UnexpectedError e) w') (\<lambda>u w''. (Inr [], w''))
           else (Inl e, w'))"

subsection \<open>The tabular writer\<close>

text \<open>
  \<^verbatim>\<open>save_to_csv\<close>, lines 110-124. \<open>write_csv\<close> is the body of its \<open>try\<close>; the header and
  each row are written one after the other, so a failure leaves the rows written so far.
\<close>

definition fieldnames :: "string list" where
  "fieldnames = [''rank'', ''username'', ''name'', ''repo_description'', ''avatar_url'',
     ''profile_url'', ''popular_repo'', ''scraped_at'']"

text \<open>
  \<open>DictWriter\<close> turns a dictionary into a row in the order of \<open>fieldnames\<close>: a key that
  is not a field name raises \<open>ValueError\<close>, a missing field is written empty.
\<close>

definition dict_to_list :: "developer \<Rightarrow> exn + str list" where
  "dict_to_list rowdict =
     (if list_ex (\<lambda>k. k \<notin> set fieldnames) (map fst rowdict) then Inl ValueError
      else Inr (map (\<lambda>k. case map_of rowdict k of None \<Rightarrow> [] | Some v \<Rightarrow> str_of v) fieldnames))"

text \<open>
  One row is one write to the file: its cells are encoded, which fails on a cell that
  UTF-8 cannot encode, and the line is handed to the file system.
\<close>

definition writerow :: "str \<Rightarrow> str list \<Rightarrow> world \<Rightarrow> (exn + unit) \<times> world" where
  "writerow path row w =
     (if \<not> list_all encodable row then (Inl UnicodeEncodeError, w)
      else
        (case io_fault w (Write path) of
           Some errno \<Rightarrow> (Inl (OSError errno), w)
         | None \<Rightarrow>
             (Inr (), w\<lparr>files := (files w)(path \<mapsto> Csv (rows_of w path @ [row]))\<rparr>)))"

definition writeheader :: "str \<Rightarrow> world \<Rightarrow> (exn + unit) \<times> world" where
  "writeheader path w = writerow path (map ustr fieldnames) w"

fun writerows :: "str \<Rightarrow> developer list \<Rightarrow> world \<Rightarrow> (exn + unit) \<times> world" where
  "writerows path [] w = (Inr (), w)"
| "writerows path (d # ds) w =
     (case dict_to_list d of
        Inl e \<Rightarrow> (Inl e, w)
      | Inr row \<Rightarrow>
          (case writerow path row w of
             (Inl e, w') \<Rightarrow> (Inl e, w')
           | (Inr u, w') \<Rightarrow> writerows path ds w'))"

definition write_csv :: "developer list \<Rightarrow> str \<Rightarrow> world \<Rightarrow> (exn + unit) \<times> world" where
  "write_csv developers filename w =
     (case open_w filename w of
        (Inl e, w') \<Rightarrow> (Inl e, w')
      | (Inr u, w1) \<Rightarrow>
          (case writeheader filename w1 of
             (Inl e, w') \<Rightarrow> (Inl e, w')
           | (Inr u, w2) \<Rightarrow> writerows filename developers w2))"

definition save_to_csv :: "developer list \<Rightarrow> str \<Rightarrow> world \<Rightarrow> (exn + bool) \<times> world" where
  "save_to_csv developers filename w =
     (if developers = [] then (Inr False, w)
      else
        (case write_csv developers filename w of
           (Inr u, w') \<Rightarrow> (Inr True, w')
         | (Inl e, w') \<Rightarrow>
             if is_Exception e then (Inr False, builtin_print (ErrorSavingCSV e) w')
             else (Inl e, w')))"

subsection \<open>The structured writer\<close>

text \<open>
  \<^verbatim>\<open>save_to_json\<close>, lines 126-142. \<open>envelope\<close> is the dictionary \<open>data\<close> as the JSON value
  that \<open>json.dump\<close> writes; \<open>write_json\<close> is the body of the \<open>try\<close>: the file is opened and
  the text of the document written to it.
\<close>

fun json_of_pyval :: "pyval \<Rightarrow> json" where
  "json_of_pyval (PInt i) = JNumber i"
| "json_of_pyval (PStr s) = JString s"

definition json_of_developer :: "developer \<Rightarrow> json" where
  "json_of_developer d = JObject (map (\<lambda>(k, v). (ustr k, json_of_pyval v)) d)"

definition envelope :: "str \<Rightarrow> developer list \<Rightarrow> json" where
  "envelope stamp developers =
     JObject [(ustr ''scraped_at'', JString stamp),
              (ustr ''total_developers'', JNumber (int (length developers))),
              (ustr ''developers'', JArray (map json_of_developer developers))]"

definition write_json :: "json \<Rightarrow> str \<Rightarrow> world \<Rightarrow> (exn + unit) \<times> world" where
  "write_json data filename w =
     (case open_w filename w of
        (Inl e, w') \<Rightarrow> (Inl e, w')
      | (Inr u, w1) \<Rightarrow> write_file filename (dump 0 data) w1)"

definition save_to_json :: "developer list \<Rightarrow> str \<Rightarrow> world \<Rightarrow> (exn + bool) \<times> world" where
  "save_to_json developers filename w =
     (if developers = [] then (Inr False, w)
      else
        (case datetime_now w of
           (t, w0) \<Rightarrow>
             (case write_json (envelope (isoformat t) developers) filename w0 of
                (Inr u, w') \<Rightarrow> (Inr True, w')
              | (Inl e, w') \<Rightarrow>
                  if is_Exception e then (Inr False, builtin_print (ErrorSavingJSON e) w')
                  else (Inl e, w'))))"

text \<open>
  Reading a document back, as \<open>json.load\<close> followed by the look-ups would: the decoder
  builds a dictionary from the pairs of an object, a repeated key keeping its first place
  and its last value. A record is read from an object whose values are texts and integers
  and whose keys are texts of the program's alphabet.
\<close>

fun pyval_of_json :: "json \<Rightarrow> pyval option" where
  "pyval_of_json (JNumber i) = Some (PInt i)"
| "pyval_of_json (JString s) = Some (PStr s)"
| "pyval_of_json j = None"

definition key_of :: "str \<Rightarrow> string option" where
  "key_of s = (if list_all (\<lambda>c. c < 256) s then Some (map char_of s) else None)"

fun items_of_json :: "(str \<times> json) list \<Rightarrow> developer \<Rightarrow> developer option" where
  "items_of_json [] d = Some d"
| "items_of_json ((k, j) # kjs) d =
     (case key_of k of
        None \<Rightarrow> None
      | Some key \<Rightarrow>
          (case pyval_of_json j of
             None \<Rightarrow> None
           | Some v \<Rightarrow> items_of_json kjs (AList.update key v d)))"

fun developer_of_json :: "json \<Rightarrow> developer option" where
  "developer_of_json (JObject kjs) = items_of_json kjs []"
| "developer_of_json j = None"

fun developers_of_array :: "json list \<Rightarrow> developer list option" where
  "developers_of_array [] = Some []"
| "developers_of_array (j # js) =
     (case developer_of_json j of
        None \<Rightarrow> None
      | Some d \<Rightarrow> (case developers_of_array js of None \<Rightarrow> None | Some ds \<Rightarrow> Some (d # ds)))"

text \<open>The look-up \<open>document[key]\<close> in what \<open>json.load\<close> returned.\<close>

fun lookup_key :: "json \<Rightarrow> string \<Rightarrow> json option" where
  "lookup_key (JObject kjs) key = map_of (rev kjs) (ustr key)"
| "lookup_key j key = None"

definition read_developers :: "str \<Rightarrow> developer list option" where
  "read_developers t =
     (case loads t of
        None \<Rightarrow> None
      | Some document \<Rightarrow>
          (case lookup_key document ''developers'' of
             Some (JArray js) \<Rightarrow> developers_of_array js
           | _ \<Rightarrow> None))"

definition read_total :: "str \<Rightarrow> int option" where
  "read_total t =
     (case loads t of
        None \<Rightarrow> None
      | Some document \<Rightarrow>
          (case lookup_key document ''total_developers'' of
             Some (JNumber n) \<Rightarrow> Some n
           | _ \<Rightarrow> None))"

subsection \<open>The reporter\<close>

text \<open>
  \<^verbatim>\<open>display_results\<close>, lines 144-170. A row of the table is the list of the five cell
  texts handed to \<open>add_row\<close>; the table is printed by one call, which raises when the
  terminal library refuses the markup of a cell.
\<close>

definition table_row :: "developer \<Rightarrow> exn + str list" where
  "table_row dev =
     and_then (getitem dev ''rank'') (\<lambda>rank.
     and_then (and_then (getitem dev ''username'') as_str) (\<lambda>username.
     and_then (and_then (getitem dev ''name'') as_str) (\<lambda>name.
     and_then (and_then (getitem dev ''popular_repo'') as_str) (\<lambda>popular_repo.
     and_then (and_then (getitem dev ''repo_description'') as_str) (\<lambda>repo_description.
       Inr [str_of rank,
            if length username > 18 then take 18 username @ ustr ''...'' else username,
            if length name > 23 then take 23 name @ ustr ''...'' else name,
            if length popular_repo > 23 then take 23 popular_repo @ ustr ''...''
            else popular_repo,
            if length repo_description > 28 then take 28 repo_description @ ustr ''...''
            else repo_description])))))"

fun table_rows :: "developer list \<Rightarrow> exn + str list list" where
  "table_rows [] = Inr []"
| "table_rows (dev # devs) =
     and_then (table_row dev) (\<lambda>row.
     and_then (table_rows devs) (\<lambda>rows. Inr (row # rows)))"

text \<open>The columns of the table with their widths, lines 152-156.\<close>

definition table_columns :: "(string \<times> nat) list" where
  "table_columns =
     [(''Rank'', 6), (''Username'', 20), (''Name'', 25), (''Popular Repo'', 25),
      (''Repo Desc'', 30)]"

definition display_results :: "developer list \<Rightarrow> world \<Rightarrow> (exn + unit) \<times> world" where
  "display_results developers w =
     (if developers = [] then console_print NoDevelopersFound w
      else
        (case table_rows (take 10 developers) of
           Inl e \<Rightarrow> (Inl e, w)
         | Inr rows \<Rightarrow>
             and_next (console_print (PrintTable table_columns rows) w) (\<lambda>u w1.
               if length developers > 10
               then console_print (MoreDevelopers (length developers - 10)) w1
               else (Inr (), w1))))"

subsection \<open>The orchestrator\<close>

text \<open>
  \<^verbatim>\<open>main\<close>, lines 172-208: \<open>main_body\<close> is the body of its \<open>try\<close>, \<open>save_and_report\<close> the
  part after the early return (lines 183-203), \<open>report_saved\<close> its last three tests
  (lines 197-203). The two handlers of \<open>main\<close> print through \<open>console.print\<close>; an
  exception raised by that print leaves \<open>main\<close>.
\<close>

text \<open>\<open>os.path.join\<close> of two components.\<close>

definition path_join :: "str \<Rightarrow> str \<Rightarrow> str" where
  "path_join a b =
     (if b \<noteq> [] \<and> hd b = 47 then b
      else if a = [] \<or> last a = 47 then a @ b
      else a @ [47] @ b)"

definition csv_path :: "str \<Rightarrow> str" where
  "csv_path timestamp =
     path_join OUTPUT_DIR (ustr ''github_trending_developers_'' @ timestamp @ ustr ''.csv'')"

definition json_path :: "str \<Rightarrow> str" where
  "json_path timestamp =
     path_join OUTPUT_DIR (ustr ''github_trending_developers_'' @ timestamp @ ustr ''.json'')"

definition report_saved :: "bool \<Rightarrow> str \<Rightarrow> bool \<Rightarrow> str \<Rightarrow> world \<Rightarrow> (exn + unit) \<times> world" where
  "report_saved csv_saved csv_filename json_saved json_filename w =
     and_next (if csv_saved then console_print (CSVSaved csv_filename) w else (Inr (), w))
       (\<lambda>u w1.
     and_next (if json_saved then console_print (JSONSaved json_filename) w1 else (Inr (), w1))
       (\<lambda>u w2.
     if \<not> csv_saved \<or> \<not> json_saved then console_print SomeFilesFailed w2 else (Inr (), w2)))"

definition save_and_report :: "developer list \<Rightarrow> world \<Rightarrow> (exn + unit) \<times> world" where
  "save_and_report developers w =
     (case get_timestamp w of
        (timestamp, w1) \<Rightarrow>
          and_next (console_print SavingData w1) (\<lambda>u w2.
          and_next (save_to_csv developers (csv_path timestamp) w2) (\<lambda>csv_saved w3.
          and_next (save_to_json developers (json_path timestamp) w3) (\<lambda>json_saved w4.
          and_next (console_print Separator w4) (\<lambda>u w5.
          and_next (display_results developers w5) (\<lambda>u w6.
          and_next (console_print (Scraped (length developers)) w6) (\<lambda>u w7.
            report_saved csv_saved (csv_path timestamp) json_saved (json_path timestamp)
              w7)))))))"

definition main_body :: "'n bs4 \<Rightarrow> world \<Rightarrow> (exn + unit) \<times> world" where
  "main_body lib w =
     and_next (setup_directories w) (\<lambda>u w1.
     and_next (scrape_trending_developers lib w1) (\<lambda>developers w2.
       if developers = [] then console_print NoDataScraped w2
       else save_and_report developers w2))"

definition main :: "'n bs4 \<Rightarrow> world \<Rightarrow> (exn + unit) \<times> world" where
  "main lib w =
     (case main_body lib w of
        (Inr u, w') \<Rightarrow> (Inr (), w')
      | (Inl e, w') \<Rightarrow>
          if e = KeyboardInterrupt then console_print Interrupted w'
          else if is_Exception e then console_print (ErrorMessage e) w'
          else (Inl e, w'))"

subsection \<open>Rows and records\<close>

text \<open>
  A row of the enumerated listing is retained when its fields extract without an
  exception and the name-or-username test succeeds; a record comes from a row when it is
  the row's fields with a \<open>scraped_at\<close> text added.
\<close>

definition retained :: "'n bs4 \<Rightarrow> nat \<times> 'n \<Rightarrow> bool" where
  "retained lib row =
     (case extract_fields lib (fst row) (snd row) of
        Inl e \<Rightarrow> False
      | Inr developer \<Rightarrow> name_or_username developer = Inr True)"

definition from_row :: "'n bs4 \<Rightarrow> developer \<Rightarrow> nat \<times> 'n \<Rightarrow> bool" where
  "from_row lib d row =
     (case extract_fields lib (fst row) (snd row) of
        Inl e \<Rightarrow> False
      | Inr developer \<Rightarrow>
          (case map_of d ''scraped_at'' of
             Some (PStr t) \<Rightarrow> d = AList.update ''scraped_at'' (PStr t) developer
           | _ \<Rightarrow> False))"

text \<open>
  The cells the tabular writer makes of a record, and the records it can write: those
  whose keys are field names and whose cells UTF-8 can encode. The records the
  structured writer can write are those whose values UTF-8 can encode.
\<close>

definition cells :: "developer \<Rightarrow> str list" where
  "cells d = (case dict_to_list d of Inl e \<Rightarrow> [] | Inr row \<Rightarrow> row)"

definition writable_row :: "developer \<Rightarrow> bool" where
  "writable_row d = (case dict_to_list d of Inl e \<Rightarrow> False | Inr row \<Rightarrow> list_all encodable row)"

definition encodable_record :: "developer \<Rightarrow> bool" where
  "encodable_record d = list_all (\<lambda>kv. encodable (str_of (snd kv))) d"

section \<open>Sample inputs\<close>

text \<open>
  A listing of three rows: a full row whose texts and avatar address carry edge
  whitespace, a row with neither heading nor handle, and a row whose heading has no
  hyperlink.
\<close>

definition link_alice :: node where
  "link_alice =
     Tag ''a'' [] [(''href'', ustr ''/alice'')] [NavigableString (ustr ''  Alice  Liddell '')]"

definition heading_alice :: node where
  "heading_alice = Tag ''h1'' [''h3'', ''lh-condensed''] [] [link_alice]"

definition avatar_alice :: node where
  "avatar_alice =
     Tag ''img'' [''rounded'', ''avatar-user'']
       [(''src'', ustr '' https://avatars.example/u/1 '')] []"

definition row_alice :: node where
  "row_alice =
     Tag ''article'' [''Box-row'', ''d-flex''] []
       [avatar_alice,
        heading_alice,
        Tag ''p'' [''f4'', ''text-normal''] []
          [Tag ''a'' [] [(''href'', ustr ''/alice'')] [NavigableString (ustr '' alice '')]],
        Tag ''article'' [] []
          [Tag ''h1'' [''h4''] [] [Tag ''a'' [] [] [NavigableString (ustr '' wonder '')]],
           Tag ''div'' [''f6'', ''color-fg-muted'', ''mt-1''] []
             [NavigableString (ustr '' A  tool '')]]]"

definition row_blank :: node where
  "row_blank =
     Tag ''article'' [''Box-row''] [] [Tag ''div'' [] [] [NavigableString (ustr ''sponsored'')]]"

definition heading_bob :: node where
  "heading_bob = Tag ''h1'' [''h3''] [] [NavigableString (ustr ''Bob'')]"

definition row_bob :: node where
  "row_bob = Tag ''article'' [''Box-row''] [] [heading_bob]"

text \<open>A separate row with a handle and no heading.\<close>

definition row_carol :: node where
  "row_carol =
     Tag ''article'' [''Box-row''] []
       [Tag ''p'' [''f4''] []
          [Tag ''a'' [] [(''href'', ustr ''/carol'')] [NavigableString (ustr ''carol'')]]]"

definition sample_page :: node where
  "sample_page = Tag ''[document]'' [] [] [row_alice, row_blank, row_bob]"

definition fields_alice :: "nat \<Rightarrow> developer" where
  "fields_alice i =
     [(''rank'', PInt (int i + 1)), (''name'', PStr (ustr ''Alice  Liddell'')),
      (''profile_url'', PStr (ustr ''https://github.com/alice'')),
      (''username'', PStr (ustr ''alice'')),
      (''avatar_url'', PStr (ustr '' https://avatars.example/u/1 '')),
      (''popular_repo'', PStr (ustr ''wonder'')),
      (''repo_description'', PStr (ustr ''A  tool''))]"

definition fields_blank :: "nat \<Rightarrow> developer" where
  "fields_blank i =
     [(''rank'', PInt (int i + 1)), (''name'', PStr []), (''profile_url'', PStr []),
      (''username'', PStr []), (''avatar_url'', PStr []), (''popular_repo'', PStr []),
      (''repo_description'', PStr [])]"

definition fields_bob :: "nat \<Rightarrow> developer" where
  "fields_bob i =
     [(''rank'', PInt (int i + 1)), (''name'', PStr (ustr ''Bob'')), (''profile_url'', PStr []),
      (''username'', PStr []), (''avatar_url'', PStr []), (''popular_repo'', PStr []),
      (''repo_description'', PStr [])]"

definition fields_carol :: "nat \<Rightarrow> developer" where
  "fields_carol i =
     [(''rank'', PInt (int i + 1)), (''name'', PStr []), (''profile_url'', PStr []),
      (''username'', PStr (ustr ''carol'')), (''avatar_url'', PStr []),
      (''popular_repo'', PStr []), (''repo_description'', PStr [])]"

text \<open>A library that fails with \<open>TypeError\<close> whenever a \<open>src\<close> attribute is read.\<close>

definition brittle_library :: "node \<Rightarrow> node bs4" where
  "brittle_library page =
     (tree_library page)\<lparr>bs_get :=
        (\<lambda>n k. if k = ''src'' then Inl TypeError else Inr (node_attr n k))\<rparr>"

definition noon :: datetime where
  "noon = \<lparr>year = 2024, month = 5, day = 17, hour = 12, minute = 0, second = 0,
            microsecond = 0\<rparr>"

text \<open>The records of the sample listing: the fields with the reading of the clock added.\<close>

definition stamped :: "nat \<Rightarrow> developer \<Rightarrow> developer" where
  "stamped k d = d @ [(''scraped_at'', PStr (isoformat (noon\<lparr>second := k\<rparr>)))]"

definition sample_developers :: "developer list" where
  "sample_developers = [stamped 0 (fields_alice 0), stamped 1 (fields_bob 2)]"

text \<open>
  In the sample worlds the markup parser is stood in for by \<open>has_closing_tag\<close>, which
  refuses a text that holds the two characters that open a closing tag.
\<close>

fun has_closing_tag :: "str \<Rightarrow> bool" where
  "has_closing_tag (a # b # s) = ((a = 91 \<and> b = 47) \<or> has_closing_tag (b # s))"
| "has_closing_tag s = False"

definition sample_response :: response where
  "sample_response =
     \<lparr>status_code = 200, reason = ustr ''OK'', url = GITHUB_URL, page_text = ustr ''<html>''\<rparr>"

text \<open>
  Worlds: one where the page is served and every file operation succeeds, one where
  the request times out, one where the server answers 404, one where it answers 403 with
  a reason phrase that holds a closing tag, one where no file whose name ends in \<open>.csv\<close>
  can be opened (errno 13), and one where every write to a file fails (errno 28).
\<close>

definition online_world :: world where
  "online_world =
     \<lparr>requests_get = (\<lambda>address. Inr sample_response),
      clock = (\<lambda>n. noon\<lparr>second := n\<rparr>),
      ticks = 0,
      io_fault = (\<lambda>op. None),
      exn_text = (\<lambda>e. []),
      markup_error = has_closing_tag,
      dirs = {},
      files = (\<lambda>path. None),
      console = []\<rparr>"

definition timeout_world :: world where
  "timeout_world = online_world\<lparr>requests_get := (\<lambda>address. Inl Timeout)\<rparr>"

definition not_found_world :: world where
  "not_found_world =
     online_world\<lparr>requests_get :=
       (\<lambda>address. Inr \<lparr>status_code = 404, reason = ustr ''Not Found'', url = GITHUB_URL,
                     page_text = ustr ''Not Found''\<rparr>)\<rparr>"

definition forbidden_world :: world where
  "forbidden_world =
     online_world\<lparr>requests_get :=
       (\<lambda>address. Inr \<lparr>status_code = 403, reason = ustr ''[/b]'', url = GITHUB_URL,
                     page_text = ustr ''Forbidden''\<rparr>)\<rparr>"

definition csv_locked_world :: world where
  "csv_locked_world =
     online_world\<lparr>io_fault :=
       (\<lambda>op. case op of
               Open path \<Rightarrow> if drop (length path - 4) path = ustr ''.csv'' then Some 13 else None
             | _ \<Rightarrow> None)\<rparr>"

definition disk_full_world :: world where
  "disk_full_world =
     online_world\<lparr>io_fault := (\<lambda>op. case op of Write path \<Rightarrow> Some 28 | _ \<Rightarrow> None)\<rparr>"

text \<open>A record whose username has 20 characters.\<close>

definition verbose_developer :: developer where
  "verbose_developer =
     [(''rank'', PInt 7), (''name'', PStr (ustr ''Ann'')), (''profile_url'', PStr []),
      (''username'', PStr (ustr ''a-very-long-username'')), (''avatar_url'', PStr []),
      (''popular_repo'', PStr []), (''repo_description'', PStr []),
      (''scraped_at'', PStr (isoformat noon))]"

text \<open>The same record with a name made of one lone surrogate, U+D800.\<close>

definition unpaired_developer :: developer where
  "unpaired_developer =
     [(''rank'', PInt 7), (''name'', PStr [55296]), (''profile_url'', PStr []),
      (''username'', PStr (ustr ''a-very-long-username'')), (''avatar_url'', PStr []),
      (''popular_repo'', PStr []), (''repo_description'', PStr []),
      (''scraped_at'', PStr (isoformat noon))]"

text \<open>A record whose repository description holds a closing tag.\<close>

definition tagged_developer :: developer where
  "tagged_developer =
     [(''rank'', PInt 7), (''name'', PStr (ustr ''Ann'')), (''profile_url'', PStr []),
      (''username'', PStr (ustr ''ann'')), (''avatar_url'', PStr []),
      (''popular_repo'', PStr (ustr ''tags'')), (''repo_description'', PStr (ustr ''a [/b] b'')),
      (''scraped_at'', PStr (isoformat noon))]"

section \<open>Measures used in the proofs\<close>

text \<open>
  The size of a JSON value, which bounds the nesting the reader meets in its text, and
  the texts that may follow a value inside a document.
\<close>

fun weight :: "json \<Rightarrow> nat" where
  "weight (JString s) = 1"
| "weight (JNumber i) = 1"
| "weight (JArray xs) = Suc (sum_list (map weight xs) + length xs)"
| "weight (JObject kvs) = Suc (sum_list (map (\<lambda>kv. weight (snd kv)) kvs) + length kvs)"

definition delimited :: "str \<Rightarrow> bool" where
  "delimited rest \<longleftrightarrow> rest = [] \<or> hd rest = 10 \<or> hd rest = 44"

definition dump_pair :: "nat \<Rightarrow> str \<times> json \<Rightarrow> str" where
  "dump_pair level kv = dump_string (fst kv) @ [58, 32] @ dump level (snd kv)"

section \<open>Properties\<close>

lemma digits_nonempty: "digits n \<noteq> []"
  by (subst digits.simps) simp

subsection \<open>Printing\<close>

lemma and_next_Inr [simp]: "and_next (Inr x, w) f = f x w"
  by (simp add: and_next_def)

lemma and_next_Inl [simp]: "and_next (Inl e, w) f = (Inl e, w)"
  by (simp add: and_next_def)

lemma unprintable_MarkupError [simp]: "unprintable w MarkupError"
  by (simp add: unprintable_def)

lemma refused_oracle:
  "markup_error w' = markup_error w \<Longrightarrow> refused w' = refused w"
  by (rule ext) (simp add: refused_def)

lemma text_of_oracle:
  "exn_text w' = exn_text w \<Longrightarrow> text_of w' = text_of w"
  by (rule ext) (simp add: text_of_def split: exn.splits)

lemma unprintable_oracle:
  "exn_text w' = exn_text w \<Longrightarrow> markup_error w' = markup_error w \<Longrightarrow>
   unprintable w' = unprintable w"
  by (rule ext) (simp add: unprintable_def refused_oracle[of w' w] text_of_oracle[of w' w])

lemma refuses_oracle:
  "exn_text w' = exn_text w \<Longrightarrow> markup_error w' = markup_error w \<Longrightarrow>
   refuses w' m = refuses w m"
  by (cases m) (simp_all add: unprintable_oracle[of w' w] refused_oracle[of w' w])

lemma refused_update [simp]:
  "refused (w\<lparr>console := c\<rparr>) = refused w"
  "refused (w\<lparr>ticks := n\<rparr>) = refused w"
  "refused (w\<lparr>dirs := ds\<rparr>) = refused w"
  "refused (w\<lparr>files := fs\<rparr>) = refused w"
  "refused (w\<lparr>requests_get := g\<rparr>) = refused w"
  "refused (w\<lparr>io_fault := io\<rparr>) = refused w"
  by (rule refused_oracle; simp)+

lemma unprintable_update [simp]:
  "unprintable (w\<lparr>console := c\<rparr>) = unprintable w"
  "unprintable (w\<lparr>ticks := n\<rparr>) = unprintable w"
  "unprintable (w\<lparr>dirs := ds\<rparr>) = unprintable w"
  "unprintable (w\<lparr>files := fs\<rparr>) = unprintable w"
  "unprintable (w\<lparr>requests_get := g\<rparr>) = unprintable w"
  "unprintable (w\<lparr>io_fault := io\<rparr>) = unprintable w"
  by (rule unprintable_oracle; simp)+

lemma refuses_update [simp]:
  "refuses (w\<lparr>console := c\<rparr>) m = refuses w m"
  "refuses (w\<lparr>ticks := n\<rparr>) m = refuses w m"
  "refuses (w\<lparr>dirs := ds\<rparr>) m = refuses w m"
  "refuses (w\<lparr>files := fs\<rparr>) m = refuses w m"
  "refuses (w\<lparr>requests_get := g\<rparr>) m = refuses w m"
  "refuses (w\<lparr>io_fault := io\<rparr>) m = refuses w m"
  by (rule refuses_oracle; simp)+

lemma console_print_accepted:
  "\<not> refuses w m \<Longrightarrow> console_print m w = (Inr (), w\<lparr>console := console w @ [m]\<rparr>)"
  by (simp add: console_print_def)

lemma console_print_refused:
  "refuses w m \<Longrightarrow> console_print m w = (Inl MarkupError, w)"
  by (simp add: console_print_def)

lemma console_print_Inl:
  "console_print m w = (Inl e, w') \<Longrightarrow> e = MarkupError \<and> w' = w \<and> refuses w m"
  by (auto simp: console_print_def split: if_splits)

lemma console_print_Inr:
  "console_print m w = (Inr u, w') \<Longrightarrow> w' = w\<lparr>console := console w @ [m]\<rparr> \<and> \<not> refuses w m"
  by (auto simp: console_print_def split: if_splits)

lemma console_print_fixed [simp]:
  "console_print Banner w = (Inr (), w\<lparr>console := console w @ [Banner]\<rparr>)"
  "console_print Fetching w = (Inr (), w\<lparr>console := console w @ [Fetching]\<rparr>)"
  "console_print (Found n) w = (Inr (), w\<lparr>console := console w @ [Found n]\<rparr>)"
  "console_print NoDevelopersFound w = (Inr (), w\<lparr>console := console w @ [NoDevelopersFound]\<rparr>)"
  "console_print (MoreDevelopers n) w = (Inr (), w\<lparr>console := console w @ [MoreDevelopers n]\<rparr>)"
  "console_print NoDataScraped w = (Inr (), w\<lparr>console := console w @ [NoDataScraped]\<rparr>)"
  "console_print SavingData w = (Inr (), w\<lparr>console := console w @ [SavingData]\<rparr>)"
  "console_print Separator w = (Inr (), w\<lparr>console := console w @ [Separator]\<rparr>)"
  "console_print (Scraped n) w = (Inr (), w\<lparr>console := console w @ [Scraped n]\<rparr>)"
  "console_print SomeFilesFailed w = (Inr (), w\<lparr>console := console w @ [SomeFilesFailed]\<rparr>)"
  "console_print Interrupted w = (Inr (), w\<lparr>console := console w @ [Interrupted]\<rparr>)"
  by (simp_all add: console_print_def)

subsection \<open>Stripping\<close>

lemma rstrip_decomp: "s = rstrip s @ rev (takeWhile isspace (rev s))"
proof -
  have "rev (takeWhile isspace (rev s) @ dropWhile isspace (rev s)) = s" by simp
  then show ?thesis by (simp only: rev_append rstrip_def)
qed

lemma strip_decomp:
  "t = takeWhile isspace t @ strip t @ rev (takeWhile isspace (rev (lstrip t)))"
proof -
  have "t = takeWhile isspace t @ lstrip t" by (simp add: lstrip_def)
  moreover have "lstrip t = strip t @ rev (takeWhile isspace (rev (lstrip t)))"
    unfolding strip_def by (rule rstrip_decomp)
  ultimately show ?thesis by simp
qed

lemma strip_inside:
  "\<exists>pre suf. t = pre @ strip t @ suf \<and> list_all isspace pre \<and> list_all isspace suf"
proof (intro exI conjI)
  show "t = takeWhile isspace t @ strip t @ rev (takeWhile isspace (rev (lstrip t)))"
    by (rule strip_decomp)
  show "list_all isspace (takeWhile isspace t)"
    by (simp add: list_all_iff) (meson set_takeWhileD)
  show "list_all isspace (rev (takeWhile isspace (rev (lstrip t))))"
    by (simp add: list_all_iff) (meson set_takeWhileD)
qed

lemma rstrip_last: "rstrip s \<noteq> [] \<Longrightarrow> \<not> isspace (last (rstrip s))"
  unfolding rstrip_def by (simp add: last_rev hd_dropWhile)

lemma rstrip_hd: "rstrip s \<noteq> [] \<Longrightarrow> hd (rstrip s) = hd s"
  by (metis hd_append2 rstrip_decomp)

lemma strip_edges:
  "strip t = [] \<or> (\<not> isspace (hd (strip t)) \<and> \<not> isspace (last (strip t)))"
proof (cases "strip t = []")
  case True
  then show ?thesis by simp
next
  case False
  then have ne: "rstrip (lstrip t) \<noteq> []" by (simp add: strip_def)
  then have "lstrip t \<noteq> []" by (auto simp: rstrip_def)
  then have "\<not> isspace (hd (lstrip t))" unfolding lstrip_def by (rule hd_dropWhile)
  with ne have "\<not> isspace (hd (strip t))" by (simp add: strip_def rstrip_hd)
  moreover from ne have "\<not> isspace (last (strip t))" by (simp add: strip_def rstrip_last)
  ultimately show ?thesis by simp
qed

lemma strip_Nil: "strip [] = []"
  by (simp add: strip_def lstrip_def rstrip_def)

subsection \<open>The fields of a row\<close>

lemma name_fields_shape:
  assumes "name_fields lib element d0 = Inr d"
  shows "\<exists>n p. d = AList.update ''profile_url'' (PStr p) (AList.update ''name'' (PStr n) d0)
     \<and> (n = [] \<or> (\<exists>nd t. bs_get_text lib nd = Inr t \<and> n = strip t))"
  using assms unfolding name_fields_def and_then_def
  by (auto split: sum.splits option.splits)

lemma username_field_shape:
  assumes "username_field lib element d0 = Inr d"
  shows "\<exists>u. d = AList.update ''username'' (PStr u) d0
     \<and> (u = [] \<or> (\<exists>nd t. bs_get_text lib nd = Inr t \<and> u = strip t))"
  using assms unfolding username_field_def and_then_def
  by (auto split: sum.splits option.splits)

lemma avatar_field_shape:
  assumes "avatar_field lib element d0 = Inr d"
  shows "\<exists>a. d = AList.update ''avatar_url'' (PStr a) d0"
  using assms unfolding avatar_field_def and_then_def
  by (auto split: sum.splits option.splits)

lemma repo_fields_shape:
  assumes "repo_fields lib element d0 = Inr d"
  shows "\<exists>r c. d = AList.update ''repo_description'' (PStr c) (AList.update ''popular_repo'' (PStr r) d0)
     \<and> (r = [] \<or> (\<exists>nd t. bs_get_text lib nd = Inr t \<and> r = strip t))
     \<and> (c = [] \<or> (\<exists>nd t. bs_get_text lib nd = Inr t \<and> c = strip t))"
  using assms unfolding repo_fields_def and_then_def
  by (auto split: sum.splits option.splits)

lemma extract_fields_shape:
  assumes "extract_fields lib i element = Inr d"
  shows "\<exists>n p u a r c.
     d = [(''rank'', PInt (int i + 1)), (''name'', PStr n), (''profile_url'', PStr p),
          (''username'', PStr u), (''avatar_url'', PStr a), (''popular_repo'', PStr r),
          (''repo_description'', PStr c)]
     \<and> (n = [] \<or> (\<exists>nd t. bs_get_text lib nd = Inr t \<and> n = strip t))
     \<and> (u = [] \<or> (\<exists>nd t. bs_get_text lib nd = Inr t \<and> u = strip t))
     \<and> (r = [] \<or> (\<exists>nd t. bs_get_text lib nd = Inr t \<and> r = strip t))
     \<and> (c = [] \<or> (\<exists>nd t. bs_get_text lib nd = Inr t \<and> c = strip t))"
proof -
  from assms obtain d1 d2 d3 where
    1: "name_fields lib element [(''rank'', PInt (int i + 1))] = Inr d1" and
    2: "username_field lib element d1 = Inr d2" and
    3: "avatar_field lib element d2 = Inr d3" and
    4: "repo_fields lib element d3 = Inr d"
    unfolding extract_fields_def and_then_def by (auto split: sum.splits)
  from name_fields_shape[OF 1] obtain n p where
    d1: "d1 = AList.update ''profile_url'' (PStr p)
           (AList.update ''name'' (PStr n) [(''rank'', PInt (int i + 1))])" and
    n: "n = [] \<or> (\<exists>nd t. bs_get_text lib nd = Inr t \<and> n = strip t)" by blast
  from username_field_shape[OF 2] obtain u where
    d2: "d2 = AList.update ''username'' (PStr u) d1" and
    u: "u = [] \<or> (\<exists>nd t. bs_get_text lib nd = Inr t \<and> u = strip t)" by blast
  from avatar_field_shape[OF 3] obtain a where
    d3: "d3 = AList.update ''avatar_url'' (PStr a) d2" by blast
  from repo_fields_shape[OF 4] obtain r c where
    d: "d = AList.update ''repo_description'' (PStr c)
          (AList.update ''popular_repo'' (PStr r) d3)" and
    r: "r = [] \<or> (\<exists>nd t. bs_get_text lib nd = Inr t \<and> r = strip t)" and
    c: "c = [] \<or> (\<exists>nd t. bs_get_text lib nd = Inr t \<and> c = strip t)" by blast
  have "d = [(''rank'', PInt (int i + 1)), (''name'', PStr n), (''profile_url'', PStr p),
          (''username'', PStr u), (''avatar_url'', PStr a), (''popular_repo'', PStr r),
          (''repo_description'', PStr c)]"
    by (simp add: d d3 d2 d1)
  with n u r c show ?thesis by blast
qed

subsection \<open>The row loop\<close>

lemma name_or_username_total:
  assumes "extract_fields lib i element = Inr d"
  shows "\<exists>b. name_or_username d = Inr b"
  using extract_fields_shape[OF assms]
  by (auto simp: name_or_username_def and_then_def getitem_def)

lemma from_row_stamp:
  assumes "extract_fields lib i element = Inr d"
  shows "from_row lib (AList.update ''scraped_at'' (PStr t) d) (i, element)"
  using extract_fields_shape[OF assms] assms
  by (auto simp: from_row_def)

lemma parse_row_result:
  "parse_row lib i element developers w = (r, w') \<Longrightarrow>
     (\<exists>e. r = Inl e \<and> extract_fields lib i element = Inl e \<and> w' = w) \<or>
     (retained lib (i, element) \<and> (\<exists>d. r = Inr (developers @ [d]) \<and> from_row lib d (i, element))) \<or>
     (\<not> retained lib (i, element) \<and> (\<exists>d. extract_fields lib i element = Inr d) \<and> r = Inr developers \<and> w' = w)"
proof (cases "extract_fields lib i element")
  case (Inl e)
  assume "parse_row lib i element developers w = (r, w')"
  with Inl show ?thesis by (simp add: parse_row_def)
next
  case (Inr d)
  assume a: "parse_row lib i element developers w = (r, w')"
  from name_or_username_total[OF Inr] obtain b where b: "name_or_username d = Inr b" ..
  show ?thesis
  proof (cases b)
    case True
    with a Inr b from_row_stamp[OF Inr] show ?thesis
      by (auto simp: parse_row_def retained_def datetime_now_def)
  next
    case False
    with a Inr b show ?thesis
      by (auto simp: parse_row_def retained_def)
  qed
qed

lemma parse_rows_kept:
  "parse_rows lib rows acc w = (Inr out, w') \<Longrightarrow>
     \<exists>new. out = acc @ new \<and> list_all2 (from_row lib) new (filter (retained lib) rows)"
proof (induction rows arbitrary: acc w)
  case Nil
  then show ?case by simp
next
  case (Cons row rows)
  obtain i element where row: "row = (i, element)" by (cases row)
  obtain r w1 where pr: "parse_row lib i element acc w = (r, w1)" by (cases "parse_row lib i element acc w")
  from parse_row_result[OF pr] show ?case
  proof (elim disjE exE conjE)
    fix e assume e: "r = Inl e" "extract_fields lib i element = Inl e" "w1 = w"
    then have nr: "\<not> retained lib (i, element)" by (simp add: retained_def)
    from Cons.prems row pr e have ex: "is_Exception e"
      by (auto split: if_splits)
    with Cons.prems row pr e obtain w2 where
      "parse_rows lib rows acc w2 = (Inr out, w')"
      by (auto split: prod.splits sum.splits)
    from Cons.IH[OF this] nr row show ?thesis by simp
  next
    fix d assume k: "retained lib (i, element)" "r = Inr (acc @ [d])" "from_row lib d (i, element)"
    with Cons.prems row pr have "parse_rows lib rows (acc @ [d]) w1 = (Inr out, w')" by simp
    from Cons.IH[OF this] obtain new where
      "out = (acc @ [d]) @ new" "list_all2 (from_row lib) new (filter (retained lib) rows)" by blast
    with k row show ?thesis by (intro exI[of _ "d # new"]) simp
  next
    fix d assume k: "\<not> retained lib (i, element)" "r = Inr acc" "w1 = w"
    with Cons.prems row pr have "parse_rows lib rows acc w = (Inr out, w')" by simp
    from Cons.IH[OF this] k row show ?thesis by simp
  qed
qed

subsection \<open>From the rows to the records\<close>

lemma parse_rows_Inl:
  "parse_rows lib rows acc w = (Inl e, w') \<Longrightarrow> \<not> is_Exception e \<or> e = MarkupError"
proof (induction rows arbitrary: acc w)
  case Nil
  then show ?case by simp
next
  case (Cons row rows)
  obtain i element where row: "row = (i, element)" by (cases row)
  obtain r w1 where pr: "parse_row lib i element acc w = (r, w1)"
    by (cases "parse_row lib i element acc w")
  show ?case
  proof (cases r)
    case (Inl e1)
    show ?thesis
    proof (cases "is_Exception e1")
      case True
      obtain r2 w2 where cp: "console_print (ErrorParsing (i + 1) e1) w1 = (r2, w2)"
        by (cases "console_print (ErrorParsing (i + 1) e1) w1")
      show ?thesis
      proof (cases r2)
        case (Inl e2)
        with cp have "e2 = MarkupError" by (auto dest: console_print_Inl)
        with Cons.prems row pr \<open>r = Inl e1\<close> True cp Inl show ?thesis by simp
      next
        case (Inr u)
        with Cons.prems row pr \<open>r = Inl e1\<close> True cp
        have "parse_rows lib rows acc w2 = (Inl e, w')" by simp
        then show ?thesis by (rule Cons.IH)
      qed
    next
      case False
      with Cons.prems row pr Inl show ?thesis by simp
    qed
  next
    case (Inr ds)
    with Cons.prems row pr have "parse_rows lib rows ds w1 = (Inl e, w')" by simp
    then show ?thesis by (rule Cons.IH)
  qed
qed

lemma scrape_kept:
  assumes "requests_get w GITHUB_URL = Inr response"
    and "status_code response < 400 \<or> 600 \<le> status_code response"
    and "bs_parse lib (page_text response) = Inr soup"
    and "bs_find_all lib soup ''article'' (Some ''Box-row'') = Inr developer_elements"
    and "scrape_trending_developers lib w = (Inr developers, w')"
  shows "list_all2 (from_row lib) developers
           (filter (retained lib) (enumerate 0 developer_elements))"
proof -
  let ?w0 = "w\<lparr>console := console w @ [Banner]\<rparr>"
  let ?w2 = "w\<lparr>console := console w @ [Banner, Fetching, Found (length developer_elements)]\<rparr>"
  obtain r w3 where pr: "parse_rows lib (enumerate 0 developer_elements) [] ?w2 = (r, w3)"
    by (cases "parse_rows lib (enumerate 0 developer_elements) [] ?w2")
  have fp: "fetch_and_parse lib ?w0 = (r, w3)"
    using assms(1-4) pr
    by (auto simp: fetch_and_parse_def raise_for_status_def)
  have "r = Inr developers"
  proof (cases r)
    case (Inl e)
    with pr have "\<not> is_Exception e \<or> e = MarkupError" by (auto dest: parse_rows_Inl)
    then show ?thesis
    proof
      assume n: "\<not> is_Exception e"
      then have "\<not> is_RequestException e" by (cases e) auto
      with n show ?thesis using assms(5) fp Inl
        by (simp add: scrape_trending_developers_def)
    next
      assume "e = MarkupError"
      then show ?thesis using assms(5) fp Inl
        by (simp add: scrape_trending_developers_def console_print_refused)
    qed
  next
    case (Inr ds)
    with assms(5) fp show ?thesis by (simp add: scrape_trending_developers_def)
  qed
  with pr parse_rows_kept[of lib "enumerate 0 developer_elements" "[]" ?w2 developers w3]
  show ?thesis by simp
qed

lemma from_row_fields:
  assumes "from_row lib d row"
  shows "\<exists>n p u a r c s.
     extract_fields lib (fst row) (snd row) =
       Inr [(''rank'', PInt (int (fst row) + 1)), (''name'', PStr n), (''profile_url'', PStr p),
            (''username'', PStr u), (''avatar_url'', PStr a), (''popular_repo'', PStr r),
            (''repo_description'', PStr c)] \<and>
     d = [(''rank'', PInt (int (fst row) + 1)), (''name'', PStr n), (''profile_url'', PStr p),
          (''username'', PStr u), (''avatar_url'', PStr a), (''popular_repo'', PStr r),
          (''repo_description'', PStr c), (''scraped_at'', PStr s)]"
proof -
  from assms obtain d0 s where
    e: "extract_fields lib (fst row) (snd row) = Inr d0" and
    d: "d = AList.update ''scraped_at'' (PStr s) d0"
    by (auto simp: from_row_def split: sum.splits option.splits pyval.splits)
  from extract_fields_shape[OF e] obtain n p u a r c where
    "d0 = [(''rank'', PInt (int (fst row) + 1)), (''name'', PStr n), (''profile_url'', PStr p),
          (''username'', PStr u), (''avatar_url'', PStr a), (''popular_repo'', PStr r),
          (''repo_description'', PStr c)]" by blast
  with e d show ?thesis by simp
qed

lemma from_row_rank:
  "from_row lib d row \<Longrightarrow> map_of d ''rank'' = Some (PInt (int (fst row) + 1))"
  by (drule from_row_fields) auto

lemma retained_named:
  assumes "from_row lib d row" and "retained lib row"
  shows "\<exists>n u. map_of d ''name'' = Some (PStr n) \<and> map_of d ''username'' = Some (PStr u) \<and>
           (n \<noteq> [] \<or> u \<noteq> [])"
proof -
  from from_row_fields[OF assms(1)] obtain n p u a r c s where
    e: "extract_fields lib (fst row) (snd row) =
       Inr [(''rank'', PInt (int (fst row) + 1)), (''name'', PStr n), (''profile_url'', PStr p),
            (''username'', PStr u), (''avatar_url'', PStr a), (''popular_repo'', PStr r),
            (''repo_description'', PStr c)]" and
    d: "d = [(''rank'', PInt (int (fst row) + 1)), (''name'', PStr n), (''profile_url'', PStr p),
          (''username'', PStr u), (''avatar_url'', PStr a), (''popular_repo'', PStr r),
          (''repo_description'', PStr c), (''scraped_at'', PStr s)]"
    by blast
  from assms(2) e have "n \<noteq> [] \<or> u \<noteq> []"
    by (auto simp: retained_def name_or_username_def and_then_def getitem_def split: if_splits)
  with d show ?thesis by simp
qed

lemma list_all2_map_eq:
  "list_all2 (\<lambda>x y. f x = g y) xs ys \<Longrightarrow> map f xs = map g ys"
  by (induction rule: list_all2_induct) simp_all

lemma list_all2_witness:
  "list_all2 P xs ys \<Longrightarrow> x \<in> set xs \<Longrightarrow> \<exists>y \<in> set ys. P x y"
  by (induction rule: list_all2_induct) auto

lemma enumerate_member:
  "row \<in> set (enumerate 0 xs) \<Longrightarrow> fst row < length xs \<and> snd row = xs ! fst row"
  by (cases row) (auto simp: in_set_enumerate_eq)

lemma enumerate_fst_unique:
  "row \<in> set (enumerate 0 xs) \<Longrightarrow> row' \<in> set (enumerate 0 xs) \<Longrightarrow> fst row = fst row' \<Longrightarrow>
   row = row'"
  by (cases row, cases row') (auto simp: in_set_enumerate_eq)

lemma kept_row_of_rank:
  assumes k: "list_all2 (from_row lib) developers (filter (retained lib) (enumerate 0 xs))"
    and d: "d \<in> set developers"
    and row: "row \<in> set (enumerate 0 xs)"
    and rank: "map_of d ''rank'' = Some (PInt (int (fst row) + 1))"
  shows "retained lib row \<and> from_row lib d row"
proof -
  from list_all2_witness[OF k d] obtain row' where
    r': "row' \<in> set (enumerate 0 xs)" "retained lib row'" "from_row lib d row'" by auto
  from from_row_rank[OF r'(3)] rank have "fst row' = fst row" by simp
  with r'(1) row have "row' = row" by (auto intro: enumerate_fst_unique)
  with r' show ?thesis by simp
qed

lemma parse_row_appended:
  assumes "parse_row lib i element developers w = (Inr (developers @ [d]), w')"
  shows "\<exists>d0 s. extract_fields lib i element = Inr d0 \<and>
           d = AList.update ''scraped_at'' (PStr s) d0"
  using assms
  by (auto simp: parse_row_def datetime_now_def split: sum.splits if_splits)

lemma extract_fields_steps:
  assumes "extract_fields lib i element = Inr d0"
  shows "\<exists>d1 d2 d3.
     name_fields lib element [(''rank'', PInt (int i + 1))] = Inr d1 \<and>
     username_field lib element d1 = Inr d2 \<and>
     avatar_field lib element d2 = Inr d3 \<and>
     repo_fields lib element d3 = Inr d0"
  using assms unfolding extract_fields_def and_then_def by (auto split: sum.splits)

lemma name_kept:
  assumes "extract_fields lib i element = Inr d0"
    and "name_fields lib element [(''rank'', PInt (int i + 1))] = Inr d1"
  shows "map_of (AList.update ''scraped_at'' (PStr s) d0) ''name'' = map_of d1 ''name'' \<and>
         map_of (AList.update ''scraped_at'' (PStr s) d0) ''profile_url'' = map_of d1 ''profile_url''"
proof -
  from extract_fields_steps[OF assms(1)] assms(2) obtain d2 d3 where
    2: "username_field lib element d1 = Inr d2" and
    3: "avatar_field lib element d2 = Inr d3" and
    4: "repo_fields lib element d3 = Inr d0" by auto
  from username_field_shape[OF 2] avatar_field_shape[OF 3] repo_fields_shape[OF 4]
  show ?thesis by (auto simp: update_conv')
qed

lemma avatar_kept:
  assumes "extract_fields lib i element = Inr d0"
  shows "\<exists>d2 d3. avatar_field lib element d2 = Inr d3 \<and>
     map_of (AList.update ''scraped_at'' (PStr s) d0) ''avatar_url'' = map_of d3 ''avatar_url''"
proof -
  from extract_fields_steps[OF assms(1)] obtain d1 d2 d3 where
    3: "avatar_field lib element d2 = Inr d3" and
    4: "repo_fields lib element d3 = Inr d0" by auto
  from repo_fields_shape[OF 4] have
    "map_of (AList.update ''scraped_at'' (PStr s) d0) ''avatar_url'' = map_of d3 ''avatar_url''"
    by (auto simp: update_conv')
  with 3 show ?thesis by blast
qed

subsection \<open>Writing and reading JSON text\<close>

lemma digits_isdigit: "c \<in> set (digits n) \<Longrightarrow> isdigit c"
proof (induction n arbitrary: c rule: digits.induct)
  case (1 n)
  show ?case
  proof (cases "n < 10")
    case True
    with "1.prems" show ?thesis by (subst (asm) digits.simps) (simp add: isdigit_def)
  next
    case False
    with "1.prems" have "c \<in> set (digits (n div 10)) \<or> c = 48 + n mod 10"
      by (subst (asm) digits.simps) auto
    then show ?thesis
    proof
      assume "c \<in> set (digits (n div 10))"
      with False show ?thesis by (simp add: "1.IH")
    next
      assume "c = 48 + n mod 10"
      moreover have "n mod 10 < 10" by simp
      ultimately show ?thesis by (simp add: isdigit_def)
    qed
  qed
qed

lemma nat_of_digits_snoc: "nat_of_digits (ds @ [c]) = 10 * nat_of_digits ds + (c - 48)"
  by (simp add: nat_of_digits_def)

lemma nat_of_digits_digits: "nat_of_digits (digits n) = n"
proof (induction n rule: digits.induct)
  case (1 n)
  show ?case
  proof (cases "n < 10")
    case True
    then show ?thesis by (subst digits.simps) (simp add: nat_of_digits_def)
  next
    case False
    then have "nat_of_digits (digits n) = 10 * nat_of_digits (digits (n div 10)) + n mod 10"
      by (subst digits.simps) (simp add: nat_of_digits_snoc)
    with False "1.IH" show ?thesis by simp
  qed
qed

lemma digits_hd: "0 < n \<Longrightarrow> hd (digits n) \<noteq> 48"
proof (induction n rule: digits.induct)
  case (1 n)
  show ?case
  proof (cases "n < 10")
    case True
    with "1.prems" show ?thesis by (subst digits.simps) simp
  next
    case False
    then have "hd (digits n) = hd (digits (n div 10))"
      by (subst digits.simps) (simp add: digits_nonempty)
    moreover from False have "0 < n div 10" by simp
    ultimately show ?thesis using False "1.IH" by simp
  qed
qed

lemma digits_zero: "digits 0 = [48]"
  by (subst digits.simps) simp

lemma delimited_not_digit: "delimited rest \<Longrightarrow> rest = [] \<or> \<not> isdigit (hd rest)"
  by (auto simp: delimited_def isdigit_def)

lemma delimited_not_float: "delimited rest \<Longrightarrow> \<not> float_follows rest"
  by (cases rest) (auto simp: delimited_def float_follows_def)

lemma int_part_digits:
  assumes "delimited rest"
  shows "int_part (digits n @ rest) = digits n"
proof (cases "n = 0")
  case True
  then show ?thesis by (simp add: int_part_def digits_zero)
next
  case False
  then have h: "hd (digits n) \<noteq> 48" by (simp add: digits_hd)
  obtain d ds where d: "digits n = d # ds" using digits_nonempty[of n] by (cases "digits n") auto
  with h have "take 1 (digits n @ rest) \<noteq> [48]" by simp
  moreover have "takeWhile isdigit (digits n @ rest) = digits n"
    using delimited_not_digit[OF assms]
    by (cases rest) (auto simp: takeWhile_append2 digits_isdigit takeWhile_eq_all_conv)
  ultimately show ?thesis by (simp add: int_part_def)
qed

lemma scan_number_natural:
  assumes "delimited rest"
  shows "scan_number (digits n @ rest) = Some (JNumber (int n), rest)"
proof -
  obtain d ds where d: "digits n = d # ds" using digits_nonempty[of n] by (cases "digits n") auto
  have "isdigit d" using digits_isdigit[of d n] d by simp
  then have "d \<noteq> 45" by (auto simp: isdigit_def)
  with d have n: "take 1 (digits n @ rest) \<noteq> [45]" by simp
  show ?thesis
    using n int_part_digits[OF assms, of n] delimited_not_float[OF assms] digits_nonempty[of n]
    by (simp add: scan_number_def Let_def nat_of_digits_digits)
qed

lemma scan_number_int:
  assumes "delimited rest"
  shows "scan_number (str_of_int i @ rest) = Some (JNumber i, rest)"
proof (cases "i < 0")
  case True
  then have "scan_number (str_of_int i @ rest) = Some (JNumber (- int (nat (- i))), rest)"
    using int_part_digits[OF assms, of "nat (- i)"] delimited_not_float[OF assms]
      digits_nonempty[of "nat (- i)"]
    by (simp add: str_of_int_def scan_number_def Let_def nat_of_digits_digits)
  with True show ?thesis by simp
next
  case False
  with scan_number_natural[OF assms, of "nat i"] show ?thesis by (simp add: str_of_int_def)
qed

lemma hexval_hexchar: "d < 16 \<Longrightarrow> hexval (hexchar d) = Some d"
  by (auto simp: hexval_def hexchar_def)

lemma hex4_control:
  assumes "c < 32"
  shows "hex4 [48, 48, hexchar (c div 16), hexchar (c mod 16)] = Some c"
proof -
  have a: "c div 16 < 16" using assms by simp
  have b: "c mod 16 < 16" by simp
  have z: "hexval 48 = Some 0" by (simp add: hexval_def)
  have "c div 16 * 16 + c mod 16 = c" by simp
  then show ?thesis
    by (simp add: hex4_def hexval_hexchar[OF a] hexval_hexchar[OF b] z)
qed

lemma scanstring_escape: "scanstring (escape c @ follow) = cons_result c (scanstring follow)"
proof -
  consider "c = 34" | "c = 92" | "c = 10" | "c = 13" | "c = 9" | "c = 12" | "c = 8"
    | "c < 32" "c \<noteq> 10" "c \<noteq> 13" "c \<noteq> 9" "c \<noteq> 12" "c \<noteq> 8"
    | "32 \<le> c" "c \<noteq> 34" "c \<noteq> 92"
    by linarith
  then show ?thesis
  proof cases
    case 8
    then have e: "escape c = [92, 117, 48, 48, hexchar (c div 16), hexchar (c mod 16)]"
      by (simp add: escape_def)
    from 8 have "scan_escape (117 # 48 # 48 # hexchar (c div 16) # hexchar (c mod 16) # follow) =
        Some (c, follow)"
      by (simp add: scan_escape_def hex4_control)
    then show ?thesis by (simp add: e)
  next
    case 9
    then show ?thesis by (simp add: escape_def)
  qed (simp_all add: escape_def scan_escape_def unescape_def)
qed

lemma scanstring_dump: "scanstring (concat (map escape s) @ 34 # rest) = Some (s, rest)"
  by (induction s) (simp_all add: scanstring_escape cons_result_def)

lemma skip_ws_indent:
  "x = [] \<or> \<not> whitespace (hd x) \<Longrightarrow> skip_ws (newline_indent level @ x) = x"
  by (cases x) (auto simp: skip_ws_def newline_indent_def whitespace_def dropWhile_append3)

lemma str_of_int_head:
  "str_of_int i \<noteq> [] \<and> (hd (str_of_int i) = 45 \<or> isdigit (hd (str_of_int i)))"
proof (cases "i < 0")
  case True
  then show ?thesis by (simp add: str_of_int_def)
next
  case False
  obtain d ds where d: "digits (nat i) = d # ds"
    using digits_nonempty[of "nat i"] by (cases "digits (nat i)") auto
  then have "isdigit d" using digits_isdigit[of d "nat i"] by simp
  with False d show ?thesis by (simp add: str_of_int_def)
qed

lemma dump_head: "dump level j \<noteq> [] \<and> \<not> whitespace (hd (dump level j))"
proof (cases j)
  case (JNumber i)
  with str_of_int_head[of i] show ?thesis by (auto simp: whitespace_def isdigit_def)
qed (simp_all add: dump_string_def whitespace_def)

lemma skip_ws_dump: "skip_ws (dump level j @ rest) = dump level j @ rest"
  using dump_head[of level j] by (cases "dump level j") (simp_all add: skip_ws_def)

lemma skip_ws_fixed: "skip_ws s = s \<Longrightarrow> s = [] \<or> \<not> whitespace (hd s)"
proof (cases s)
  case (Cons a list)
  assume fixed: "skip_ws s = s"
  show ?thesis
  proof (cases "whitespace a")
    case True
    with Cons fixed have "dropWhile whitespace list = a # list" by (simp add: skip_ws_def)
    moreover have "length (dropWhile whitespace list) \<le> length list"
      by (rule length_dropWhile_le)
    ultimately show ?thesis by simp
  next
    case False
    with Cons show ?thesis by simp
  qed
qed simp

lemma join_cons: "ys \<noteq> [] \<Longrightarrow> join sep (y # ys) = y @ sep @ join sep ys"
  by (cases ys) simp_all

lemma join_dump_head:
  "xs \<noteq> [] \<Longrightarrow>
   skip_ws (join sep (map (dump level) xs) @ rest) = join sep (map (dump level) xs) @ rest"
proof (cases xs)
  case Nil
  then show "xs \<noteq> [] \<Longrightarrow> ?thesis" by simp
next
  case (Cons x ys)
  show ?thesis
  proof (cases ys)
    case Nil
    with Cons show ?thesis by (simp add: skip_ws_dump)
  next
    case (Cons y zs)
    with \<open>xs = x # ys\<close> skip_ws_dump[of level x] show ?thesis by simp
  qed
qed

lemma parse_items_join:
  assumes vals: "\<And>x f level rest. x \<in> set xs \<Longrightarrow> weight x \<le> f \<Longrightarrow> delimited rest \<Longrightarrow>
      parse_value f (dump level x @ rest) = Some (x, rest)"
    and "xs \<noteq> []"
    and "sum_list (map weight xs) + length xs \<le> f"
  shows "parse_items f (join (44 # newline_indent l) (map (dump l) xs) @
           newline_indent l0 @ 93 # rest) = Some (xs, rest)"
  using assms(2,1,3)
proof (induction xs arbitrary: f rule: list_nonempty_induct)
  case (single x)
  then obtain f' where f: "f = Suc f'" "weight x \<le> f'" by (cases f) auto
  have d: "delimited (newline_indent l0 @ 93 # rest)"
    by (simp add: delimited_def newline_indent_def)
  have "parse_value f' (dump l x @ newline_indent l0 @ 93 # rest) =
          Some (x, newline_indent l0 @ 93 # rest)"
    using single.prems(1)[of x f'] f d by simp
  moreover have "skip_ws (newline_indent l0 @ 93 # rest) = 93 # rest"
    by (rule skip_ws_indent) (simp add: whitespace_def)
  ultimately show ?case by (simp add: f)
next
  case (cons x xs)
  then obtain f' where f: "f = Suc f'" "weight x \<le> f'"
    "sum_list (map weight xs) + length xs \<le> f'" by (cases f) auto
  let ?tail = "join (44 # newline_indent l) (map (dump l) xs) @ newline_indent l0 @ 93 # rest"
  have j: "join (44 # newline_indent l) (map (dump l) (x # xs)) @ newline_indent l0 @ 93 # rest =
      dump l x @ 44 # newline_indent l @ ?tail"
    using cons.hyps by (simp add: join_cons)
  have d: "delimited (44 # newline_indent l @ ?tail)" by (simp add: delimited_def)
  have v: "parse_value f' (dump l x @ 44 # newline_indent l @ ?tail) =
      Some (x, 44 # newline_indent l @ ?tail)"
    using cons.prems(1)[of x f'] f d by simp
  have s1: "skip_ws (44 # newline_indent l @ ?tail) = 44 # newline_indent l @ ?tail"
    by (simp add: skip_ws_def whitespace_def)
  have "skip_ws ?tail = ?tail" using cons.hyps by (rule join_dump_head)
  then have "?tail = [] \<or> \<not> whitespace (hd ?tail)" by (rule skip_ws_fixed)
  then have s2: "skip_ws (newline_indent l @ ?tail) = ?tail" by (rule skip_ws_indent)
  have ih: "parse_items f' ?tail = Some (xs, rest)"
    using cons.prems(1) f(3) by (intro cons.IH) auto
  show ?case
    unfolding j f(1) by (simp add: v s1 s2 ih del: append_assoc)
qed

lemma dump_pair_tail:
  "dump_pair level kv = 34 # concat (map escape (fst kv)) @ 34 # 58 # 32 # dump level (snd kv)"
  by (simp add: dump_pair_def dump_string_def)

lemma join_pairs_head:
  "kvs \<noteq> [] \<Longrightarrow> \<exists>t. join sep (map (dump_pair level) kvs) = 34 # t"
proof (cases kvs)
  case Nil
  then show "kvs \<noteq> [] \<Longrightarrow> ?thesis" by simp
next
  case (Cons kv ys)
  then show ?thesis by (cases ys) (simp_all add: dump_pair_tail)
qed

lemma parse_pairs_join:
  assumes vals: "\<And>kv f level rest. kv \<in> set kvs \<Longrightarrow> weight (snd kv) \<le> f \<Longrightarrow>
      delimited rest \<Longrightarrow> parse_value f (dump level (snd kv) @ rest) = Some (snd kv, rest)"
    and "kvs \<noteq> []"
    and "sum_list (map (\<lambda>kv. weight (snd kv)) kvs) + length kvs \<le> f"
  shows "parse_pairs f (drop 1 (join (44 # newline_indent l) (map (dump_pair l) kvs) @
           newline_indent l0 @ 125 # rest)) = Some (kvs, rest)"
  using assms(2,1,3)
proof (induction kvs arbitrary: f rule: list_nonempty_induct)
  case (single kv)
  then obtain f' where f: "f = Suc f'" "weight (snd kv) \<le> f'" by (cases f) auto
  have d: "delimited (newline_indent l0 @ 125 # rest)"
    by (simp add: delimited_def newline_indent_def)
  have v: "parse_value f' (dump l (snd kv) @ newline_indent l0 @ 125 # rest) =
          Some (snd kv, newline_indent l0 @ 125 # rest)"
    using single.prems(1)[of kv f'] f d by simp
  have s: "skip_ws (newline_indent l0 @ 125 # rest) = 125 # rest"
    by (rule skip_ws_indent) (simp add: whitespace_def)
  have k: "scanstring (concat (map escape (fst kv)) @
             34 # 58 # 32 # dump l (snd kv) @ newline_indent l0 @ 125 # rest) =
           Some (fst kv, 58 # 32 # dump l (snd kv) @ newline_indent l0 @ 125 # rest)"
    by (rule scanstring_dump)
  have w: "skip_ws (58 # 32 # dump l (snd kv) @ newline_indent l0 @ 125 # rest) =
      58 # 32 # dump l (snd kv) @ newline_indent l0 @ 125 # rest"
    by (simp add: skip_ws_def whitespace_def)
  have w2: "skip_ws (32 # dump l (snd kv) @ newline_indent l0 @ 125 # rest) =
      dump l (snd kv) @ newline_indent l0 @ 125 # rest"
    using skip_ws_dump[of l "snd kv" "newline_indent l0 @ 125 # rest"]
    by (simp add: skip_ws_def whitespace_def)
  show ?case
    by (simp add: f(1) dump_pair_tail k w w2 v s)
next
  case (cons kv kvs)
  then obtain f' where f: "f = Suc f'" "weight (snd kv) \<le> f'"
    "sum_list (map (\<lambda>kv. weight (snd kv)) kvs) + length kvs \<le> f'" by (cases f) auto
  define tail where "tail = join (44 # newline_indent l) (map (dump_pair l) kvs) @
                 newline_indent l0 @ 125 # rest"
  define follow where "follow = 44 # newline_indent l @ tail"
  obtain t where t: "join (44 # newline_indent l) (map (dump_pair l) kvs) = 34 # t"
    using join_pairs_head[OF cons.hyps] by blast
  have j: "drop 1 (join (44 # newline_indent l) (map (dump_pair l) (kv # kvs)) @
             newline_indent l0 @ 125 # rest) =
      concat (map escape (fst kv)) @ 34 # 58 # 32 # dump l (snd kv) @ follow"
    using cons.hyps by (simp add: join_cons dump_pair_tail follow_def tail_def)
  have d: "delimited follow" by (simp add: delimited_def follow_def)
  have v: "parse_value f' (dump l (snd kv) @ follow) = Some (snd kv, follow)"
    using cons.prems(1)[of kv f'] f d by simp
  have k: "scanstring (concat (map escape (fst kv)) @ 34 # 58 # 32 # dump l (snd kv) @ follow) =
           Some (fst kv, 58 # 32 # dump l (snd kv) @ follow)"
    by (rule scanstring_dump)
  have w: "skip_ws (58 # 32 # dump l (snd kv) @ follow) = 58 # 32 # dump l (snd kv) @ follow"
    by (simp add: skip_ws_def whitespace_def)
  have w2: "skip_ws (32 # dump l (snd kv) @ follow) = dump l (snd kv) @ follow"
    using skip_ws_dump[of l "snd kv" follow] by (simp add: skip_ws_def whitespace_def)
  have s1: "skip_ws follow = follow" by (simp add: skip_ws_def whitespace_def follow_def)
  have m1: "take 1 follow = [44]" "drop 1 follow = newline_indent l @ tail"
    by (simp_all add: follow_def)
  have "tail = [] \<or> \<not> whitespace (hd tail)" by (simp add: t whitespace_def tail_def)
  then have s2: "skip_ws (newline_indent l @ tail) = tail" by (rule skip_ws_indent)
  have h: "take 1 tail = [34]" by (simp add: t tail_def)
  have ih: "parse_pairs f' (drop 1 tail) = Some (kvs, rest)"
    unfolding tail_def using cons.prems(1) f(3) by (intro cons.IH) auto
  have "parse_pairs (Suc f')
          (concat (map escape (fst kv)) @ 34 # 58 # 32 # dump l (snd kv) @ follow) =
        Some (kv # kvs, rest)"
    using h ih m1 by (simp add: k w w2 v s1 s2 Let_def)
  then show ?case unfolding j f(1) .
qed

lemma dump_object:
  "dump level (JObject kvs) =
     (if kvs = [] then [123, 125]
      else [123] @ newline_indent (Suc level) @
           join (44 # newline_indent (Suc level)) (map (dump_pair (Suc level)) kvs) @
           newline_indent level @ [125])"
proof -
  have "(\<lambda>kv. dump_string (fst kv) @ [58, 32] @ dump (Suc level) (snd kv)) =
        dump_pair (Suc level)"
    by (rule ext) (simp add: dump_pair_def)
  then show ?thesis by simp
qed

lemma dump_first:
  "\<exists>c t. dump level j = c # t \<and> \<not> whitespace c \<and> c \<noteq> 93"
proof (cases j)
  case (JNumber i)
  obtain c cs where c: "str_of_int i = c # cs" "c = 45 \<or> isdigit c"
    using str_of_int_head[of i] by (cases "str_of_int i") auto
  with JNumber show ?thesis by (auto simp: whitespace_def isdigit_def)
qed (simp_all add: dump_string_def whitespace_def)

lemma join_dump_first:
  assumes "xs \<noteq> []"
  shows "\<exists>c t. join sep (map (dump level) xs) = c # t \<and> \<not> whitespace c \<and> c \<noteq> 93"
proof (cases xs)
  case Nil
  with assms show ?thesis by simp
next
  case (Cons x ys)
  obtain c t where c: "dump level x = c # t" "\<not> whitespace c" "c \<noteq> 93"
    using dump_first[of level x] by blast
  with Cons show ?thesis by (cases ys) simp_all
qed

lemma parse_value_dump:
  "weight j \<le> f \<Longrightarrow> delimited rest \<Longrightarrow> parse_value f (dump level j @ rest) = Some (j, rest)"
proof (induction j arbitrary: f level rest)
  case (JString s)
  then obtain f' where f: "f = Suc f'" by (cases f) auto
  show ?case by (simp add: f dump_string_def scanstring_dump)
next
  case (JNumber i)
  then obtain f' where f: "f = Suc f'" by (cases f) auto
  obtain c cs where c: "str_of_int i = c # cs" "c = 45 \<or> isdigit c"
    using str_of_int_head[of i] by (cases "str_of_int i") auto
  then have "c \<noteq> 34 \<and> c \<noteq> 123 \<and> c \<noteq> 91" by (auto simp: isdigit_def)
  then have "parse_value (Suc f') (str_of_int i @ rest) = scan_number (str_of_int i @ rest)"
    by (simp add: c)
  with JNumber.prems(2) show ?case by (simp add: f scan_number_int)
next
  case (JArray xs)
  then obtain f' where f: "f = Suc f'" "sum_list (map weight xs) + length xs \<le> f'"
    by (cases f) auto
  show ?case
  proof (cases "xs = []")
    case True
    then show ?thesis by (simp add: f skip_ws_def whitespace_def)
  next
    case False
    define body where "body = join (44 # newline_indent (Suc level)) (map (dump (Suc level)) xs) @
                   newline_indent level @ 93 # rest"
    have items: "parse_items f' body = Some (xs, rest)"
      unfolding body_def using JArray.IH False f(2) by (intro parse_items_join) auto
    obtain c t where c: "body = c # t" "\<not> whitespace c" "c \<noteq> 93"
      using join_dump_first[OF False, of "44 # newline_indent (Suc level)" "Suc level"]
      by (auto simp: body_def)
    then have "body = [] \<or> \<not> whitespace (hd body)" by simp
    then have s: "skip_ws (newline_indent (Suc level) @ body) = body" by (rule skip_ws_indent)
    have "parse_value (Suc f') (91 # newline_indent (Suc level) @ body) = Some (JArray xs, rest)"
      using c(3) items by (simp add: s Let_def) (simp add: c(1))
    then show ?thesis using False by (simp add: f(1) body_def)
  qed
next
  case (JObject kvs)
  then obtain f' where f: "f = Suc f'"
    "sum_list (map (\<lambda>kv. weight (snd kv)) kvs) + length kvs \<le> f'"
    by (cases f) auto
  show ?case
  proof (cases "kvs = []")
    case True
    then show ?thesis by (simp add: f skip_ws_def whitespace_def)
  next
    case False
    define body where "body = join (44 # newline_indent (Suc level))
        (map (dump_pair (Suc level)) kvs) @ newline_indent level @ 125 # rest"
    have vals: "parse_value f (dump level (snd kv) @ rest) = Some (snd kv, rest)"
      if "kv \<in> set kvs" "weight (snd kv) \<le> f" "delimited rest" for kv f level rest
    proof -
      have "snd kv \<in> Basic_BNFs.snds kv" by (cases kv) simp
      with that show ?thesis by (intro JObject.IH[of kv "snd kv"]) auto
    qed
    have pairs: "parse_pairs f' (drop 1 body) = Some (kvs, rest)"
      unfolding body_def using vals False f(2) by (intro parse_pairs_join) auto
    obtain t where t: "body = 34 # t"
      using join_pairs_head[OF False, of "44 # newline_indent (Suc level)" "Suc level"]
      by (auto simp: body_def)
    then have "body = [] \<or> \<not> whitespace (hd body)" by (simp add: whitespace_def)
    then have s: "skip_ws (newline_indent (Suc level) @ body) = body" by (rule skip_ws_indent)
    have "parse_value (Suc f') (123 # newline_indent (Suc level) @ body) = Some (JObject kvs, rest)"
      using pairs by (simp add: s Let_def) (simp add: t)
    then show ?thesis using False by (simp add: f(1) body_def dump_object del: dump.simps)
  qed
qed

lemma join_length:
  assumes "\<And>x. x \<in> set xs \<Longrightarrow> w x \<le> length (g x)" and "xs \<noteq> []"
  shows "sum_list (map w xs) + length xs \<le> Suc (length (join (c # sep) (map g xs)))"
  using assms(2,1)
proof (induction xs rule: list_nonempty_induct)
  case (single x)
  then show ?case by simp
next
  case (cons x xs)
  have "w x \<le> length (g x)" using cons.prems by simp
  moreover have "sum_list (map w xs) + length xs \<le> Suc (length (join (c # sep) (map g xs)))"
    using cons.prems by (intro cons.IH) simp
  ultimately show ?case using cons.hyps by (simp add: join_cons)
qed

lemma weight_le_length: "weight j \<le> length (dump level j)"
proof (induction j arbitrary: level)
  case (JString s)
  show ?case by (simp add: dump_string_def)
next
  case (JNumber i)
  show ?case using str_of_int_head[of i] by (cases "str_of_int i") simp_all
next
  case (JArray xs)
  show ?case
  proof (cases "xs = []")
    case True
    then show ?thesis by simp
  next
    case False
    have "sum_list (map weight xs) + length xs \<le>
        Suc (length (join (44 # newline_indent (Suc level)) (map (dump (Suc level)) xs)))"
      using JArray.IH False by (intro join_length) auto
    then show ?thesis using False by simp
  qed
next
  case (JObject kvs)
  show ?case
  proof (cases "kvs = []")
    case True
    then show ?thesis by simp
  next
    case False
    have "weight (snd kv) \<le> length (dump_pair (Suc level) kv)" if "kv \<in> set kvs" for kv
    proof -
      have "snd kv \<in> Basic_BNFs.snds kv" by (cases kv) simp
      then have "weight (snd kv) \<le> length (dump (Suc level) (snd kv))"
        using that by (intro JObject.IH[of kv "snd kv"]) auto
      then show ?thesis by (simp add: dump_pair_def)
    qed
    then have "sum_list (map (\<lambda>kv. weight (snd kv)) kvs) + length kvs \<le>
        Suc (length (join (44 # newline_indent (Suc level)) (map (dump_pair (Suc level)) kvs)))"
      using False by (intro join_length) auto
    then show ?thesis using False by (simp add: dump_object del: dump.simps)
  qed
qed

lemma loads_dump: "loads (dump 0 j) = Some j"
proof -
  have "parse_value (length (dump 0 j)) (dump 0 j @ []) = Some (j, [])"
    by (rule parse_value_dump) (simp_all add: weight_le_length delimited_def)
  moreover have "skip_ws (dump 0 j) = dump 0 j" using skip_ws_dump[of 0 j "[]"] by simp
  ultimately show ?thesis by (simp add: loads_def skip_ws_def)
qed

subsection \<open>Texts that UTF-8 encodes\<close>

lemma encodable_Nil [simp]: "encodable []"
  by (simp add: encodable_def)

lemma encodable_Cons [simp]: "encodable (c # s) \<longleftrightarrow> \<not> surrogate c \<and> encodable s"
  by (simp add: encodable_def)

lemma encodable_append [simp]: "encodable (a @ b) \<longleftrightarrow> encodable a \<and> encodable b"
  by (simp add: encodable_def)

lemma encodable_small: "\<forall>c \<in> set s. c < 55296 \<Longrightarrow> encodable s"
  by (fastforce simp: encodable_def surrogate_def list_all_iff)

lemma of_char_small: "(of_char c :: nat) < 256"
proof -
  have "(of_char c :: nat) mod 256 < 256" by simp
  then show ?thesis by (simp only: of_char_mod_256)
qed

lemma encodable_ustr [simp]: "encodable (ustr s)"
proof (rule encodable_small, rule ballI)
  fix c assume "c \<in> set (ustr s)"
  then obtain x where "c = of_char x" by (auto simp: ustr_def)
  moreover have "(of_char x :: nat) < 55296"
    by (rule less_trans[OF of_char_small]) simp
  ultimately show "c < 55296" by simp
qed

lemma encodable_digits [simp]: "encodable (digits n)"
proof (rule encodable_small, rule ballI)
  fix c assume "c \<in> set (digits n)"
  then have "isdigit c" by (rule digits_isdigit)
  then show "c < 55296" by (simp add: isdigit_def)
qed

lemma encodable_str_of_int [simp]: "encodable (str_of_int i)"
  by (simp add: str_of_int_def surrogate_def)

lemma encodable_replicate [simp]: "encodable (replicate k c) \<longleftrightarrow> k = 0 \<or> \<not> surrogate c"
  by (induction k) auto

lemma encodable_zfill [simp]: "encodable (zfill k (digits n))"
  by (simp add: zfill_def surrogate_def)

lemma encodable_isoformat [simp]: "encodable (isoformat t)"
  by (simp add: isoformat_def)

lemma encodable_escape: "encodable (escape c) \<longleftrightarrow> \<not> surrogate c"
proof -
  have "c mod 16 < 16" "c div 16 \<le> c" by simp_all
  then show ?thesis by (auto simp: escape_def hexchar_def surrogate_def)
qed

lemma encodable_escapes: "encodable (concat (map escape s)) \<longleftrightarrow> encodable s"
  by (induction s) (simp_all add: encodable_escape)

lemma encodable_dump_string: "encodable (dump_string s) \<longleftrightarrow> encodable s"
  by (simp add: dump_string_def encodable_escapes surrogate_def)

lemma encodable_newline_indent [simp]: "encodable (newline_indent level)"
  by (simp add: newline_indent_def surrogate_def)

lemma encodable_join:
  "encodable sep \<Longrightarrow> encodable (join sep xs) \<longleftrightarrow> list_all encodable xs"
  by (induction sep xs rule: join.induct) auto

lemma encodable_pyval: "encodable (dump level (json_of_pyval v)) \<longleftrightarrow> encodable (str_of v)"
  by (cases v) (simp_all add: encodable_dump_string)

lemma encodable_developer:
  "encodable (dump level (json_of_developer d)) \<longleftrightarrow> encodable_record d"
proof -
  have pair: "encodable (dump_pair l (case kv of (k, v) \<Rightarrow> (ustr k, json_of_pyval v))) \<longleftrightarrow>
      encodable (str_of (snd kv))" for l kv
    by (cases kv) (simp add: dump_pair_def encodable_dump_string encodable_pyval surrogate_def)
  have "list_all encodable (map (dump_pair l) (map (\<lambda>(k, v). (ustr k, json_of_pyval v)) d)) \<longleftrightarrow>
      encodable_record d" for l
    by (simp add: encodable_record_def list_all_iff pair)
  then show ?thesis
    by (simp add: json_of_developer_def dump_object encodable_join surrogate_def
        encodable_record_def del: dump.simps)
qed

lemma dump_scalar:
  "dump level (JString s) = dump_string s"
  "dump level (JNumber i) = str_of_int i"
  by simp_all

lemma encodable_envelope:
  "encodable (dump 0 (envelope (isoformat t) ds)) \<longleftrightarrow> list_all encodable_record ds"
proof -
  have "list_all encodable (map (dump 2) (map json_of_developer ds)) \<longleftrightarrow>
      list_all encodable_record ds"
    by (simp add: list_all_iff encodable_developer)
  then have "encodable (dump 1 (JArray (map json_of_developer ds))) \<longleftrightarrow>
      list_all encodable_record ds"
    by (auto simp: encodable_join surrogate_def numeral_2_eq_2)
  then show ?thesis
    unfolding envelope_def dump_object
    by (simp add: dump_pair_def encodable_dump_string surrogate_def encodable_join)
qed

subsection \<open>The writers\<close>

lemma header_encodable: "list_all encodable (map ustr fieldnames)"
  by (simp add: list_all_iff)

lemma writerow_written:
  "list_all encodable row \<Longrightarrow> io_fault w (Write path) = None \<Longrightarrow>
   writerow path row w =
     (Inr (), w\<lparr>files := (files w)(path \<mapsto> Csv (rows_of w path @ [row]))\<rparr>)"
  by (simp add: writerow_def)

lemma writerow_Inl: "writerow path row w = (Inl e, w') \<Longrightarrow> is_Exception e \<and> w' = w"
  by (auto simp: writerow_def split: option.splits if_splits)

lemma writerows_written:
  "io_fault w (Write path) = None \<Longrightarrow> list_all writable_row ds \<Longrightarrow>
   files w path = Some (Csv rows) \<Longrightarrow>
   writerows path ds w = (Inr (), w\<lparr>files := (files w)(path \<mapsto> Csv (rows @ map cells ds))\<rparr>)"
proof (induction ds arbitrary: w rows)
  case Nil
  then have "(files w)(path \<mapsto> Csv rows) = files w" by (simp add: map_upd_triv)
  then show ?case by simp
next
  case (Cons d ds)
  from Cons.prems(2) obtain row where
    row: "dict_to_list d = Inr row" "list_all encodable row" "cells d = row"
    by (auto simp: writable_row_def cells_def split: sum.splits)
  let ?w = "w\<lparr>files := (files w)(path \<mapsto> Csv (rows @ [row]))\<rparr>"
  have one: "writerow path row w = (Inr (), ?w)"
    using row(2) Cons.prems(1,3) by (simp add: writerow_written rows_of_def)
  have "writerows path ds ?w =
      (Inr (), ?w\<lparr>files := (files ?w)(path \<mapsto> Csv ((rows @ [row]) @ map cells ds))\<rparr>)"
    using Cons.prems by (intro Cons.IH) simp_all
  then have step: "writerows path ds ?w =
      (Inr (), w\<lparr>files := (files w)(path \<mapsto> Csv (rows @ map cells (d # ds)))\<rparr>)"
    using row(3) by simp
  show ?case unfolding writerows.simps row(1) sum.case one prod.case step ..
qed

lemma writerows_Inl:
  "writerows path ds w = (Inl e, w') \<Longrightarrow> is_Exception e \<and> console w' = console w"
proof (induction ds arbitrary: w)
  case Nil
  then show ?case by simp
next
  case (Cons d ds)
  show ?case
  proof (cases "dict_to_list d")
    case (Inl e1)
    with Cons.prems show ?thesis by (auto simp: dict_to_list_def split: if_splits)
  next
    case (Inr row)
    obtain r w1 where one: "writerow path row w = (r, w1)" by (cases "writerow path row w")
    show ?thesis
    proof (cases r)
      case (Inl e1)
      with Cons.prems Inr one show ?thesis by (auto dest: writerow_Inl)
    next
      case (Inr u)
      with one have "console w1 = console w"
        by (auto simp: writerow_def split: option.splits if_splits)
      moreover from Cons.prems \<open>dict_to_list d = Inr row\<close> one Inr
      have "writerows path ds w1 = (Inl e, w')" by simp
      ultimately show ?thesis using Cons.IH by fastforce
    qed
  qed
qed

lemma writerows_refused:
  "\<not> list_all writable_row ds \<Longrightarrow> io_fault w (Write path) = None \<Longrightarrow>
   \<exists>e w'. writerows path ds w = (Inl e, w')"
proof (induction ds arbitrary: w)
  case Nil
  then show ?case by simp
next
  case (Cons d ds)
  show ?case
  proof (cases "dict_to_list d")
    case (Inl e)
    then show ?thesis by simp
  next
    case (Inr row)
    show ?thesis
    proof (cases "list_all encodable row")
      case False
      with Inr show ?thesis by (simp add: writerow_def)
    next
      case True
      let ?w = "w\<lparr>files := (files w)(path \<mapsto> Csv (rows_of w path @ [row]))\<rparr>"
      from True Inr have "writable_row d" by (simp add: writable_row_def)
      with Cons.prems(1) have "\<not> list_all writable_row ds" by simp
      moreover have "io_fault ?w (Write path) = None" using Cons.prems(2) by simp
      ultimately obtain e w' where "writerows path ds ?w = (Inl e, w')"
        using Cons.IH by blast
      with True Inr Cons.prems(2) show ?thesis by (simp add: writerow_written)
    qed
  qed
qed

lemma write_csv_Inl:
  assumes "write_csv developers filename w = (Inl e, w')"
  shows "is_Exception e \<and> console w' = console w"
proof (cases "io_fault w (Open filename)")
  case (Some n)
  with assms show ?thesis by (auto simp: write_csv_def open_w_def)
next
  case None
  let ?w1 = "w\<lparr>files := (files w)(filename \<mapsto> Empty)\<rparr>"
  have o: "open_w filename w = (Inr (), ?w1)" using None by (simp add: open_w_def)
  obtain r w2 where h: "writeheader filename ?w1 = (r, w2)"
    by (cases "writeheader filename ?w1")
  show ?thesis
  proof (cases r)
    case (Inl e1)
    with h have e1: "is_Exception e1" and w2: "w2 = ?w1"
      by (auto simp: writeheader_def dest: writerow_Inl)
    from assms o h Inl have "e = e1" and "w' = w2" by (simp_all add: write_csv_def)
    with e1 w2 show ?thesis by simp
  next
    case (Inr u)
    with h have c: "console w2 = console w"
      by (auto simp: writeheader_def writerow_def split: if_splits option.splits)
    from assms o h Inr have "writerows filename developers w2 = (Inl e, w')"
      by (simp add: write_csv_def)
    from writerows_Inl[OF this] c show ?thesis by simp
  qed
qed

lemma write_csv_written:
  assumes "io_fault w (Open filename) = None" and "io_fault w (Write filename) = None"
    and "list_all writable_row developers"
  shows "write_csv developers filename w =
     (Inr (), w\<lparr>files := (files w)(filename \<mapsto>
        Csv (map ustr fieldnames # map cells developers))\<rparr>)"
proof -
  let ?w1 = "w\<lparr>files := (files w)(filename \<mapsto> Empty)\<rparr>"
  let ?w2 = "w\<lparr>files := (files w)(filename \<mapsto> Csv [map ustr fieldnames])\<rparr>"
  have o: "open_w filename w = (Inr (), ?w1)" using assms(1) by (simp add: open_w_def)
  have h: "writeheader filename ?w1 = (Inr (), ?w2)"
    using assms(2) header_encodable by (simp add: writeheader_def writerow_written rows_of_def)
  have "writerows filename developers ?w2 =
      (Inr (), ?w2\<lparr>files := (files ?w2)(filename \<mapsto>
         Csv ([map ustr fieldnames] @ map cells developers))\<rparr>)"
    using assms(2,3) by (intro writerows_written) simp_all
  then show ?thesis by (simp add: write_csv_def o h)
qed

lemma write_csv_refused:
  assumes "io_fault w (Open filename) \<noteq> None \<or> io_fault w (Write filename) \<noteq> None \<or>
           \<not> list_all writable_row developers"
  shows "\<exists>e w'. write_csv developers filename w = (Inl e, w')"
proof (cases "io_fault w (Open filename)")
  case (Some errno)
  then show ?thesis by (simp add: write_csv_def open_w_def)
next
  case None
  let ?w1 = "w\<lparr>files := (files w)(filename \<mapsto> Empty)\<rparr>"
  have o: "open_w filename w = (Inr (), ?w1)" using None by (simp add: open_w_def)
  show ?thesis
  proof (cases "io_fault w (Write filename)")
    case (Some errno)
    then show ?thesis using header_encodable by (simp add: write_csv_def o writeheader_def writerow_def)
  next
    case None
    let ?w2 = "?w1\<lparr>files := (files ?w1)(filename \<mapsto> Csv (rows_of ?w1 filename @ [map ustr fieldnames]))\<rparr>"
    have h: "writeheader filename ?w1 = (Inr (), ?w2)"
      using None header_encodable by (simp add: writeheader_def writerow_written)
    from assms \<open>io_fault w (Open filename) = None\<close> None
    have "\<not> list_all writable_row developers" by simp
    moreover have "io_fault ?w2 (Write filename) = None" using None by simp
    ultimately obtain e w' where "writerows filename developers ?w2 = (Inl e, w')"
      using writerows_refused by blast
    then show ?thesis by (simp add: write_csv_def o h)
  qed
qed

lemma save_to_csv_result:
  "fst (save_to_csv developers filename w) =
     Inr (developers \<noteq> [] \<and> io_fault w (Open filename) = None \<and>
          io_fault w (Write filename) = None \<and> list_all writable_row developers)"
proof (cases "developers \<noteq> [] \<and> io_fault w (Open filename) = None \<and>
          io_fault w (Write filename) = None \<and> list_all writable_row developers")
  case True
  then show ?thesis by (simp add: save_to_csv_def write_csv_written)
next
  case False
  show ?thesis
  proof (cases "developers = []")
    case True
    then show ?thesis by (simp add: save_to_csv_def)
  next
    case ne: False
    with False have "io_fault w (Open filename) \<noteq> None \<or> io_fault w (Write filename) \<noteq> None \<or>
           \<not> list_all writable_row developers" by auto
    from write_csv_refused[OF this] obtain e w' where
      r: "write_csv developers filename w = (Inl e, w')" by blast
    then have "is_Exception e" by (auto dest: write_csv_Inl)
    with r ne False show ?thesis by (simp add: save_to_csv_def)
  qed
qed

lemma save_to_csv_written:
  "developers \<noteq> [] \<Longrightarrow> io_fault w (Open filename) = None \<Longrightarrow>
   io_fault w (Write filename) = None \<Longrightarrow> list_all writable_row developers \<Longrightarrow>
   save_to_csv developers filename w =
     (Inr True, w\<lparr>files := (files w)(filename \<mapsto>
        Csv (map ustr fieldnames # map cells developers))\<rparr>)"
  by (simp add: save_to_csv_def write_csv_written)

lemma save_to_csv_locked:
  "developers \<noteq> [] \<Longrightarrow> io_fault w (Open filename) = Some n \<Longrightarrow>
   save_to_csv developers filename w = (Inr False, builtin_print (ErrorSavingCSV (OSError n)) w)"
  by (simp add: save_to_csv_def write_csv_def open_w_def)

lemma save_to_csv_full:
  "developers \<noteq> [] \<Longrightarrow> io_fault w (Open filename) = None \<Longrightarrow>
   io_fault w (Write filename) = Some n \<Longrightarrow>
   save_to_csv developers filename w =
     (Inr False, builtin_print (ErrorSavingCSV (OSError n))
        (w\<lparr>files := (files w)(filename \<mapsto> Empty)\<rparr>))"
  using header_encodable
  by (simp add: save_to_csv_def write_csv_def open_w_def writeheader_def writerow_def)

lemma write_json_result:
  "write_json data filename w =
     (case io_fault w (Open filename) of
        Some n \<Rightarrow> (Inl (OSError n), w)
      | None \<Rightarrow>
          if \<not> encodable (dump 0 data)
          then (Inl UnicodeEncodeError, w\<lparr>files := (files w)(filename \<mapsto> Partial)\<rparr>)
          else
            (case io_fault w (Write filename) of
               Some n \<Rightarrow> (Inl (OSError n), w\<lparr>files := (files w)(filename \<mapsto> Partial)\<rparr>)
             | None \<Rightarrow> (Inr (), w\<lparr>files := (files w)(filename \<mapsto> Text (dump 0 data))\<rparr>)))"
  by (simp add: write_json_def open_w_def write_file_def split: option.splits)

lemma save_to_json_result:
  "fst (save_to_json developers filename w) =
     Inr (developers \<noteq> [] \<and> io_fault w (Open filename) = None \<and>
          io_fault w (Write filename) = None \<and> list_all encodable_record developers)"
  by (simp add: save_to_json_def datetime_now_def write_json_result encodable_envelope
      split: option.splits)

lemma save_to_json_written:
  "developers \<noteq> [] \<Longrightarrow> io_fault w (Open filename) = None \<Longrightarrow>
   io_fault w (Write filename) = None \<Longrightarrow> list_all encodable_record developers \<Longrightarrow>
   save_to_json developers filename w =
     (Inr True, w\<lparr>ticks := Suc (ticks w), files := (files w)(filename \<mapsto>
        Text (dump 0 (envelope (isoformat (clock w (ticks w))) developers)))\<rparr>)"
  by (simp add: save_to_json_def datetime_now_def write_json_result encodable_envelope)

lemma save_to_json_unencodable:
  "developers \<noteq> [] \<Longrightarrow> io_fault w (Open filename) = None \<Longrightarrow>
   \<not> list_all encodable_record developers \<Longrightarrow>
   save_to_json developers filename w =
     (Inr False, builtin_print (ErrorSavingJSON UnicodeEncodeError)
        (w\<lparr>ticks := Suc (ticks w), files := (files w)(filename \<mapsto> Partial)\<rparr>))"
  by (simp add: save_to_json_def datetime_now_def write_json_result encodable_envelope)

lemma save_to_json_full:
  "developers \<noteq> [] \<Longrightarrow> io_fault w (Open filename) = None \<Longrightarrow>
   io_fault w (Write filename) = Some n \<Longrightarrow> list_all encodable_record developers \<Longrightarrow>
   save_to_json developers filename w =
     (Inr False, builtin_print (ErrorSavingJSON (OSError n))
        (w\<lparr>ticks := Suc (ticks w), files := (files w)(filename \<mapsto> Partial)\<rparr>))"
  by (simp add: save_to_json_def datetime_now_def write_json_result encodable_envelope)

lemma save_to_json_locked:
  "developers \<noteq> [] \<Longrightarrow> io_fault w (Open filename) = Some n \<Longrightarrow>
   save_to_json developers filename w =
     (Inr False, builtin_print (ErrorSavingJSON (OSError n)) (w\<lparr>ticks := Suc (ticks w)\<rparr>))"
  by (simp add: save_to_json_def datetime_now_def write_json_result)

subsection \<open>Reading a document back\<close>

lemma pyval_roundtrip: "pyval_of_json (json_of_pyval v) = Some v"
  by (cases v) simp_all

lemma key_of_ustr: "key_of (ustr k) = Some k"
proof -
  have "list_all (\<lambda>c. c < 256) (ustr k)"
    by (simp add: ustr_def list_all_iff of_char_small)
  moreover have "map char_of (ustr k) = k"
    by (induction k) (simp_all add: ustr_def)
  ultimately show ?thesis by (simp add: key_of_def)
qed

lemma update_fresh: "k \<notin> fst ` set d \<Longrightarrow> AList.update k v d = d @ [(k, v)]"
  by (induction d) auto

lemma items_roundtrip:
  "distinct (map fst (acc @ d)) \<Longrightarrow>
   items_of_json (map (\<lambda>(k, v). (ustr k, json_of_pyval v)) d) acc = Some (acc @ d)"
proof (induction d arbitrary: acc)
  case Nil
  then show ?case by simp
next
  case (Cons kv d)
  obtain k v where kv: "kv = (k, v)" by (cases kv)
  from Cons.prems kv have fresh: "k \<notin> fst ` set acc" by auto
  from Cons.prems kv have "distinct (map fst ((acc @ [(k, v)]) @ d))" by simp
  from Cons.IH[OF this] show ?case
    by (simp add: kv key_of_ustr pyval_roundtrip update_fresh[OF fresh])
qed

lemma developer_roundtrip:
  "distinct (map fst d) \<Longrightarrow> developer_of_json (json_of_developer d) = Some d"
  using items_roundtrip[of "[]" d] by (simp add: json_of_developer_def)

lemma developers_roundtrip:
  "\<forall>d \<in> set ds. distinct (map fst d) \<Longrightarrow>
   developers_of_array (map json_of_developer ds) = Some ds"
  by (induction ds) (simp_all add: developer_roundtrip)

lemma envelope_keys:
  "lookup_key (envelope stamp ds) ''scraped_at'' = Some (JString stamp)"
  "lookup_key (envelope stamp ds) ''total_developers'' = Some (JNumber (int (length ds)))"
  "lookup_key (envelope stamp ds) ''developers'' = Some (JArray (map json_of_developer ds))"
  by (simp_all add: envelope_def ustr_def)

lemma read_developers_dump:
  "\<forall>d \<in> set ds. distinct (map fst d) \<Longrightarrow>
   read_developers (dump 0 (envelope stamp ds)) = Some ds"
  by (simp add: read_developers_def loads_dump envelope_keys developers_roundtrip)

lemma read_total_dump: "read_total (dump 0 (envelope stamp ds)) = Some (int (length ds))"
  by (simp add: read_total_def loads_dump envelope_keys)

subsection \<open>Paths and sample evaluations\<close>

lemma csv_path_suffix: "drop (length (csv_path t) - 4) (csv_path t) = ustr ''.csv''"
  by (simp add: csv_path_def path_join_def OUTPUT_DIR_def ustr_def)

lemma json_path_suffix: "drop (length (json_path t) - 4) (json_path t) = ustr ''json''"
  by (simp add: json_path_def path_join_def OUTPUT_DIR_def ustr_def)

lemma csv_json_distinct: "csv_path t \<noteq> json_path t"
proof
  assume "csv_path t = json_path t"
  then have "drop (length (csv_path t) - 4) (csv_path t) =
             drop (length (json_path t) - 4) (json_path t)" by simp
  then show False by (simp add: csv_path_suffix json_path_suffix ustr_def)
qed

lemma zfill_digits: "c \<in> set (zfill k (digits n)) \<Longrightarrow> isdigit c"
  by (auto simp: zfill_def isdigit_def dest: digits_isdigit)

lemma strftime_chars: "c \<in> set (strftime t) \<Longrightarrow> isdigit c \<or> c = 95"
  by (auto simp: strftime_def ustr_def dest: zfill_digits)

lemma path_bracket_free:
  "91 \<notin> set (csv_path (strftime t))" "91 \<notin> set (json_path (strftime t))"
  using strftime_chars[of 91 t]
  by (auto simp: csv_path_def json_path_def path_join_def OUTPUT_DIR_def ustr_def isdigit_def)

lemma path_printed [simp]:
  "console_print (CSVSaved (csv_path (strftime t))) w =
     (Inr (), w\<lparr>console := console w @ [CSVSaved (csv_path (strftime t))]\<rparr>)"
  "console_print (JSONSaved (json_path (strftime t))) w =
     (Inr (), w\<lparr>console := console w @ [JSONSaved (json_path (strftime t))]\<rparr>)"
  by (simp_all add: console_print_def refused_def path_bracket_free)

lemma table_row_verbose:
  "table_row verbose_developer =
     Inr [ustr ''7'', ustr ''a-very-long-userna...'', ustr ''Ann'', [], []]"
  by (simp add: table_row_def and_then_def getitem_def verbose_developer_def ustr_def
      str_of_int_def digits.simps)

lemma display_verbose:
  "display_results [verbose_developer] w =
     (Inr (), w\<lparr>console := console w @
        [PrintTable table_columns [[ustr ''7'', ustr ''a-very-long-userna...'', ustr ''Ann'', [], []]]]\<rparr>)"
  by (simp add: display_results_def table_row_verbose and_then_def console_print_def
      refused_def ustr_def)

lemma table_row_tagged:
  "table_row tagged_developer =
     Inr [ustr ''7'', ustr ''ann'', ustr ''Ann'', ustr ''tags'', ustr ''a [/b] b'']"
  by (simp add: table_row_def and_then_def getitem_def tagged_developer_def ustr_def
      str_of_int_def digits.simps)

lemma display_tagged:
  "display_results [tagged_developer] online_world = (Inl MarkupError, online_world)"
  by (simp add: display_results_def table_row_tagged and_then_def console_print_def
      refused_def ustr_def online_world_def)

lemma dump_sample:
  "dump 0 (JObject [(ustr ''a'', JArray [JNumber 1, JString (ustr ''x'')])]) =
     [123, 10, 32, 32, 34, 97, 34, 58, 32, 91, 10, 32, 32, 32, 32, 49, 44, 10, 32, 32, 32, 32,
      34, 120, 34, 10, 32, 32, 93, 10, 125]"
  by (simp add: dump_string_def escape_def newline_indent_def str_of_int_def digits.simps
      ustr_def numeral_2_eq_2)

lemma loads_sample:
  "loads [123, 34, 97, 34, 58, 91, 49, 44, 32, 34, 92, 117, 48, 48, 101, 57, 34, 93, 125] =
     Some (JObject [(ustr ''a'', JArray [JNumber 1, JString [233]])])"
  by (simp add: loads_def skip_ws_def whitespace_def scan_escape_def hex4_def hexval_def
      cons_result_def scan_number_def int_part_def isdigit_def float_follows_def
      nat_of_digits_def ustr_def Let_def)

lemma verbose_writable:
  "writable_row verbose_developer" "encodable_record verbose_developer"
  "distinct (map fst verbose_developer)"
  by (simp_all add: writable_row_def encodable_record_def dict_to_list_def verbose_developer_def
      fieldnames_def surrogate_def)

lemma cells_verbose:
  "cells verbose_developer =
     [ustr ''7'', ustr ''a-very-long-username'', ustr ''Ann'', [], [], [], [], isoformat noon]"
  by (simp add: cells_def dict_to_list_def verbose_developer_def fieldnames_def
      str_of_int_def digits.simps ustr_def)

lemma unpaired_unwritable:
  "\<not> writable_row unpaired_developer" "\<not> encodable_record unpaired_developer"
  by (simp_all add: writable_row_def encodable_record_def dict_to_list_def unpaired_developer_def
      fieldnames_def surrogate_def)

lemma online_unprintable:
  "unprintable online_world e \<longleftrightarrow>
     e = MarkupError \<or> (\<exists>c m. e = HTTPError c m \<and> 91 \<in> set m \<and> has_closing_tag m)"
  by (cases e) (simp_all add: unprintable_def refused_def text_of_def online_world_def)

subsection \<open>The sample listing\<close>

lemmas field_defs = extract_fields_def name_fields_def username_field_def avatar_field_def
  repo_fields_def and_then_def format_value_def strip_def lstrip_def rstrip_def isspace_def
  ustr_def

lemma find_rows [simp]:
  "bs_find_all (tree_library p) sample_page ''article'' (Some ''Box-row'') =
     Inr [row_alice, row_blank, row_bob]"
  by (simp add: tree_library_def sample_page_def row_alice_def link_alice_def heading_alice_def avatar_alice_def row_blank_def row_bob_def heading_bob_def)

lemma find_rows_brittle [simp]:
  "bs_find_all (brittle_library p) sample_page ''article'' (Some ''Box-row'') =
     Inr [row_alice, row_blank, row_bob]"
  by (simp add: brittle_library_def tree_library_def sample_page_def row_alice_def link_alice_def heading_alice_def avatar_alice_def
      row_blank_def row_bob_def heading_bob_def)

lemma extract_alice [simp]: "extract_fields (tree_library p) i row_alice = Inr (fields_alice i)"
  by (simp add: field_defs tree_library_def row_alice_def link_alice_def heading_alice_def avatar_alice_def fields_alice_def)

lemma extract_blank [simp]: "extract_fields (tree_library p) i row_blank = Inr (fields_blank i)"
  by (simp add: field_defs tree_library_def row_blank_def fields_blank_def)

lemma extract_bob [simp]: "extract_fields (tree_library p) i row_bob = Inr (fields_bob i)"
  by (simp add: field_defs tree_library_def row_bob_def heading_bob_def fields_bob_def)

lemma extract_carol [simp]: "extract_fields (tree_library p) i row_carol = Inr (fields_carol i)"
  by (simp add: field_defs tree_library_def row_carol_def fields_carol_def)

lemma extract_alice_brittle [simp]:
  "extract_fields (brittle_library p) i row_alice = Inl TypeError"
  by (simp add: field_defs brittle_library_def tree_library_def row_alice_def link_alice_def heading_alice_def avatar_alice_def)

lemma extract_blank_brittle [simp]:
  "extract_fields (brittle_library p) i row_blank = Inr (fields_blank i)"
  by (simp add: field_defs brittle_library_def tree_library_def row_blank_def fields_blank_def)

lemma extract_bob_brittle [simp]:
  "extract_fields (brittle_library p) i row_bob = Inr (fields_bob i)"
  by (simp add: field_defs brittle_library_def tree_library_def row_bob_def heading_bob_def fields_bob_def)

lemma keep_alice [simp]: "name_or_username (fields_alice i) = Inr True"
  by (simp add: name_or_username_def and_then_def getitem_def fields_alice_def ustr_def)

lemma keep_blank [simp]: "name_or_username (fields_blank i) = Inr False"
  by (simp add: name_or_username_def and_then_def getitem_def fields_blank_def)

lemma keep_bob [simp]: "name_or_username (fields_bob i) = Inr True"
  by (simp add: name_or_username_def and_then_def getitem_def fields_bob_def ustr_def)

lemma keep_carol [simp]: "name_or_username (fields_carol i) = Inr True"
  by (simp add: name_or_username_def and_then_def getitem_def fields_carol_def ustr_def)

lemma stamp_alice [simp]:
  "AList.update ''scraped_at'' (PStr (isoformat (noon\<lparr>second := k\<rparr>))) (fields_alice i) =
     stamped k (fields_alice i)"
  by (simp add: fields_alice_def stamped_def)

lemma stamp_bob [simp]:
  "AList.update ''scraped_at'' (PStr (isoformat (noon\<lparr>second := k\<rparr>))) (fields_bob i) =
     stamped k (fields_bob i)"
  by (simp add: fields_bob_def stamped_def)

lemma stamp_carol [simp]:
  "AList.update ''scraped_at'' (PStr (isoformat (noon\<lparr>second := k\<rparr>))) (fields_carol i) =
     stamped k (fields_carol i)"
  by (simp add: fields_carol_def stamped_def)

lemma online_facts:
  "requests_get online_world GITHUB_URL = Inr sample_response"
  "clock online_world = (\<lambda>n. noon\<lparr>second := n\<rparr>)"
  "ticks online_world = 0"
  "console online_world = []"
  by (simp_all add: online_world_def)

lemma sample_response_facts:
  "status_code sample_response = 200" "page_text sample_response = ustr ''<html>''"
  by (simp_all add: sample_response_def)

lemma scrape_sample:
  "scrape_trending_developers (tree_library sample_page) online_world =
     (Inr sample_developers,
      online_world\<lparr>ticks := 2, console := [Banner, Fetching, Found 3]\<rparr>)"
proof -
  have p: "bs_parse (tree_library sample_page) (ustr ''<html>'') = Inr sample_page"
    by (simp add: tree_library_def)
  show ?thesis
    by (simp add: scrape_trending_developers_def fetch_and_parse_def raise_for_status_def
        online_facts sample_response_facts p enumerate_simps parse_row_def datetime_now_def
        sample_developers_def numeral_2_eq_2)
qed

lemma scrape_brittle:
  "scrape_trending_developers (brittle_library sample_page) online_world =
     (Inr [stamped 0 (fields_bob 2)],
      online_world\<lparr>ticks := 1,
        console := [Banner, Fetching, Found 3, ErrorParsing 1 TypeError]\<rparr>)"
proof -
  have p: "bs_parse (brittle_library sample_page) (ustr ''<html>'') = Inr sample_page"
    by (simp add: brittle_library_def tree_library_def)
  show ?thesis
    by (simp add: scrape_trending_developers_def fetch_and_parse_def raise_for_status_def
        online_facts sample_response_facts p enumerate_simps parse_row_def datetime_now_def
        console_print_accepted online_unprintable numeral_2_eq_2)
qed

lemma parse_sample:
  "bs_parse (tree_library sample_page) (ustr ''<html>'') = Inr sample_page"
  "bs_parse (brittle_library sample_page) (ustr ''<html>'') = Inr sample_page"
  by (simp_all add: brittle_library_def tree_library_def)

lemma retained_sample:
  "filter (retained (tree_library sample_page)) (enumerate 0 [row_alice, row_blank, row_bob]) =
     [(0, row_alice), (2, row_bob)]"
  by (simp add: enumerate_simps retained_def numeral_2_eq_2)

lemma retained_brittle:
  "filter (retained (brittle_library sample_page)) (enumerate 0 [row_alice, row_blank, row_bob]) =
     [(2, row_bob)]"
  by (simp add: enumerate_simps retained_def numeral_2_eq_2)

lemma parse_row_sample:
  "parse_row (tree_library p) i row_alice [] online_world =
     (Inr ([] @ [stamped 0 (fields_alice i)]), online_world\<lparr>ticks := 1\<rparr>)"
  "parse_row (tree_library p) i row_bob [] online_world =
     (Inr ([] @ [stamped 0 (fields_bob i)]), online_world\<lparr>ticks := 1\<rparr>)"
  "parse_row (tree_library p) i row_carol [] online_world =
     (Inr ([] @ [stamped 0 (fields_carol i)]), online_world\<lparr>ticks := 1\<rparr>)"
  by (simp_all add: parse_row_def datetime_now_def online_facts)

lemma find_in_sample:
  "bs_find (tree_library p) row_alice ''h1'' (Some ''h3'') = Inr (Some heading_alice)"
  "bs_find (tree_library p) heading_alice ''a'' None = Inr (Some link_alice)"
  "bs_get_text (tree_library p) link_alice = Inr (ustr ''  Alice  Liddell '')"
  "bs_get (tree_library p) link_alice ''href'' = Inr (Some (ustr ''/alice''))"
  "bs_find (tree_library p) row_alice ''img'' (Some ''avatar-user'') = Inr (Some avatar_alice)"
  "bs_get (tree_library p) avatar_alice ''src'' = Inr (Some (ustr '' https://avatars.example/u/1 ''))"
  "bs_find (tree_library p) row_bob ''h1'' (Some ''h3'') = Inr (Some heading_bob)"
  "bs_find (tree_library p) heading_bob ''a'' None = Inr None"
  "bs_get_text (tree_library p) heading_bob = Inr (ustr ''Bob'')"
  "bs_find (tree_library p) row_carol ''h1'' (Some ''h3'') = Inr None"
  by (simp_all add: tree_library_def row_alice_def heading_alice_def link_alice_def
      avatar_alice_def row_bob_def heading_bob_def row_carol_def)

lemma strip_sample:
  "strip (ustr ''  Alice  Liddell '') = ustr ''Alice  Liddell''"
  "strip (ustr ''Bob'') = ustr ''Bob''"
  by (simp_all add: strip_def lstrip_def rstrip_def isspace_def ustr_def)

section \<open>Claims\<close>

text \<open>
  Claim C1, as the code has it: a field of the preview table longer than its column
  budget \<open>b\<close> (username 18, name 23, popular repo 23, description 28) is rendered as its
  first \<open>b\<close> characters followed by the three-character ellipsis, \<open>b + 3\<close> characters in
  all; a field of at most \<open>b\<close> characters is rendered unmodified.
\<close>

theorem table_row_truncation:
  assumes "map_of dev ''rank'' = Some rank"
    and "map_of dev ''username'' = Some (PStr username)"
    and "map_of dev ''name'' = Some (PStr name)"
    and "map_of dev ''popular_repo'' = Some (PStr popular_repo)"
    and "map_of dev ''repo_description'' = Some (PStr repo_description)"
  shows "\<exists>u n p d. table_row dev = Inr [str_of rank, u, n, p, d] \<and>
     (if 18 < length username
      then length u = 18 + 3 \<and> take 18 u = take 18 username \<and> drop 18 u = ustr ''...''
      else u = username) \<and>
     (if 23 < length name
      then length n = 23 + 3 \<and> take 23 n = take 23 name \<and> drop 23 n = ustr ''...''
      else n = name) \<and>
     (if 23 < length popular_repo
      then length p = 23 + 3 \<and> take 23 p = take 23 popular_repo \<and> drop 23 p = ustr ''...''
      else p = popular_repo) \<and>
     (if 28 < length repo_description
      then length d = 28 + 3 \<and> take 28 d = take 28 repo_description \<and> drop 28 d = ustr ''...''
      else d = repo_description)"
proof -
  have clip: "\<And>b s. b < length s \<Longrightarrow>
      length (take b s @ ustr ''...'') = b + 3 \<and> take b (take b s @ ustr ''...'') = take b s \<and>
      drop b (take b s @ ustr ''...'') = ustr ''...''"
    by (simp add: ustr_def min_def)
  have row: "table_row dev =
      Inr [str_of rank,
           if length username > 18 then take 18 username @ ustr ''...'' else username,
           if length name > 23 then take 23 name @ ustr ''...'' else name,
           if length popular_repo > 23 then take 23 popular_repo @ ustr ''...'' else popular_repo,
           if length repo_description > 28 then take 28 repo_description @ ustr ''...''
           else repo_description]"
    using assms by (simp add: table_row_def and_then_def getitem_def)
  show ?thesis
    unfolding row using clip[of 18 username] clip[of 23 name] clip[of 23 popular_repo]
      clip[of 28 repo_description]
    by (intro exI conjI) (rule refl, simp_all)
qed

theorem table_row_truncation_witness:
  "map_of verbose_developer ''rank'' = Some (PInt 7) \<and>
   map_of verbose_developer ''username'' = Some (PStr (ustr ''a-very-long-username'')) \<and>
   map_of verbose_developer ''name'' = Some (PStr (ustr ''Ann'')) \<and>
   map_of verbose_developer ''popular_repo'' = Some (PStr []) \<and>
   map_of verbose_developer ''repo_description'' = Some (PStr []) \<and>
   table_row verbose_developer =
     Inr [str_of (PInt 7), ustr ''a-very-long-userna...'', ustr ''Ann'', [], []]"
proof -
  have h: "map_of verbose_developer ''rank'' = Some (PInt 7)"
    "map_of verbose_developer ''username'' = Some (PStr (ustr ''a-very-long-username''))"
    "map_of verbose_developer ''name'' = Some (PStr (ustr ''Ann''))"
    "map_of verbose_developer ''popular_repo'' = Some (PStr [])"
    "map_of verbose_developer ''repo_description'' = Some (PStr [])"
    by (simp_all add: verbose_developer_def)
  from table_row_truncation[OF h] obtain u n p d where
    row: "table_row verbose_developer = Inr [str_of (PInt 7), u, n, p, d]" and
    u: "if 18 < length (ustr ''a-very-long-username'')
        then length u = 18 + 3 \<and> take 18 u = take 18 (ustr ''a-very-long-username'') \<and>
             drop 18 u = ustr ''...''
        else u = ustr ''a-very-long-username''" and
    n: "if 23 < length (ustr ''Ann'')
        then length n = 23 + 3 \<and> take 23 n = take 23 (ustr ''Ann'') \<and> drop 23 n = ustr ''...''
        else n = ustr ''Ann''" and
    p: "if 23 < length ([]::str)
        then length p = 23 + 3 \<and> take 23 p = take 23 [] \<and> drop 23 p = ustr ''...''
        else p = []" and
    d: "if 28 < length ([]::str)
        then length d = 28 + 3 \<and> take 28 d = take 28 [] \<and> drop 28 d = ustr ''...''
        else d = []"
    by blast
  from u have "take 18 u @ drop 18 u = ustr ''a-very-long-userna...''"
    by (simp add: ustr_def)
  then have "u = ustr ''a-very-long-userna...''" by simp
  moreover from n have "n = ustr ''Ann''" by (simp add: ustr_def)
  moreover from p have "p = []" by simp
  moreover from d have "d = []" by simp
  ultimately show ?thesis using row h by simp
qed

text \<open>
  The claim as stated (a long field renders as exactly \<open>b\<close> characters) fails: a
  username of 20 characters is rendered with 21 characters, not 18.
\<close>

theorem table_row_truncation_counterexample:
  "table_row verbose_developer =
     Inr [ustr ''7'', ustr ''a-very-long-userna...'', ustr ''Ann'', [], []] \<and>
   length (ustr ''a-very-long-username'') = 20 \<and>
   length (ustr ''a-very-long-userna...'') = 21"
  by (simp add: table_row_def and_then_def getitem_def verbose_developer_def ustr_def
      str_of_int_def digits.simps)

text \<open>
  Claim C4: given the empty record sequence, the tabular writer and the structured
  writer both return \<open>False\<close> at once and leave the world, its files included, as it
  was.
\<close>

theorem empty_input_no_write:
  "save_to_csv [] filename w = (Inr False, w) \<and> save_to_json [] filename w = (Inr False, w)"
  by (simp add: save_to_csv_def save_to_json_def)

theorem empty_input_no_write_witness:
  "save_to_csv [] (ustr ''out.csv'') online_world = (Inr False, online_world) \<and>
   save_to_json [] (ustr ''out.json'') online_world = (Inr False, online_world) \<and>
   files online_world (ustr ''out.csv'') = None \<and>
   files online_world (ustr ''out.json'') = None"
  using empty_input_no_write[of "ustr ''out.csv''" online_world]
    empty_input_no_write[of "ustr ''out.json''" online_world]
  by (simp add: online_world_def)

text \<open>
  Claim C5: whatever the records, the path and the faults of the file system, each
  writer returns a boolean and raises nothing, and the boolean says whether the file was
  written: the tabular writer returns \<open>True\<close> exactly when there are records, the path can
  be opened and written, and every record has only field names for keys and cells that
  UTF-8 can encode; the structured writer returns \<open>True\<close> exactly when there are
  records, the path can be opened and written, and UTF-8 can encode every value. Any
  failure of \<open>open\<close> or of a write, an \<open>OSError\<close>, a \<open>ValueError\<close> of the row conversion
  or a \<open>UnicodeEncodeError\<close>, is answered with \<open>False\<close>. In the orchestrator the
  structured writer runs on the world the tabular writer left, whatever that one
  returned, and the report runs after both.
\<close>

theorem writers_never_raise:
  "fst (save_to_csv developers filename w) =
     Inr (developers \<noteq> [] \<and> io_fault w (Open filename) = None \<and>
          io_fault w (Write filename) = None \<and> list_all writable_row developers) \<and>
   fst (save_to_json developers filename w) =
     Inr (developers \<noteq> [] \<and> io_fault w (Open filename) = None \<and>
          io_fault w (Write filename) = None \<and> list_all encodable_record developers) \<and>
   (\<exists>timestamp w1 csv_saved w2 json_saved w3.
      get_timestamp w = (timestamp, w1) \<and>
      save_to_csv developers (csv_path timestamp) (w1\<lparr>console := console w1 @ [SavingData]\<rparr>) =
        (Inr csv_saved, w2) \<and>
      save_to_json developers (json_path timestamp) w2 = (Inr json_saved, w3) \<and>
      save_and_report developers w =
        and_next (display_results developers (w3\<lparr>console := console w3 @ [Separator]\<rparr>))
          (\<lambda>u w4.
        and_next (console_print (Scraped (length developers)) w4) (\<lambda>u w5.
          report_saved csv_saved (csv_path timestamp) json_saved (json_path timestamp) w5)))"
proof (intro conjI)
  show "fst (save_to_csv developers filename w) =
     Inr (developers \<noteq> [] \<and> io_fault w (Open filename) = None \<and>
          io_fault w (Write filename) = None \<and> list_all writable_row developers)"
    by (rule save_to_csv_result)
  show "fst (save_to_json developers filename w) =
     Inr (developers \<noteq> [] \<and> io_fault w (Open filename) = None \<and>
          io_fault w (Write filename) = None \<and> list_all encodable_record developers)"
    by (rule save_to_json_result)
  obtain timestamp w1 where ts: "get_timestamp w = (timestamp, w1)"
    by (cases "get_timestamp w")
  let ?w1 = "w1\<lparr>console := console w1 @ [SavingData]\<rparr>"
  obtain r2 w2 where csv0: "save_to_csv developers (csv_path timestamp) ?w1 = (r2, w2)"
    by (cases "save_to_csv developers (csv_path timestamp) ?w1")
  with save_to_csv_result[of developers "csv_path timestamp" ?w1]
  obtain csv_saved where
    csv: "save_to_csv developers (csv_path timestamp) ?w1 = (Inr csv_saved, w2)"
    by simp
  obtain r3 w3 where json0: "save_to_json developers (json_path timestamp) w2 = (r3, w3)"
    by (cases "save_to_json developers (json_path timestamp) w2")
  with save_to_json_result[of developers "json_path timestamp" w2]
  obtain json_saved where
    json: "save_to_json developers (json_path timestamp) w2 = (Inr json_saved, w3)"
    by simp
  have "save_and_report developers w =
        and_next (display_results developers (w3\<lparr>console := console w3 @ [Separator]\<rparr>))
          (\<lambda>u w4.
        and_next (console_print (Scraped (length developers)) w4) (\<lambda>u w5.
          report_saved csv_saved (csv_path timestamp) json_saved (json_path timestamp) w5))"
    by (simp add: save_and_report_def ts csv json)
  with ts csv json
  show "\<exists>timestamp w1 csv_saved w2 json_saved w3.
      get_timestamp w = (timestamp, w1) \<and>
      save_to_csv developers (csv_path timestamp) (w1\<lparr>console := console w1 @ [SavingData]\<rparr>) =
        (Inr csv_saved, w2) \<and>
      save_to_json developers (json_path timestamp) w2 = (Inr json_saved, w3) \<and>
      save_and_report developers w =
        and_next (display_results developers (w3\<lparr>console := console w3 @ [Separator]\<rparr>))
          (\<lambda>u w4.
        and_next (console_print (Scraped (length developers)) w4) (\<lambda>u w5.
          report_saved csv_saved (csv_path timestamp) json_saved (json_path timestamp) w5))"
    by blast
qed

theorem writers_never_raise_witness:
  "fst (save_to_csv [verbose_developer] (ustr ''data/out.csv'') csv_locked_world) = Inr False \<and>
   fst (save_to_json [verbose_developer] (ustr ''data/out.json'') csv_locked_world) = Inr True \<and>
   fst (save_to_csv [verbose_developer] (ustr ''data/out.csv'') disk_full_world) = Inr False \<and>
   fst (save_to_json [verbose_developer] (ustr ''data/out.json'') disk_full_world) = Inr False \<and>
   fst (save_to_csv [unpaired_developer] (ustr ''data/out.csv'') online_world) = Inr False \<and>
   fst (save_to_json [unpaired_developer] (ustr ''data/out.json'') online_world) = Inr False \<and>
   fst (save_to_csv [verbose_developer] (ustr ''data/out.csv'') online_world) = Inr True \<and>
   save_to_csv [verbose_developer] (ustr ''data/out.csv'') disk_full_world =
     (Inr False, disk_full_world\<lparr>files := (files disk_full_world)(ustr ''data/out.csv'' \<mapsto> Empty),
        console := [ErrorSavingCSV (OSError 28)]\<rparr>) \<and>
   fst (save_and_report [verbose_developer] csv_locked_world) = Inr () \<and>
   console (snd (save_and_report [verbose_developer] csv_locked_world)) =
     [SavingData, ErrorSavingCSV (OSError 13), Separator,
      PrintTable table_columns [[ustr ''7'', ustr ''a-very-long-userna...'', ustr ''Ann'', [], []]],
      Scraped 1, JSONSaved (json_path (strftime noon)), SomeFilesFailed] \<and>
   files (snd (save_and_report [verbose_developer] csv_locked_world)) (json_path (strftime noon)) =
     Some (Text (dump 0 (envelope (isoformat (noon\<lparr>second := 1\<rparr>)) [verbose_developer]))) \<and>
   files (snd (save_and_report [verbose_developer] csv_locked_world)) (csv_path (strftime noon)) =
     None"
proof -
  let ?ds = "[verbose_developer]"
  let ?csv = "ustr ''data/out.csv''"
  let ?json = "ustr ''data/out.json''"
  have noon0: "noon\<lparr>second := 0\<rparr> = noon" by (simp add: noon_def)
  have locked: "io_fault csv_locked_world (Open ?csv) = Some 13"
    "io_fault csv_locked_world (Open ?json) = None"
    "io_fault csv_locked_world (Write ?json) = None"
    by (simp_all add: csv_locked_world_def online_world_def ustr_def)
  have full: "io_fault disk_full_world (Open ?csv) = None"
    "io_fault disk_full_world (Write ?csv) = Some 28"
    "io_fault disk_full_world (Write ?json) = Some 28"
    by (simp_all add: disk_full_world_def online_world_def)
  have online: "io_fault online_world (Open ?csv) = None"
    "io_fault online_world (Write ?csv) = None"
    by (simp_all add: online_world_def)
  note t1 = writers_never_raise[of ?ds ?csv csv_locked_world]
  note t2 = writers_never_raise[of ?ds ?json csv_locked_world]
  note t3 = writers_never_raise[of ?ds ?csv disk_full_world]
  note t4 = writers_never_raise[of ?ds ?json disk_full_world]
  note t5 = writers_never_raise[of "[unpaired_developer]" ?csv online_world]
  note t6 = writers_never_raise[of "[unpaired_developer]" ?json online_world]
  note t7 = writers_never_raise[of ?ds ?csv online_world]
  have a1: "fst (save_to_csv ?ds ?csv csv_locked_world) = Inr False"
    using t1 by (simp add: locked)
  have a2: "fst (save_to_json ?ds ?json csv_locked_world) = Inr True"
    using t2 by (simp add: locked verbose_writable)
  have a3: "fst (save_to_csv ?ds ?csv disk_full_world) = Inr False"
    using t3 by (simp add: full)
  have a4: "fst (save_to_json ?ds ?json disk_full_world) = Inr False"
    using t4 by (simp add: full)
  have a5: "fst (save_to_csv [unpaired_developer] ?csv online_world) = Inr False"
    using t5 by (simp add: unpaired_unwritable)
  have a6: "fst (save_to_json [unpaired_developer] ?json online_world) = Inr False"
    using t6 by (simp add: unpaired_unwritable)
  have a7: "fst (save_to_csv ?ds ?csv online_world) = Inr True"
    using t7 by (simp add: online verbose_writable)
  have quiet_full: "console disk_full_world = []"
    by (simp add: disk_full_world_def online_world_def)
  have a8: "save_to_csv ?ds ?csv disk_full_world =
     (Inr False, disk_full_world\<lparr>files := (files disk_full_world)(?csv \<mapsto> Empty),
        console := [ErrorSavingCSV (OSError 28)]\<rparr>)"
    by (subst save_to_csv_full[OF _ full(1,2)]) (simp_all add: builtin_print_def quiet_full)
  let ?T = "strftime noon"
  have csv_fault: "io_fault csv_locked_world (Open (csv_path ?T)) = Some 13"
    by (simp add: csv_locked_world_def csv_path_suffix)
  have json_ok: "io_fault csv_locked_world (Open (json_path ?T)) = None"
    by (simp add: csv_locked_world_def json_path_suffix ustr_def)
  have write_ok: "io_fault csv_locked_world (Write (json_path ?T)) = None"
    by (simp add: csv_locked_world_def)
  have quiet: "console csv_locked_world = []" "files csv_locked_world = (\<lambda>path. None)"
    "ticks csv_locked_world = 0" "clock csv_locked_world = (\<lambda>n. noon\<lparr>second := n\<rparr>)"
    by (simp_all add: csv_locked_world_def online_world_def)
  let ?wa = "csv_locked_world\<lparr>ticks := Suc 0, console := [SavingData]\<rparr>"
  let ?wb = "csv_locked_world\<lparr>ticks := Suc 0, console := [SavingData, ErrorSavingCSV (OSError 13)]\<rparr>"
  let ?doc = "Text (dump 0 (envelope (isoformat (noon\<lparr>second := 1\<rparr>)) ?ds))"
  let ?wc = "csv_locked_world\<lparr>ticks := Suc (Suc 0),
      files := (files csv_locked_world)(json_path ?T \<mapsto> ?doc),
      console := [SavingData, ErrorSavingCSV (OSError 13)]\<rparr>"
  let ?table = "PrintTable table_columns [[ustr ''7'', ustr ''a-very-long-userna...'', ustr ''Ann'', [], []]]"
  have ts: "get_timestamp csv_locked_world = (?T, csv_locked_world\<lparr>ticks := Suc 0\<rparr>)"
    by (simp add: get_timestamp_def datetime_now_def quiet noon0)
  have c2: "save_to_csv ?ds (csv_path ?T) ?wa = (Inr False, ?wb)"
    by (subst save_to_csv_locked[where n = 13]) (simp_all add: csv_fault builtin_print_def)
  have j2: "save_to_json ?ds (json_path ?T) ?wb = (Inr True, ?wc)"
    by (subst save_to_json_written)
      (simp_all add: json_ok write_ok verbose_writable quiet)
  have r: "save_and_report ?ds csv_locked_world =
      (Inr (), ?wc\<lparr>console := [SavingData, ErrorSavingCSV (OSError 13), Separator, ?table,
         Scraped 1, JSONSaved (json_path ?T), SomeFilesFailed]\<rparr>)"
    by (simp add: save_and_report_def ts quiet c2 j2 display_verbose report_saved_def)
  have b1: "fst (save_and_report ?ds csv_locked_world) = Inr ()" by (simp add: r)
  have b2: "console (snd (save_and_report ?ds csv_locked_world)) =
     [SavingData, ErrorSavingCSV (OSError 13), Separator, ?table,
      Scraped 1, JSONSaved (json_path ?T), SomeFilesFailed]"
    by (simp add: r)
  have b3: "files (snd (save_and_report ?ds csv_locked_world)) (json_path ?T) = Some ?doc"
    by (simp add: r)
  have b4: "files (snd (save_and_report ?ds csv_locked_world)) (csv_path ?T) = None"
    by (simp add: r csv_json_distinct quiet)
  show ?thesis by (intro conjI a1 a2 a3 a4 a5 a6 a7 a8 b1 b2 b3 b4)
qed

text \<open>
  Claim C6, as the code has it: for a non-empty sequence of records (dictionaries, so no
  key twice) whose values UTF-8 can encode, and a path that can be opened and written,
  the structured writer succeeds and the file holds a text that \<open>json.load\<close> reads as
  one object with the keys \<open>scraped_at\<close>, \<open>total_developers\<close> and \<open>developers\<close>, in this
  order, where \<open>total_developers\<close> is the length of the \<open>developers\<close> array, that length
  is the number of records passed in, and the array read back gives the records in their
  order.
\<close>

theorem structured_document:
  assumes "developers \<noteq> []"
    and "io_fault w (Open filename) = None"
    and "io_fault w (Write filename) = None"
    and "\<forall>d \<in> set developers. encodable_record d \<and> distinct (map fst d)"
  shows "\<exists>w' t stamp js.
     save_to_json developers filename w = (Inr True, w') \<and>
     files w' filename = Some (Text t) \<and>
     loads t = Some (JObject [(ustr ''scraped_at'', JString stamp),
                              (ustr ''total_developers'', JNumber (int (length js))),
                              (ustr ''developers'', JArray js)]) \<and>
     length js = length developers \<and>
     read_total t = Some (int (length developers)) \<and>
     read_developers t = Some developers"
proof -
  let ?js = "map json_of_developer developers"
  let ?stamp = "isoformat (clock w (ticks w))"
  let ?t = "dump 0 (envelope ?stamp developers)"
  let ?w' = "w\<lparr>ticks := Suc (ticks w), files := (files w)(filename \<mapsto> Text ?t)\<rparr>"
  have enc: "list_all encodable_record developers"
    using assms(4) by (simp add: list_all_iff)
  have "save_to_json developers filename w = (Inr True, ?w')"
    using assms(1-3) enc by (rule save_to_json_written)
  moreover have "files ?w' filename = Some (Text ?t)" by simp
  moreover have "envelope ?stamp developers =
      JObject [(ustr ''scraped_at'', JString ?stamp),
               (ustr ''total_developers'', JNumber (int (length ?js))),
               (ustr ''developers'', JArray ?js)]"
    by (simp add: envelope_def)
  then have "loads ?t = Some (JObject [(ustr ''scraped_at'', JString ?stamp),
                              (ustr ''total_developers'', JNumber (int (length ?js))),
                              (ustr ''developers'', JArray ?js)])"
    by (simp only: loads_dump)
  moreover have "length ?js = length developers" by simp
  moreover have "read_total ?t = Some (int (length developers))" by (rule read_total_dump)
  moreover have "read_developers ?t = Some developers"
    using assms(4) by (intro read_developers_dump) simp
  ultimately show ?thesis by blast
qed

theorem structured_document_witness:
  "[verbose_developer] \<noteq> [] \<and>
   io_fault online_world (Open (ustr ''out.json'')) = None \<and>
   io_fault online_world (Write (ustr ''out.json'')) = None \<and>
   encodable_record verbose_developer \<and> distinct (map fst verbose_developer) \<and>
   fst (save_to_json [verbose_developer] (ustr ''out.json'') online_world) = Inr True \<and>
   files (snd (save_to_json [verbose_developer] (ustr ''out.json'') online_world))
       (ustr ''out.json'') =
     Some (Text (dump 0 (envelope (isoformat noon) [verbose_developer]))) \<and>
   loads (dump 0 (envelope (isoformat noon) [verbose_developer])) =
     Some (JObject [(ustr ''scraped_at'', JString (isoformat noon)),
                    (ustr ''total_developers'', JNumber 1),
                    (ustr ''developers'', JArray [json_of_developer verbose_developer])]) \<and>
   read_total (dump 0 (envelope (isoformat noon) [verbose_developer])) = Some 1 \<and>
   read_developers (dump 0 (envelope (isoformat noon) [verbose_developer])) =
     Some [verbose_developer]"
proof -
  let ?t = "dump 0 (envelope (isoformat noon) [verbose_developer])"
  have h: "[verbose_developer] \<noteq> []"
    "io_fault online_world (Open (ustr ''out.json'')) = None"
    "io_fault online_world (Write (ustr ''out.json'')) = None"
    by (simp_all add: online_world_def)
  have v: "encodable_record verbose_developer" "distinct (map fst verbose_developer)"
    by (rule verbose_writable)+
  then have h4: "\<forall>d \<in> set [verbose_developer]. encodable_record d \<and> distinct (map fst d)"
    by simp
  from structured_document[OF h h4] obtain w' t stamp js where
    r: "save_to_json [verbose_developer] (ustr ''out.json'') online_world = (Inr True, w')" and
    f: "files w' (ustr ''out.json'') = Some (Text t)" and
    l: "loads t = Some (JObject [(ustr ''scraped_at'', JString stamp),
                              (ustr ''total_developers'', JNumber (int (length js))),
                              (ustr ''developers'', JArray js)])" and
    n: "length js = length [verbose_developer]" and
    rt: "read_total t = Some (int (length [verbose_developer]))" and
    rd: "read_developers t = Some [verbose_developer]"
    by blast
  have noon0: "clock online_world (ticks online_world) = noon"
    by (simp add: online_world_def noon_def)
  have c: "save_to_json [verbose_developer] (ustr ''out.json'') online_world =
      (Inr True, online_world\<lparr>ticks := Suc (ticks online_world),
         files := (files online_world)(ustr ''out.json'' \<mapsto> Text ?t)\<rparr>)"
    using save_to_json_written[OF h(1-3), unfolded noon0] v(1) by simp
  from r c have "files w' (ustr ''out.json'') = Some (Text ?t)" by auto
  with f have t: "t = ?t" by simp
  have 1: "fst (save_to_json [verbose_developer] (ustr ''out.json'') online_world) = Inr True"
    by (simp add: r)
  have 2: "files (snd (save_to_json [verbose_developer] (ustr ''out.json'') online_world))
       (ustr ''out.json'') = Some (Text ?t)"
    using f by (simp add: r t)
  have "loads ?t = Some (envelope (isoformat noon) [verbose_developer])" by (rule loads_dump)
  then have 3: "loads ?t =
     Some (JObject [(ustr ''scraped_at'', JString (isoformat noon)),
                    (ustr ''total_developers'', JNumber 1),
                    (ustr ''developers'', JArray [json_of_developer verbose_developer])])"
    by (simp add: envelope_def)
  have 4: "read_total ?t = Some 1" using rt by (simp add: t)
  have 5: "read_developers ?t = Some [verbose_developer]" using rd by (simp add: t)
  show ?thesis by (intro conjI h v 1 2 3 4 5)
qed

text \<open>
  The claim as stated (for every non-empty record sequence) fails: a record whose name
  is a lone surrogate cannot be written as UTF-8; the structured writer returns \<open>False\<close>
  and leaves a part of the document in the file, although the path can be opened and
  written.
\<close>

theorem structured_document_counterexample:
  "[unpaired_developer] \<noteq> [] \<and>
   io_fault online_world (Open (ustr ''out.json'')) = None \<and>
   io_fault online_world (Write (ustr ''out.json'')) = None \<and>
   distinct (map fst unpaired_developer) \<and>
   save_to_json [unpaired_developer] (ustr ''out.json'') online_world =
     (Inr False,
      online_world\<lparr>ticks := 1, files := (files online_world)(ustr ''out.json'' \<mapsto> Partial),
        console := [ErrorSavingJSON UnicodeEncodeError]\<rparr>) \<and>
   read_developers [] = None"
proof -
  have h: "[unpaired_developer] \<noteq> []"
    "io_fault online_world (Open (ustr ''out.json'')) = None"
    "io_fault online_world (Write (ustr ''out.json'')) = None"
    by (simp_all add: online_world_def)
  have d: "distinct (map fst unpaired_developer)" by (simp add: unpaired_developer_def)
  have u: "\<not> list_all encodable_record [unpaired_developer]"
    by (simp add: unpaired_unwritable)
  have q: "ticks online_world = 0" "console online_world = []"
    by (simp_all add: online_world_def)
  have s: "save_to_json [unpaired_developer] (ustr ''out.json'') online_world =
     (Inr False,
      online_world\<lparr>ticks := 1, files := (files online_world)(ustr ''out.json'' \<mapsto> Partial),
        console := [ErrorSavingJSON UnicodeEncodeError]\<rparr>)"
    by (subst save_to_json_unencodable[OF h(1,2) u]) (simp add: builtin_print_def q)
  have e: "read_developers [] = None"
    by (simp add: read_developers_def loads_def skip_ws_def)
  show ?thesis by (intro conjI h d s e)
qed

text \<open>
  Claim C9, as the code has it: when the output directory is in place and the fetch
  fails, by an exception of the \<open>RequestException\<close> family (timeout, connection failure)
  or by a 4xx or 5xx status, neither writer runs and the files are those of the start.
  When the terminal library accepts the text of the error, \<open>main\<close> returns normally and
  the console shows the fetch error and then the no-data message. When it does not (the
  text holds a closing tag that matches no open tag) the print in the handler of line 104
  raises \<open>MarkupError\<close>, the handler of line 208 prints that error, is refused in turn, and
  the exception leaves \<open>main\<close>: nothing is shown of the failure.
\<close>

theorem fetch_failure_aborts:
  assumes "io_fault w (MakeDirs OUTPUT_DIR) = None"
    and "(requests_get w GITHUB_URL = Inl e \<and> is_RequestException e) \<or>
         (\<exists>r. requests_get w GITHUB_URL = Inr r \<and> raise_for_status r = Inl e)"
  shows "main lib w =
           (if unprintable w e
            then (Inl MarkupError,
                  w\<lparr>dirs := insert OUTPUT_DIR (dirs w),
                    console := console w @ [Banner, Fetching]\<rparr>)
            else (Inr (),
                  w\<lparr>dirs := insert OUTPUT_DIR (dirs w),
                    console := console w @ [Banner, Fetching, ErrorFetching e, NoDataScraped]\<rparr>)) \<and>
         files (snd (main lib w)) = files w"
proof -
  let ?w1 = "w\<lparr>dirs := insert OUTPUT_DIR (dirs w)\<rparr>"
  let ?w2 = "w\<lparr>dirs := insert OUTPUT_DIR (dirs w), console := console w @ [Banner, Fetching]\<rparr>"
  have mk: "setup_directories w = (Inr (), ?w1)"
    using assms(1) by (simp add: setup_directories_def makedirs_def)
  have ex: "is_RequestException e"
    using assms(2) by (auto simp: raise_for_status_def split: if_splits)
  have fp: "fetch_and_parse lib (?w1\<lparr>console := console ?w1 @ [Banner]\<rparr>) = (Inl e, ?w2)"
    using assms(2) by (auto simp: fetch_and_parse_def)
  show ?thesis
  proof (cases "unprintable w e")
    case True
    then have "scrape_trending_developers lib ?w1 = (Inl MarkupError, ?w2)"
      using ex fp by (simp add: scrape_trending_developers_def console_print_refused)
    then have "main_body lib w = (Inl MarkupError, ?w2)"
      by (simp add: main_body_def mk)
    then have "main lib w = (Inl MarkupError, ?w2)"
      by (simp add: main_def console_print_refused)
    with True show ?thesis by simp
  next
    case False
    then have "scrape_trending_developers lib ?w1 =
        (Inr [], ?w2\<lparr>console := console ?w2 @ [ErrorFetching e]\<rparr>)"
      using ex fp by (simp add: scrape_trending_developers_def console_print_accepted)
    then have "main_body lib w =
        (Inr (), ?w2\<lparr>console := console w @ [Banner, Fetching, ErrorFetching e, NoDataScraped]\<rparr>)"
      by (simp add: main_body_def mk)
    then have "main lib w =
        (Inr (), ?w2\<lparr>console := console w @ [Banner, Fetching, ErrorFetching e, NoDataScraped]\<rparr>)"
      by (simp add: main_def)
    with False show ?thesis by simp
  qed
qed

text \<open>
  A timeout and a 404 answer are reported and \<open>main\<close> returns; a 403 answer whose reason
  phrase is \<open>[/b]\<close> is not: the exception leaves \<open>main\<close>.
\<close>

theorem fetch_failure_aborts_witness:
  "io_fault timeout_world (MakeDirs OUTPUT_DIR) = None \<and>
   requests_get timeout_world GITHUB_URL = Inl Timeout \<and>
   is_RequestException Timeout \<and>
   main (tree_library sample_page) timeout_world =
     (Inr (), timeout_world\<lparr>dirs := insert OUTPUT_DIR (dirs timeout_world),
        console := console timeout_world @
          [Banner, Fetching, ErrorFetching Timeout, NoDataScraped]\<rparr>) \<and>
   files (snd (main (tree_library sample_page) timeout_world)) = files timeout_world \<and>
   io_fault forbidden_world (MakeDirs OUTPUT_DIR) = None \<and>
   requests_get forbidden_world GITHUB_URL =
     Inr \<lparr>status_code = 403, reason = ustr ''[/b]'', url = GITHUB_URL,
          page_text = ustr ''Forbidden''\<rparr> \<and>
   raise_for_status \<lparr>status_code = 403, reason = ustr ''[/b]'', url = GITHUB_URL,
          page_text = ustr ''Forbidden''\<rparr> =
     Inl (HTTPError 403
            (ustr ''403 Client Error: [/b] for url: https://github.com/trending/developers'')) \<and>
   main (tree_library sample_page) forbidden_world =
     (Inl MarkupError, forbidden_world\<lparr>dirs := insert OUTPUT_DIR (dirs forbidden_world),
        console := console forbidden_world @ [Banner, Fetching]\<rparr>) \<and>
   files (snd (main (tree_library sample_page) forbidden_world)) = files forbidden_world"
proof -
  let ?r = "\<lparr>status_code = 403, reason = ustr ''[/b]'', url = GITHUB_URL,
          page_text = ustr ''Forbidden''\<rparr>"
  let ?m = "ustr ''403 Client Error: [/b] for url: https://github.com/trending/developers''"
  have t1: "io_fault timeout_world (MakeDirs OUTPUT_DIR) = None"
    and t2: "requests_get timeout_world GITHUB_URL = Inl Timeout"
    and t3: "is_RequestException Timeout"
    by (simp_all add: timeout_world_def online_world_def)
  have f1: "io_fault forbidden_world (MakeDirs OUTPUT_DIR) = None"
    and f2: "requests_get forbidden_world GITHUB_URL = Inr ?r"
    by (simp_all add: forbidden_world_def online_world_def)
  have f3: "raise_for_status ?r = Inl (HTTPError 403 ?m)"
    by (simp add: raise_for_status_def digits.simps GITHUB_URL_def ustr_def)
  have t: "(requests_get timeout_world GITHUB_URL = Inl Timeout \<and> is_RequestException Timeout) \<or>
         (\<exists>r. requests_get timeout_world GITHUB_URL = Inr r \<and> raise_for_status r = Inl Timeout)"
    using t2 t3 by simp
  have f: "(requests_get forbidden_world GITHUB_URL = Inl (HTTPError 403 ?m) \<and>
          is_RequestException (HTTPError 403 ?m)) \<or>
         (\<exists>r. requests_get forbidden_world GITHUB_URL = Inr r \<and>
              raise_for_status r = Inl (HTTPError 403 ?m))"
    using f2 f3 by simp
  have pt: "\<not> unprintable timeout_world Timeout"
    by (simp add: timeout_world_def online_unprintable)
  have pf: "unprintable forbidden_world (HTTPError 403 ?m)"
    by (simp add: forbidden_world_def online_unprintable ustr_def)
  from fetch_failure_aborts[OF t1 t, of "tree_library sample_page"] pt
  have a: "main (tree_library sample_page) timeout_world =
     (Inr (), timeout_world\<lparr>dirs := insert OUTPUT_DIR (dirs timeout_world),
        console := console timeout_world @
          [Banner, Fetching, ErrorFetching Timeout, NoDataScraped]\<rparr>)"
    and a': "files (snd (main (tree_library sample_page) timeout_world)) = files timeout_world"
    by simp_all
  from fetch_failure_aborts[OF f1 f, of "tree_library sample_page"] pf
  have b: "main (tree_library sample_page) forbidden_world =
     (Inl MarkupError, forbidden_world\<lparr>dirs := insert OUTPUT_DIR (dirs forbidden_world),
        console := console forbidden_world @ [Banner, Fetching]\<rparr>)"
    and b': "files (snd (main (tree_library sample_page) forbidden_world)) = files forbidden_world"
    by simp_all
  show ?thesis by (intro conjI t1 t2 t3 a a' f1 f2 f3 b b')
qed

text \<open>
  Claim C2: when the page is fetched and parsed, the ranks of the records returned are,
  in order, the positions (counted from 1) that the retained rows have in the sequence
  \<open>find_all\<close> returned: rows that are dropped, or skipped after an exception, leave the
  ranks of the others as they are. Every record returned comes from the row at the
  position its rank names.
\<close>

theorem positional_ranks:
  assumes "requests_get w GITHUB_URL = Inr response"
    and "status_code response < 400 \<or> 600 \<le> status_code response"
    and "bs_parse lib (page_text response) = Inr soup"
    and "bs_find_all lib soup ''article'' (Some ''Box-row'') = Inr developer_elements"
    and "scrape_trending_developers lib w = (Inr developers, w')"
  shows "map (\<lambda>d. map_of d ''rank'') developers =
           map (\<lambda>row. Some (PInt (int (fst row) + 1)))
             (filter (retained lib) (enumerate 0 developer_elements)) \<and>
         (\<forall>d \<in> set developers. \<exists>j < length developer_elements.
            from_row lib d (j, developer_elements ! j) \<and> retained lib (j, developer_elements ! j) \<and>
            map_of d ''rank'' = Some (PInt (int j + 1)))"
proof -
  have k: "list_all2 (from_row lib) developers
           (filter (retained lib) (enumerate 0 developer_elements))"
    using assms by (rule scrape_kept)
  then have "list_all2 (\<lambda>d row. map_of d ''rank'' = Some (PInt (int (fst row) + 1))) developers
           (filter (retained lib) (enumerate 0 developer_elements))"
    by (rule list_all2_mono) (rule from_row_rank)
  then have 1: "map (\<lambda>d. map_of d ''rank'') developers =
           map (\<lambda>row. Some (PInt (int (fst row) + 1)))
             (filter (retained lib) (enumerate 0 developer_elements))"
    by (rule list_all2_map_eq)
  have 2: "\<exists>j < length developer_elements.
            from_row lib d (j, developer_elements ! j) \<and> retained lib (j, developer_elements ! j) \<and>
            map_of d ''rank'' = Some (PInt (int j + 1))" if "d \<in> set developers" for d
  proof -
    from list_all2_witness[OF k that] obtain row where
      row: "row \<in> set (enumerate 0 developer_elements)" "retained lib row" "from_row lib d row"
      by auto
    from enumerate_member[OF row(1)] have "row = (fst row, developer_elements ! fst row)"
      and "fst row < length developer_elements"
      by (simp_all add: prod_eq_iff)
    with row from_row_rank[OF row(3)] show ?thesis by metis
  qed
  from 1 2 show ?thesis by blast
qed

theorem positional_ranks_witness:
  "requests_get online_world GITHUB_URL = Inr sample_response \<and>
   (status_code sample_response < 400 \<or> 600 \<le> status_code sample_response) \<and>
   bs_parse (tree_library sample_page) (page_text sample_response) = Inr sample_page \<and>
   bs_find_all (tree_library sample_page) sample_page ''article'' (Some ''Box-row'') =
     Inr [row_alice, row_blank, row_bob] \<and>
   scrape_trending_developers (tree_library sample_page) online_world =
     (Inr sample_developers,
      online_world\<lparr>ticks := 2, console := [Banner, Fetching, Found 3]\<rparr>) \<and>
   filter (retained (tree_library sample_page)) (enumerate 0 [row_alice, row_blank, row_bob]) =
     [(0, row_alice), (2, row_bob)] \<and>
   map (\<lambda>d. map_of d ''rank'') sample_developers = [Some (PInt 1), Some (PInt 3)]"
proof -
  let ?r = "sample_response"
  have h1: "requests_get online_world GITHUB_URL = Inr ?r" by (rule online_facts)
  have h2: "status_code ?r < 400 \<or> 600 \<le> status_code ?r"
    by (simp add: sample_response_facts)
  have h3: "bs_parse (tree_library sample_page) (page_text ?r) = Inr sample_page"
    by (simp add: parse_sample sample_response_facts)
  have h4: "bs_find_all (tree_library sample_page) sample_page ''article'' (Some ''Box-row'') =
     Inr [row_alice, row_blank, row_bob]" by (rule find_rows)
  note h5 = scrape_sample
  from positional_ranks[OF h1 h2 h3 h4 h5]
  have "map (\<lambda>d. map_of d ''rank'') sample_developers =
           map (\<lambda>row. Some (PInt (int (fst row) + 1)))
             (filter (retained (tree_library sample_page))
                (enumerate 0 [row_alice, row_blank, row_bob]))" by (rule conjunct1)
  then have ranks:
    "map (\<lambda>d. map_of d ''rank'') sample_developers = [Some (PInt 1), Some (PInt 3)]"
    by (simp only: retained_sample) simp
  show ?thesis by (intro conjI h1 h2 h3 h4 h5 retained_sample ranks)
qed

text \<open>
  Claim C3: every record returned has a non-empty name or a non-empty username; a row
  whose name and username are both empty is not retained and no record carries its
  rank; the records returned correspond one to one, in order, to the retained rows of
  the listing.
\<close>

theorem retained_records_identified:
  assumes "requests_get w GITHUB_URL = Inr response"
    and "status_code response < 400 \<or> 600 \<le> status_code response"
    and "bs_parse lib (page_text response) = Inr soup"
    and "bs_find_all lib soup ''article'' (Some ''Box-row'') = Inr developer_elements"
    and "scrape_trending_developers lib w = (Inr developers, w')"
  shows "(\<forall>d \<in> set developers. \<exists>n u.
            map_of d ''name'' = Some (PStr n) \<and> map_of d ''username'' = Some (PStr u) \<and>
            (n \<noteq> [] \<or> u \<noteq> [])) \<and>
         (\<forall>row \<in> set (enumerate 0 developer_elements). \<forall>d0.
            extract_fields lib (fst row) (snd row) = Inr d0 \<and>
            map_of d0 ''name'' = Some (PStr []) \<and> map_of d0 ''username'' = Some (PStr []) \<longrightarrow>
            \<not> retained lib row \<and>
            (\<forall>d \<in> set developers. map_of d ''rank'' \<noteq> Some (PInt (int (fst row) + 1)))) \<and>
         list_all2 (from_row lib) developers
           (filter (retained lib) (enumerate 0 developer_elements))"
proof (intro conjI ballI allI impI)
  have k: "list_all2 (from_row lib) developers
           (filter (retained lib) (enumerate 0 developer_elements))"
    using assms by (rule scrape_kept)
  then show "list_all2 (from_row lib) developers
           (filter (retained lib) (enumerate 0 developer_elements))" .
  {
    fix d assume "d \<in> set developers"
    from list_all2_witness[OF k this] obtain row where
      "retained lib row" "from_row lib d row" by auto
    then show "\<exists>n u. map_of d ''name'' = Some (PStr n) \<and> map_of d ''username'' = Some (PStr u) \<and>
            (n \<noteq> [] \<or> u \<noteq> [])"
      by (intro retained_named)
  }
  {
    fix row d0
    assume row: "row \<in> set (enumerate 0 developer_elements)"
      and e: "extract_fields lib (fst row) (snd row) = Inr d0 \<and>
            map_of d0 ''name'' = Some (PStr []) \<and> map_of d0 ''username'' = Some (PStr [])"
    then show nr: "\<not> retained lib row"
      by (simp add: retained_def name_or_username_def and_then_def getitem_def)
    fix d assume d: "d \<in> set developers"
    show "map_of d ''rank'' \<noteq> Some (PInt (int (fst row) + 1))"
    proof
      assume "map_of d ''rank'' = Some (PInt (int (fst row) + 1))"
      from kept_row_of_rank[OF k d row this] nr show False by simp
    qed
  }
qed

theorem retained_records_identified_witness:
  "requests_get online_world GITHUB_URL = Inr sample_response \<and>
   (status_code sample_response < 400 \<or> 600 \<le> status_code sample_response) \<and>
   bs_parse (tree_library sample_page) (page_text sample_response) = Inr sample_page \<and>
   bs_find_all (tree_library sample_page) sample_page ''article'' (Some ''Box-row'') =
     Inr [row_alice, row_blank, row_bob] \<and>
   scrape_trending_developers (tree_library sample_page) online_world =
     (Inr sample_developers,
      online_world\<lparr>ticks := 2, console := [Banner, Fetching, Found 3]\<rparr>) \<and>
   extract_fields (tree_library sample_page) 1 row_blank = Inr (fields_blank 1) \<and>
   map_of (fields_blank 1) ''name'' = Some (PStr []) \<and>
   map_of (fields_blank 1) ''username'' = Some (PStr []) \<and>
   \<not> retained (tree_library sample_page) (1, row_blank) \<and>
   list_all2 (from_row (tree_library sample_page)) sample_developers
     [(0, row_alice), (2, row_bob)]"
proof -
  let ?r = "sample_response"
  let ?lib = "tree_library sample_page"
  have h1: "requests_get online_world GITHUB_URL = Inr ?r" by (rule online_facts)
  have h2: "status_code ?r < 400 \<or> 600 \<le> status_code ?r"
    by (simp add: sample_response_facts)
  have h3: "bs_parse ?lib (page_text ?r) = Inr sample_page"
    by (simp add: parse_sample sample_response_facts)
  have h4: "bs_find_all ?lib sample_page ''article'' (Some ''Box-row'') =
     Inr [row_alice, row_blank, row_bob]" by (rule find_rows)
  note h5 = scrape_sample
  note t = retained_records_identified[OF h1 h2 h3 h4 h5]
  have b: "extract_fields ?lib 1 row_blank = Inr (fields_blank 1)"
    "map_of (fields_blank 1) ''name'' = Some (PStr [])"
    "map_of (fields_blank 1) ''username'' = Some (PStr [])"
    by (simp_all add: fields_blank_def)
  have m: "(1, row_blank) \<in> set (enumerate 0 [row_alice, row_blank, row_bob])"
    by (simp add: enumerate_simps)
  from t have "\<forall>row \<in> set (enumerate 0 [row_alice, row_blank, row_bob]). \<forall>d0.
            extract_fields ?lib (fst row) (snd row) = Inr d0 \<and>
            map_of d0 ''name'' = Some (PStr []) \<and> map_of d0 ''username'' = Some (PStr []) \<longrightarrow>
            \<not> retained ?lib row \<and>
            (\<forall>d \<in> set sample_developers. map_of d ''rank'' \<noteq> Some (PInt (int (fst row) + 1)))"
    by blast
  from this[rule_format, OF m, of "fields_blank 1"] b
  have nr: "\<not> retained ?lib (1, row_blank)" by simp
  from t have "list_all2 (from_row ?lib) sample_developers
           (filter (retained ?lib) (enumerate 0 [row_alice, row_blank, row_bob]))" by blast
  then have kept: "list_all2 (from_row ?lib) sample_developers [(0, row_alice), (2, row_bob)]"
    by (simp only: retained_sample)
  show ?thesis by (intro conjI h1 h2 h3 h4 h5 b nr kept)
qed

text \<open>
  Claim C7, as the code has it: in the record appended for a row, the name, the
  username, the popular repository and its description are texts of the library with the
  edge whitespace removed and nothing else changed, so they neither start nor end with
  whitespace; the avatar address and the \<open>href\<close> inside the profile address are the
  attribute values as they are, untrimmed.
\<close>

theorem trimmed_text_fields:
  assumes "parse_row lib i element developers w = (Inr (developers @ [d]), w')"
  shows "(\<forall>k \<in> set [''name'', ''username'', ''popular_repo'', ''repo_description''].
            \<exists>t pre suf.
              map_of d k = Some (PStr (strip t)) \<and>
              (t = [] \<or> (\<exists>nd. bs_get_text lib nd = Inr t)) \<and>
              t = pre @ strip t @ suf \<and> list_all isspace pre \<and> list_all isspace suf \<and>
              (strip t = [] \<or> (\<not> isspace (hd (strip t)) \<and> \<not> isspace (last (strip t))))) \<and>
         (\<forall>img src.
            bs_find lib element ''img'' (Some ''avatar-user'') = Inr (Some img) \<and>
            bs_get lib img ''src'' = Inr (Some src) \<longrightarrow>
            map_of d ''avatar_url'' = Some (PStr src)) \<and>
         (\<forall>heading a href.
            bs_find lib element ''h1'' (Some ''h3'') = Inr (Some heading) \<and>
            bs_find lib heading ''a'' None = Inr (Some a) \<and>
            bs_get lib a ''href'' = Inr (Some href) \<longrightarrow>
            map_of d ''profile_url'' = Some (PStr (ustr ''https://github.com'' @ href)))"
proof (intro conjI)
  from parse_row_appended[OF assms] obtain d0 s where
    e: "extract_fields lib i element = Inr d0" and
    d: "d = AList.update ''scraped_at'' (PStr s) d0" by blast
  have trim: "\<exists>t pre suf.
              x = strip t \<and>
              (t = [] \<or> (\<exists>nd. bs_get_text lib nd = Inr t)) \<and>
              t = pre @ strip t @ suf \<and> list_all isspace pre \<and> list_all isspace suf \<and>
              (strip t = [] \<or> (\<not> isspace (hd (strip t)) \<and> \<not> isspace (last (strip t))))"
    if "x = [] \<or> (\<exists>nd t. bs_get_text lib nd = Inr t \<and> x = strip t)" for x
  proof -
    from that obtain t where t: "x = strip t" "t = [] \<or> (\<exists>nd. bs_get_text lib nd = Inr t)"
      using strip_Nil by metis
    from strip_inside[of t] obtain pre suf where
      "t = pre @ strip t @ suf" "list_all isspace pre" "list_all isspace suf" by blast
    with t strip_edges[of t] show ?thesis by blast
  qed
  from extract_fields_shape[OF e] obtain n p u a r c where
    d0: "d0 = [(''rank'', PInt (int i + 1)), (''name'', PStr n), (''profile_url'', PStr p),
          (''username'', PStr u), (''avatar_url'', PStr a), (''popular_repo'', PStr r),
          (''repo_description'', PStr c)]" and
    n: "n = [] \<or> (\<exists>nd t. bs_get_text lib nd = Inr t \<and> n = strip t)" and
    u: "u = [] \<or> (\<exists>nd t. bs_get_text lib nd = Inr t \<and> u = strip t)" and
    r: "r = [] \<or> (\<exists>nd t. bs_get_text lib nd = Inr t \<and> r = strip t)" and
    c: "c = [] \<or> (\<exists>nd t. bs_get_text lib nd = Inr t \<and> c = strip t)"
    by blast
  have m: "map_of d ''name'' = Some (PStr n)" "map_of d ''username'' = Some (PStr u)"
    "map_of d ''popular_repo'' = Some (PStr r)" "map_of d ''repo_description'' = Some (PStr c)"
    by (simp_all add: d d0)
  show "\<forall>k \<in> set [''name'', ''username'', ''popular_repo'', ''repo_description''].
            \<exists>t pre suf.
              map_of d k = Some (PStr (strip t)) \<and>
              (t = [] \<or> (\<exists>nd. bs_get_text lib nd = Inr t)) \<and>
              t = pre @ strip t @ suf \<and> list_all isspace pre \<and> list_all isspace suf \<and>
              (strip t = [] \<or> (\<not> isspace (hd (strip t)) \<and> \<not> isspace (last (strip t))))"
    using trim[OF n] trim[OF u] trim[OF r] trim[OF c] unfolding m
    by (simp only: list.set ball_simps insert_iff empty_iff m pyval.inject option.inject)
  show "\<forall>img src.
            bs_find lib element ''img'' (Some ''avatar-user'') = Inr (Some img) \<and>
            bs_get lib img ''src'' = Inr (Some src) \<longrightarrow>
            map_of d ''avatar_url'' = Some (PStr src)"
  proof (intro allI impI)
    fix img src
    assume f: "bs_find lib element ''img'' (Some ''avatar-user'') = Inr (Some img) \<and>
            bs_get lib img ''src'' = Inr (Some src)"
    from avatar_kept[OF e, of s] d obtain d2 d3 where
      a: "avatar_field lib element d2 = Inr d3" and
      k: "map_of d ''avatar_url'' = map_of d3 ''avatar_url''" by auto
    from a f have "d3 = AList.update ''avatar_url'' (PStr src) d2"
      by (auto simp: avatar_field_def and_then_def)
    with k show "map_of d ''avatar_url'' = Some (PStr src)" by (simp add: update_conv')
  qed
  show "\<forall>heading a href.
            bs_find lib element ''h1'' (Some ''h3'') = Inr (Some heading) \<and>
            bs_find lib heading ''a'' None = Inr (Some a) \<and>
            bs_get lib a ''href'' = Inr (Some href) \<longrightarrow>
            map_of d ''profile_url'' = Some (PStr (ustr ''https://github.com'' @ href))"
  proof -
    from extract_fields_steps[OF e] obtain d1 where
      nf: "name_fields lib element [(''rank'', PInt (int i + 1))] = Inr d1" by blast
    from name_kept[OF e nf] d have
      k: "map_of d ''profile_url'' = map_of d1 ''profile_url''" by simp
    show ?thesis
      using nf unfolding k
      by (auto simp: name_fields_def and_then_def format_value_def split: sum.splits)
  qed
qed

theorem trimmed_text_fields_witness:
  "parse_row (tree_library sample_page) 0 row_alice [] online_world =
     (Inr ([] @ [stamped 0 (fields_alice 0)]), online_world\<lparr>ticks := 1\<rparr>) \<and>
   bs_find (tree_library sample_page) row_alice ''img'' (Some ''avatar-user'') =
     Inr (Some avatar_alice) \<and>
   bs_get (tree_library sample_page) avatar_alice ''src'' =
     Inr (Some (ustr '' https://avatars.example/u/1 '')) \<and>
   map_of (stamped 0 (fields_alice 0)) ''avatar_url'' =
     Some (PStr (ustr '' https://avatars.example/u/1 '')) \<and>
   (\<exists>t pre suf.
      map_of (stamped 0 (fields_alice 0)) ''name'' = Some (PStr (strip t)) \<and>
      (t = [] \<or> (\<exists>nd. bs_get_text (tree_library sample_page) nd = Inr t)) \<and>
      t = pre @ strip t @ suf \<and> list_all isspace pre \<and> list_all isspace suf \<and>
      (strip t = [] \<or> (\<not> isspace (hd (strip t)) \<and> \<not> isspace (last (strip t))))) \<and>
   map_of (stamped 0 (fields_alice 0)) ''name'' = Some (PStr (ustr ''Alice  Liddell''))"
proof -
  note f = find_in_sample[of sample_page]
  note t = trimmed_text_fields[OF parse_row_sample(1)[of sample_page 0]]
  from t f(5,6) have a: "map_of (stamped 0 (fields_alice 0)) ''avatar_url'' =
     Some (PStr (ustr '' https://avatars.example/u/1 ''))"
    by blast
  from t have n: "\<exists>t pre suf.
      map_of (stamped 0 (fields_alice 0)) ''name'' = Some (PStr (strip t)) \<and>
      (t = [] \<or> (\<exists>nd. bs_get_text (tree_library sample_page) nd = Inr t)) \<and>
      t = pre @ strip t @ suf \<and> list_all isspace pre \<and> list_all isspace suf \<and>
      (strip t = [] \<or> (\<not> isspace (hd (strip t)) \<and> \<not> isspace (last (strip t))))"
    by simp
  have c: "map_of (stamped 0 (fields_alice 0)) ''name'' = Some (PStr (ustr ''Alice  Liddell''))"
    by (simp add: stamped_def fields_alice_def)
  show ?thesis by (intro conjI parse_row_sample f(5,6) a n c)
qed

text \<open>
  The claim as stated (no leading or trailing whitespace in the avatar address either)
  fails: an \<open>img\<close> whose \<open>src\<close> is padded with spaces gives a record whose avatar address
  starts and ends with a space.
\<close>

theorem trimmed_text_fields_counterexample:
  "parse_row (tree_library sample_page) 0 row_alice [] online_world =
     (Inr [stamped 0 (fields_alice 0)], online_world\<lparr>ticks := 1\<rparr>) \<and>
   map_of (stamped 0 (fields_alice 0)) ''avatar_url'' =
     Some (PStr (ustr '' https://avatars.example/u/1 '')) \<and>
   isspace (hd (ustr '' https://avatars.example/u/1 '')) \<and>
   isspace (last (ustr '' https://avatars.example/u/1 ''))"
  using parse_row_sample(1)[of sample_page 0]
  by (simp add: stamped_def fields_alice_def isspace_def ustr_def)

text \<open>
  Claim C8: in the record appended for a row, when the heading holds a hyperlink with an
  \<open>href\<close> the profile address is \<open>https://github.com\<close> followed by that \<open>href\<close> as it
  is, and the name is the hyperlink's text (edge-trimmed, as every extracted text is);
  when the heading holds no hyperlink the name is the heading's own text and the
  profile address is empty; when there is no heading both are empty.
\<close>

theorem profile_link_and_name:
  assumes "parse_row lib i element developers w = (Inr (developers @ [d]), w')"
  shows "(\<forall>heading a t href.
            bs_find lib element ''h1'' (Some ''h3'') = Inr (Some heading) \<and>
            bs_find lib heading ''a'' None = Inr (Some a) \<and>
            bs_get_text lib a = Inr t \<and> bs_get lib a ''href'' = Inr (Some href) \<longrightarrow>
            map_of d ''profile_url'' = Some (PStr (ustr ''https://github.com'' @ href)) \<and>
            map_of d ''name'' = Some (PStr (strip t))) \<and>
         (\<forall>heading t.
            bs_find lib element ''h1'' (Some ''h3'') = Inr (Some heading) \<and>
            bs_find lib heading ''a'' None = Inr None \<and>
            bs_get_text lib heading = Inr t \<longrightarrow>
            map_of d ''profile_url'' = Some (PStr []) \<and>
            map_of d ''name'' = Some (PStr (strip t))) \<and>
         (bs_find lib element ''h1'' (Some ''h3'') = Inr None \<longrightarrow>
            map_of d ''profile_url'' = Some (PStr []) \<and> map_of d ''name'' = Some (PStr []))"
proof -
  from parse_row_appended[OF assms] obtain d0 s where
    e: "extract_fields lib i element = Inr d0" and
    d: "d = AList.update ''scraped_at'' (PStr s) d0" by blast
  from extract_fields_steps[OF e] obtain d1 where
    n: "name_fields lib element [(''rank'', PInt (int i + 1))] = Inr d1" by blast
  from name_kept[OF e n] d have
    k: "map_of d ''name'' = map_of d1 ''name''" "map_of d ''profile_url'' = map_of d1 ''profile_url''"
    by simp_all
  show ?thesis
    using n unfolding k
    by (auto simp: name_fields_def and_then_def format_value_def)
qed

theorem profile_link_and_name_witness:
  "parse_row (tree_library sample_page) 0 row_alice [] online_world =
     (Inr ([] @ [stamped 0 (fields_alice 0)]), online_world\<lparr>ticks := 1\<rparr>) \<and>
   bs_find (tree_library sample_page) row_alice ''h1'' (Some ''h3'') = Inr (Some heading_alice) \<and>
   bs_find (tree_library sample_page) heading_alice ''a'' None = Inr (Some link_alice) \<and>
   bs_get_text (tree_library sample_page) link_alice = Inr (ustr ''  Alice  Liddell '') \<and>
   bs_get (tree_library sample_page) link_alice ''href'' = Inr (Some (ustr ''/alice'')) \<and>
   map_of (stamped 0 (fields_alice 0)) ''profile_url'' =
     Some (PStr (ustr ''https://github.com'' @ ustr ''/alice'')) \<and>
   map_of (stamped 0 (fields_alice 0)) ''name'' = Some (PStr (ustr ''Alice  Liddell'')) \<and>
   parse_row (tree_library sample_page) 2 row_bob [] online_world =
     (Inr ([] @ [stamped 0 (fields_bob 2)]), online_world\<lparr>ticks := 1\<rparr>) \<and>
   bs_find (tree_library sample_page) row_bob ''h1'' (Some ''h3'') = Inr (Some heading_bob) \<and>
   bs_find (tree_library sample_page) heading_bob ''a'' None = Inr None \<and>
   bs_get_text (tree_library sample_page) heading_bob = Inr (ustr ''Bob'') \<and>
   map_of (stamped 0 (fields_bob 2)) ''profile_url'' = Some (PStr []) \<and>
   map_of (stamped 0 (fields_bob 2)) ''name'' = Some (PStr (ustr ''Bob'')) \<and>
   parse_row (tree_library sample_page) 3 row_carol [] online_world =
     (Inr ([] @ [stamped 0 (fields_carol 3)]), online_world\<lparr>ticks := 1\<rparr>) \<and>
   bs_find (tree_library sample_page) row_carol ''h1'' (Some ''h3'') = Inr None \<and>
   map_of (stamped 0 (fields_carol 3)) ''profile_url'' = Some (PStr []) \<and>
   map_of (stamped 0 (fields_carol 3)) ''name'' = Some (PStr [])"
proof -
  let ?lib = "tree_library sample_page"
  note f = find_in_sample[of sample_page]
  from profile_link_and_name[OF parse_row_sample(1)[of sample_page 0]] f(1-4)
  have a: "map_of (stamped 0 (fields_alice 0)) ''profile_url'' =
             Some (PStr (ustr ''https://github.com'' @ ustr ''/alice'')) \<and>
           map_of (stamped 0 (fields_alice 0)) ''name'' =
             Some (PStr (strip (ustr ''  Alice  Liddell '')))"
    by blast
  from profile_link_and_name[OF parse_row_sample(2)[of sample_page 2]] f(7-9)
  have b: "map_of (stamped 0 (fields_bob 2)) ''profile_url'' = Some (PStr []) \<and>
           map_of (stamped 0 (fields_bob 2)) ''name'' = Some (PStr (strip (ustr ''Bob'')))"
    by blast
  from profile_link_and_name[OF parse_row_sample(3)[of sample_page 3]] f(10)
  have c: "map_of (stamped 0 (fields_carol 3)) ''profile_url'' = Some (PStr []) \<and>
           map_of (stamped 0 (fields_carol 3)) ''name'' = Some (PStr [])"
    by blast
  from a b c show ?thesis
    unfolding strip_sample
    by (intro conjI parse_row_sample f) (erule conjunct1 conjunct2)+
qed

text \<open>
  Claim C10: every record returned is a dictionary of exactly eight keys, \<open>rank\<close> bound
  to an integer and \<open>name\<close>, \<open>profile_url\<close>, \<open>username\<close>, \<open>avatar_url\<close>, \<open>popular_repo\<close>,
  \<open>repo_description\<close> and \<open>scraped_at\<close> bound to texts; a row whose extraction raises
  leaves no record behind: no record returned carries its rank.
\<close>

theorem records_fully_formed:
  assumes "requests_get w GITHUB_URL = Inr response"
    and "status_code response < 400 \<or> 600 \<le> status_code response"
    and "bs_parse lib (page_text response) = Inr soup"
    and "bs_find_all lib soup ''article'' (Some ''Box-row'') = Inr developer_elements"
    and "scrape_trending_developers lib w = (Inr developers, w')"
  shows "(\<forall>d \<in> set developers. \<exists>k n p u a r c s.
            d = [(''rank'', PInt k), (''name'', PStr n), (''profile_url'', PStr p),
                 (''username'', PStr u), (''avatar_url'', PStr a), (''popular_repo'', PStr r),
                 (''repo_description'', PStr c), (''scraped_at'', PStr s)]) \<and>
         (\<forall>row \<in> set (enumerate 0 developer_elements). \<forall>e.
            extract_fields lib (fst row) (snd row) = Inl e \<longrightarrow>
            (\<forall>d \<in> set developers. map_of d ''rank'' \<noteq> Some (PInt (int (fst row) + 1))))"
proof (intro conjI ballI allI impI)
  have k: "list_all2 (from_row lib) developers
           (filter (retained lib) (enumerate 0 developer_elements))"
    using assms by (rule scrape_kept)
  {
    fix d assume "d \<in> set developers"
    from list_all2_witness[OF k this] obtain row where "from_row lib d row" by auto
    from from_row_fields[OF this]
    show "\<exists>k n p u a r c s.
            d = [(''rank'', PInt k), (''name'', PStr n), (''profile_url'', PStr p),
                 (''username'', PStr u), (''avatar_url'', PStr a), (''popular_repo'', PStr r),
                 (''repo_description'', PStr c), (''scraped_at'', PStr s)]"
      by blast
  }
  {
    fix row e d
    assume row: "row \<in> set (enumerate 0 developer_elements)"
      and e: "extract_fields lib (fst row) (snd row) = Inl e"
      and d: "d \<in> set developers"
    show "map_of d ''rank'' \<noteq> Some (PInt (int (fst row) + 1))"
    proof
      assume "map_of d ''rank'' = Some (PInt (int (fst row) + 1))"
      from kept_row_of_rank[OF k d row this] e show False by (simp add: retained_def)
    qed
  }
qed

theorem records_fully_formed_witness:
  "requests_get online_world GITHUB_URL = Inr sample_response \<and>
   (status_code sample_response < 400 \<or> 600 \<le> status_code sample_response) \<and>
   bs_parse (brittle_library sample_page) (page_text sample_response) = Inr sample_page \<and>
   bs_find_all (brittle_library sample_page) sample_page ''article'' (Some ''Box-row'') =
     Inr [row_alice, row_blank, row_bob] \<and>
   scrape_trending_developers (brittle_library sample_page) online_world =
     (Inr [stamped 0 (fields_bob 2)],
      online_world\<lparr>ticks := 1,
        console := [Banner, Fetching, Found 3, ErrorParsing 1 TypeError]\<rparr>) \<and>
   extract_fields (brittle_library sample_page) 0 row_alice = Inl TypeError \<and>
   map_of (stamped 0 (fields_bob 2)) ''rank'' \<noteq> Some (PInt 1) \<and>
   map fst (stamped 0 (fields_bob 2)) =
     [''rank'', ''name'', ''profile_url'', ''username'', ''avatar_url'', ''popular_repo'',
      ''repo_description'', ''scraped_at'']"
proof -
  let ?r = "sample_response"
  let ?lib = "brittle_library sample_page"
  have h1: "requests_get online_world GITHUB_URL = Inr ?r" by (rule online_facts)
  have h2: "status_code ?r < 400 \<or> 600 \<le> status_code ?r"
    by (simp add: sample_response_facts)
  have h3: "bs_parse ?lib (page_text ?r) = Inr sample_page"
    by (simp add: parse_sample sample_response_facts)
  have h4: "bs_find_all ?lib sample_page ''article'' (Some ''Box-row'') =
     Inr [row_alice, row_blank, row_bob]" by (rule find_rows_brittle)
  note h5 = scrape_brittle
  note t = records_fully_formed[OF h1 h2 h3 h4 h5]
  have m: "(0, row_alice) \<in> set (enumerate 0 [row_alice, row_blank, row_bob])"
    by (simp add: enumerate_simps)
  have a: "extract_fields ?lib 0 row_alice = Inl TypeError" by simp
  from t have "\<forall>row \<in> set (enumerate 0 [row_alice, row_blank, row_bob]). \<forall>e.
            extract_fields ?lib (fst row) (snd row) = Inl e \<longrightarrow>
            (\<forall>d \<in> set [stamped 0 (fields_bob 2)].
               map_of d ''rank'' \<noteq> Some (PInt (int (fst row) + 1)))"
    by blast
  from this[rule_format, OF m, of TypeError "stamped 0 (fields_bob 2)"] a
  have nr: "map_of (stamped 0 (fields_bob 2)) ''rank'' \<noteq> Some (PInt 1)" by simp
  from t have "\<exists>k n p u a r c s. stamped 0 (fields_bob 2) =
       [(''rank'', PInt k), (''name'', PStr n), (''profile_url'', PStr p),
        (''username'', PStr u), (''avatar_url'', PStr a), (''popular_repo'', PStr r),
        (''repo_description'', PStr c), (''scraped_at'', PStr s)]"
    by simp
  then have keys: "map fst (stamped 0 (fields_bob 2)) =
     [''rank'', ''name'', ''profile_url'', ''username'', ''avatar_url'', ''popular_repo'',
      ''repo_description'', ''scraped_at'']"
    by auto
  show ?thesis by (intro conjI h1 h2 h3 h4 h5 a nr keys)
qed

end
